(* ===== verification/Uvfs_Prelude.thy ===== *)
theory Uvfs_Prelude
  imports Main "HOL-Library.Word"
begin

text \<open>
  Shared vocabulary of the development: the machine integers of the C sources, the
  \<open>errno\<close> values the module returns, byte slices of a fixed buffer (the C memory of a
  structure), the little-endian layout of a 32-bit integer, the lemma collections the
  component theories feed, and two interfaces used throughout: a fixed-width field of a
  structure (locale \<open>codec\<close>) and an invariant of a labelled transition system (locale
  \<open>invariant_system\<close>).

  Conventions: \<open>int\<close> and \<open>unsigned\<close> of the sources are 32-bit words, \<open>unsigned long\<close>,
  \<open>size_t\<close> and \<open>loff_t\<close> are 64-bit words (the x86-64 kernels the README names), \<open>char\<close> is
  an 8-bit word. A signed reading is written \<open>sint\<close>. Return codes are HOL integers: the
  code only stores and compares them.
\<close>

unbundle bit_operations_syntax

type_synonym byte = "8 word"
type_synonym u32 = "32 word"
type_synonym u64 = "64 word"
type_synonym buf = "byte list"

named_theorems layout_simps \<open>sizes and offsets of the protocol structures\<close>
named_theorems buffer_simps \<open>reading back what was written into a buffer\<close>

section \<open>Error numbers\<close>

text \<open>The values of \<open>asm-generic/errno.h\<close> and \<open>linux/errno.h\<close>.\<close>

abbreviation ENOENT :: int where "ENOENT \<equiv> 2"
abbreviation EIO :: int where "EIO \<equiv> 5"
abbreviation ENOMEM :: int where "ENOMEM \<equiv> 12"
abbreviation EACCES :: int where "EACCES \<equiv> 13"
abbreviation EFAULT :: int where "EFAULT \<equiv> 14"
abbreviation EINVAL :: int where "EINVAL \<equiv> 22"
abbreviation EROFS :: int where "EROFS \<equiv> 30"
abbreviation ENAMETOOLONG :: int where "ENAMETOOLONG \<equiv> 36"
abbreviation ENOTEMPTY :: int where "ENOTEMPTY \<equiv> 39"
abbreviation EREMOTE :: int where "EREMOTE \<equiv> 66"
abbreviation ECOMM :: int where "ECOMM \<equiv> 70"
abbreviation ESTALE :: int where "ESTALE \<equiv> 116"
abbreviation ERESTARTSYS :: int where "ERESTARTSYS \<equiv> 512"

section \<open>Byte slices\<close>

text \<open>
  \<open>bytes_at off n u\<close> is the \<open>n\<close> bytes at offset \<open>off\<close>; \<open>put_bytes off bs u\<close> is the memory
  after \<open>memcpy(u + off, bs, length bs)\<close>. A write that runs past the end of \<open>u\<close> makes the
  list longer, so an overrun is visible as a change of length.
\<close>

definition bytes_at :: "nat \<Rightarrow> nat \<Rightarrow> 'a list \<Rightarrow> 'a list" where
  "bytes_at off n u = take n (drop off u)"

definition put_bytes :: "nat \<Rightarrow> 'a list \<Rightarrow> 'a list \<Rightarrow> 'a list" where
  "put_bytes off bs u = take off u @ bs @ drop (off + length bs) u"

lemma length_bytes_at [simp]: "off + n \<le> length u \<Longrightarrow> length (bytes_at off n u) = n"
  by (simp add: bytes_at_def)

lemma length_put_bytes [simp]:
  "off + length bs \<le> length u \<Longrightarrow> length (put_bytes off bs u) = length u"
  by (simp add: put_bytes_def)

lemma put_bytes_overrun:
  "off \<le> length u \<Longrightarrow> length u < off + length bs \<Longrightarrow> length (put_bytes off bs u) = off + length bs"
  by (simp add: put_bytes_def)

lemma bytes_at_zero [simp]: "bytes_at off 0 u = []"
  by (simp add: bytes_at_def)

lemma bytes_at_put_same [buffer_simps]:
  "off + n \<le> length u \<Longrightarrow> length bs = n \<Longrightarrow> bytes_at off n (put_bytes off bs u) = bs"
  by (simp add: bytes_at_def put_bytes_def)

lemma bytes_at_put_before [buffer_simps]:
  "off + n \<le> off' \<Longrightarrow> off' \<le> length u \<Longrightarrow> bytes_at off n (put_bytes off' bs u) = bytes_at off n u"
  by (simp add: bytes_at_def put_bytes_def take_drop add.commute min_def)

lemma bytes_at_put_after [buffer_simps]:
  assumes "off' + length bs \<le> off" and "off' + length bs \<le> length u"
  shows "bytes_at off n (put_bytes off' bs u) = bytes_at off n u"
  using assms by (simp add: bytes_at_def put_bytes_def)

lemma bytes_at_join: "bytes_at off m u @ bytes_at (off + m) n u = bytes_at off (m + n) u"
  by (simp add: bytes_at_def take_add add.commute)

lemma take_eq_bytes_at: "take n u = bytes_at 0 n u"
  by (simp add: bytes_at_def)

lemma bytes_at_bytes_at: "i + k \<le> n \<Longrightarrow> bytes_at i k (bytes_at off n u) = bytes_at (off + i) k u"
  by (simp add: bytes_at_def take_drop add.commute add.left_commute)

lemma bytes_at_take: "off + n \<le> m \<Longrightarrow> bytes_at off n (take m u) = bytes_at off n u"
  by (simp add: bytes_at_def take_drop min_def add.commute)

lemma bytes_at_append_left: "off + n \<le> length xs \<Longrightarrow> bytes_at off n (xs @ ys) = bytes_at off n xs"
  by (simp add: bytes_at_def)

lemma bytes_at_append_right [buffer_simps]: "length xs \<le> off \<Longrightarrow> bytes_at off n (xs @ ys) = bytes_at (off - length xs) n ys"
  by (simp add: bytes_at_def)

section \<open>Little-endian 32-bit integers\<close>

definition le32 :: "u32 \<Rightarrow> buf" where
  "le32 w = [ucast w, ucast (drop_bit 8 w), ucast (drop_bit 16 w), ucast (drop_bit 24 w)]"

definition of_le32 :: "buf \<Rightarrow> u32" where
  "of_le32 bs = (case bs of
       [a, b, c, d] \<Rightarrow> ucast a OR push_bit 8 (ucast b) OR push_bit 16 (ucast c) OR push_bit 24 (ucast d)
     | _ \<Rightarrow> 0)"

definition get32 :: "nat \<Rightarrow> buf \<Rightarrow> u32" where
  "get32 off u = of_le32 (bytes_at off 4 u)"

definition put32 :: "nat \<Rightarrow> u32 \<Rightarrow> buf \<Rightarrow> buf" where
  "put32 off w u = put_bytes off (le32 w) u"

lemma length_le32 [simp]: "length (le32 w) = 4"
  by (simp add: le32_def)

lemma of_le32_le32 [simp]: "of_le32 (le32 w) = w"
proof (rule bit_word_eqI)
  fix n assume "n < LENGTH(32)"
  moreover have "24 \<le> n \<or> n - 16 < 8" by arith
  ultimately show "bit (of_le32 (le32 w)) n = bit w n"
    by (auto simp: of_le32_def le32_def bit_simps)
qed

lemma length_put32 [simp]: "off + 4 \<le> length u \<Longrightarrow> length (put32 off w u) = length u"
  by (simp add: put32_def)

lemma get32_put32_same [buffer_simps]: "off + 4 \<le> length u \<Longrightarrow> get32 off (put32 off w u) = w"
  by (simp add: get32_def put32_def bytes_at_put_same)

lemma bytes_at_put32_same [buffer_simps]:
  "off + 4 \<le> length u \<Longrightarrow> bytes_at off 4 (put32 off w u) = le32 w"
  by (simp add: put32_def bytes_at_put_same)

lemma bytes_at_put32_other [buffer_simps]:
  "off' + 4 \<le> length u \<Longrightarrow> off + n \<le> off' \<or> off' + 4 \<le> off \<Longrightarrow>
   bytes_at off n (put32 off' w u) = bytes_at off n u"
  by (auto simp: put32_def bytes_at_put_before bytes_at_put_after)

lemma get32_put32_other [buffer_simps]:
  "off' + 4 \<le> length u \<Longrightarrow> off + 4 \<le> off' \<or> off' + 4 \<le> off \<Longrightarrow>
   get32 off (put32 off' w u) = get32 off u"
  by (simp add: get32_def bytes_at_put32_other)

lemma get32_put_bytes_other [buffer_simps]:
  "off' + length bs \<le> length u \<Longrightarrow> off + 4 \<le> off' \<or> off' + length bs \<le> off \<Longrightarrow>
   get32 off (put_bytes off' bs u) = get32 off u"
  by (auto simp: get32_def bytes_at_put_before bytes_at_put_after)

lemma get32_take: "off + 4 \<le> n \<Longrightarrow> get32 off (take n u) = get32 off u"
  by (simp add: get32_def bytes_at_take)

lemma get32_append [buffer_simps]:
  "length xs \<le> off \<Longrightarrow> get32 off (xs @ ys) = get32 (off - length xs) ys"
  by (simp add: get32_def bytes_at_append_right)

lemma get32_front [buffer_simps]: "get32 0 (le32 w @ ys) = w" "get32 0 (le32 w) = w"
  by (simp_all add: get32_def bytes_at_def)

lemma bytes_at_front [buffer_simps]:
  "length xs = n \<Longrightarrow> bytes_at 0 n (xs @ ys) = xs" "length xs = n \<Longrightarrow> bytes_at 0 n xs = xs"
  by (simp_all add: bytes_at_def)

section \<open>Integers of different widths\<close>

lemma unat_widen: "unat (ucast w :: u64) = unat w" for w :: u32
  by transfer (simp add: take_bit_take_bit)

lemma unat_signed_widen:
  assumes "k < 2 ^ 31"
  shows "unat (scast (word_of_nat k :: u32) :: u64) = k" and "sint (word_of_nat k :: u32) = int k"
proof -
  have "signed_take_bit 31 (int k) = int k"
    using assms by (simp add: signed_take_bit_int_eq_self)
  then show sk: "sint (word_of_nat k :: u32) = int k"
    by (simp add: signed_of_nat)
  have "(scast (word_of_nat k :: u32) :: u64) = word_of_int (sint (word_of_nat k :: u32))"
    by simp
  then show "unat (scast (word_of_nat k :: u32) :: u64) = k"
    using assms unfolding sk by (simp add: unsigned_of_nat take_bit_nat_eq_self_iff)
qed

lemma unat_sum: "unat a + unat b < 2 ^ 64 \<Longrightarrow> unat (a + b) = unat a + unat b" for a b :: u64
  using unat_add_lem [of a b] by simp

section \<open>Interface: a fixed-width field\<close>

text \<open>
  A C type of a fixed size, as the protocol structures use it: \<open>enc\<close> is the memory of a
  value, \<open>dec\<close> reads a value from memory, \<open>width\<close> is its \<open>sizeof\<close>.
\<close>

locale codec =
  fixes width :: nat
    and enc :: "'a \<Rightarrow> buf"
    and dec :: "buf \<Rightarrow> 'a"
  assumes length_enc: "length (enc x) = width"
    and dec_enc: "dec (enc x) = x"
begin

lemma enc_inject: "enc x = enc y \<longleftrightarrow> x = y"
  using dec_enc by metis

lemma field_read_back:
  "off + width \<le> length u \<Longrightarrow> dec (bytes_at off width (put_bytes off (enc x) u)) = x"
  by (simp add: bytes_at_put_same length_enc dec_enc)

lemma field_at_front: "dec (bytes_at 0 width (enc x @ rest)) = x"
  by (simp add: bytes_at_def length_enc dec_enc)

lemma field_after: "length pre = off \<Longrightarrow> dec (bytes_at off width (pre @ enc x @ rest)) = x"
  by (simp add: bytes_at_def length_enc dec_enc)

end

interpretation u32_codec: codec 4 le32 of_le32
  by unfold_locales simp_all

section \<open>Interface: an invariant of a labelled transition system\<close>

text \<open>
  \<open>reach init step ok s\<close>: the states a system reaches from \<open>init\<close> by steps whose label the
  discipline \<open>ok\<close> admits. \<open>ok\<close> names what is assumed of the environment (no signals, a
  server that answers only requests it has read); with \<open>\<lambda>s l. True\<close> nothing is assumed.
\<close>

inductive reach ::
  "('s \<Rightarrow> bool) \<Rightarrow> ('s \<Rightarrow> 'l \<Rightarrow> 's \<Rightarrow> bool) \<Rightarrow> ('s \<Rightarrow> 'l \<Rightarrow> bool) \<Rightarrow> 's \<Rightarrow> bool"
  for init step ok where
  reach_init: "init s \<Longrightarrow> reach init step ok s"
| reach_step: "reach init step ok s \<Longrightarrow> step s l s' \<Longrightarrow> ok s l \<Longrightarrow> reach init step ok s'"

locale invariant_system =
  fixes init :: "'s \<Rightarrow> bool"
    and step :: "'s \<Rightarrow> 'l \<Rightarrow> 's \<Rightarrow> bool"
    and ok :: "'s \<Rightarrow> 'l \<Rightarrow> bool"
    and inv :: "'s \<Rightarrow> bool"
  assumes inv_init: "init s \<Longrightarrow> inv s"
    and inv_step: "inv s \<Longrightarrow> step s l s' \<Longrightarrow> ok s l \<Longrightarrow> inv s'"
begin

lemma inv_reach: "reach init step ok s \<Longrightarrow> inv s"
  by (induction rule: reach.induct) (auto intro: inv_init inv_step)

end

lemma reach_mono:
  assumes "reach init step ok s" and "\<And>s l. ok s l \<Longrightarrow> ok' s l"
  shows "reach init step ok' s"
  using assms(1) by (induction rule: reach.induct) (auto intro: reach.intros assms(2))

section \<open>Interface: refinement of a labelled transition system\<close>

text \<open>\<open>traced init step ok op s os\<close>: \<open>s\<close> is reached by a run whose steps perform the operations \<open>os\<close>.\<close>

inductive traced ::
  "('s \<Rightarrow> bool) \<Rightarrow> ('s \<Rightarrow> 'l \<Rightarrow> 's \<Rightarrow> bool) \<Rightarrow> ('s \<Rightarrow> 'l \<Rightarrow> bool) \<Rightarrow> ('s \<Rightarrow> 'l \<Rightarrow> 'o) \<Rightarrow> 's \<Rightarrow> 'o list \<Rightarrow> bool"
  for init step ok op where
  traced_init: "init s \<Longrightarrow> traced init step ok op s []"
| traced_step: "traced init step ok op s os \<Longrightarrow> step s l s' \<Longrightarrow> ok s l \<Longrightarrow>
    traced init step ok op s' (os @ [op s l])"

fun replay :: "('o \<Rightarrow> 'a \<Rightarrow> 'a option) \<Rightarrow> 'o list \<Rightarrow> 'a \<Rightarrow> 'a option" where
  "replay f [] a = Some a"
| "replay f (x # os) a = (case f x a of None \<Rightarrow> None | Some a' \<Rightarrow> replay f os a')"

lemma replay_append:
  "replay f (os @ os') a = (case replay f os a of None \<Rightarrow> None | Some a' \<Rightarrow> replay f os' a')"
  by (induction os arbitrary: a) (auto split: option.splits)

lemma traced_reach: "traced init step ok op s os \<Longrightarrow> reach init step ok s"
  by (induction rule: traced.induct) (auto intro: reach.intros)

locale refinement = invariant_system init step ok inv
  for init :: "'s \<Rightarrow> bool" and step :: "'s \<Rightarrow> 'l \<Rightarrow> 's \<Rightarrow> bool" and ok inv +
  fixes abs :: "'s \<Rightarrow> 'a"
    and op :: "'s \<Rightarrow> 'l \<Rightarrow> 'o"
    and astep :: "'o \<Rightarrow> 'a \<Rightarrow> 'a option"
    and ainit :: 'a
  assumes abs_init: "init s \<Longrightarrow> abs s = ainit"
    and simulate: "inv s \<Longrightarrow> step s l s' \<Longrightarrow> ok s l \<Longrightarrow> astep (op s l) (abs s) = Some (abs s')"
begin

lemma traced_replay: "traced init step ok op s os \<Longrightarrow> replay astep os ainit = Some (abs s)"
proof (induction rule: traced.induct)
  case (traced_step s os l s')
  from traced_step.hyps(1) have "inv s" by (rule inv_reach [OF traced_reach])
  with traced_step show ?case by (simp add: replay_append simulate)
qed (simp add: abs_init)

end

end
