(* ===== verification/Uvfs_Protocol.thy ===== *)
theory Uvfs_Protocol
  imports Uvfs_Prelude
begin

text \<open>
  The kernel to user space protocol of \<open>src/protocol.h\<close>: its constants, the layout of every
  request and reply structure, the file handle and attribute records, and what a server
  that follows the header reads out of the bytes of a request.

  A C structure is a list of named members; \<open>offsetof\<close> and \<open>sizeof\<close> compute its layout with
  the alignment rule of the x86-64 ABI. The layout lemmas (collection \<open>layout_simps\<close>) are
  computed from the member lists, so an offset used elsewhere in the development is the
  one the compiler would use.
\<close>

section \<open>C layout\<close>

datatype ctype = C_int | C_uint | C_char | C_array ctype nat | C_struct "(string \<times> ctype) list"

type_synonym members = "(string \<times> ctype) list"

definition align_up :: "nat \<Rightarrow> nat \<Rightarrow> nat" where
  "align_up n a = (n + a - 1) div a * a"

fun alignof :: "ctype \<Rightarrow> nat" and members_align :: "members \<Rightarrow> nat" where
  "alignof C_int = 4"
| "alignof C_uint = 4"
| "alignof C_char = 1"
| "alignof (C_array t n) = alignof t"
| "alignof (C_struct ms) = members_align ms"
| "members_align [] = 1"
| "members_align ((f, t) # ms) = max (alignof t) (members_align ms)"

fun sizeof_type :: "ctype \<Rightarrow> nat" and members_end :: "nat \<Rightarrow> members \<Rightarrow> nat" where
  "sizeof_type C_int = 4"
| "sizeof_type C_uint = 4"
| "sizeof_type C_char = 1"
| "sizeof_type (C_array t n) = sizeof_type t * n"
| "sizeof_type (C_struct ms) = align_up (members_end 0 ms) (members_align ms)"
| "members_end off [] = off"
| "members_end off ((f, t) # ms) = members_end (align_up off (alignof t) + sizeof_type t) ms"

definition sizeof :: "members \<Rightarrow> nat" where
  "sizeof ms = sizeof_type (C_struct ms)"

fun offset_from :: "nat \<Rightarrow> members \<Rightarrow> string \<Rightarrow> nat option" where
  "offset_from off [] f = None"
| "offset_from off ((g, t) # ms) f =
     (if f = g then Some (align_up off (alignof t))
      else offset_from (align_up off (alignof t) + sizeof_type t) ms f)"

definition offsetof :: "members \<Rightarrow> string \<Rightarrow> nat" where
  "offsetof ms f = the (offset_from 0 ms f)"

definition sizeof_union :: "members list \<Rightarrow> nat" where
  "sizeof_union ss = foldr (\<lambda>s n. max (sizeof s) n) ss 0"

section \<open>Constants\<close>

definition PAGE_CACHE_SIZE :: nat where [layout_simps]: "PAGE_CACHE_SIZE = 4096"
definition UVFS_MAX_NAMELEN :: nat where [layout_simps]: "UVFS_MAX_NAMELEN = 256"
definition UVFS_MAX_PATHLEN :: nat where [layout_simps]: "UVFS_MAX_PATHLEN = 1024"
definition UVFS_BUFFSIZE :: nat where [layout_simps]: "UVFS_BUFFSIZE = 2048"

definition UVFS_IOCTL_SHUTDOWN :: u32 where [layout_simps]: "UVFS_IOCTL_SHUTDOWN = 42"
definition UVFS_IOCTL_STATUS :: u32 where [layout_simps]: "UVFS_IOCTL_STATUS = 43"
definition UVFS_IOCTL_USE_COUNT :: u32 where [layout_simps]: "UVFS_IOCTL_USE_COUNT = 44"
definition UVFS_IOCTL_MOUNT :: u32 where [layout_simps]: "UVFS_IOCTL_MOUNT = 45"

definition UVFS_WRITE :: u32 where [layout_simps]: "UVFS_WRITE = 1"
definition UVFS_READ :: u32 where [layout_simps]: "UVFS_READ = 2"
definition UVFS_CREATE :: u32 where [layout_simps]: "UVFS_CREATE = 3"
definition UVFS_LOOKUP :: u32 where [layout_simps]: "UVFS_LOOKUP = 4"
definition UVFS_UNLINK :: u32 where [layout_simps]: "UVFS_UNLINK = 5"
definition UVFS_SYMLINK :: u32 where [layout_simps]: "UVFS_SYMLINK = 6"
definition UVFS_MKDIR :: u32 where [layout_simps]: "UVFS_MKDIR = 7"
definition UVFS_RMDIR :: u32 where [layout_simps]: "UVFS_RMDIR = 8"
definition UVFS_RENAME :: u32 where [layout_simps]: "UVFS_RENAME = 9"
definition UVFS_READDIR :: u32 where [layout_simps]: "UVFS_READDIR = 10"
definition UVFS_SETATTR :: u32 where [layout_simps]: "UVFS_SETATTR = 11"
definition UVFS_GETATTR :: u32 where [layout_simps]: "UVFS_GETATTR = 12"
definition UVFS_STATFS :: u32 where [layout_simps]: "UVFS_STATFS = 13"
definition UVFS_READ_SUPER :: u32 where [layout_simps]: "UVFS_READ_SUPER = 14"
definition UVFS_READLINK :: u32 where [layout_simps]: "UVFS_READLINK = 15"
definition UVFS_SHUTDOWN :: u32 where [layout_simps]: "UVFS_SHUTDOWN = 16"

section \<open>Handles and attributes\<close>

record vfs_fspid_s =
  fs_sbxid :: u32
  fs_sfuid :: u32

record vfs_narid_s =
  na_ipaddr :: u32
  na_aruid :: u32

record uvfs_fhandle_s =
  no_mntid :: u32
  no_flags :: "byte \<times> byte \<times> byte \<times> byte"
  no_narid :: vfs_narid_s
  no_sbxid :: u32
  no_fspid :: vfs_fspid_s
  no_blank2 :: u32

record uvfs_timespec_s =
  tv_sec :: u32
  tv_nsec :: u32

record uvfs_attr_s =
  a_mode :: u32
  a_nlink :: u32
  a_uid :: u32
  a_gid :: u32
  a_size :: u32
  a_atime :: uvfs_timespec_s
  a_mtime :: uvfs_timespec_s
  a_ctime :: uvfs_timespec_s
  a_blksize :: u32
  a_blocks :: u32
  a_devno :: u32

definition fspid_members :: members where
  "fspid_members = [(''fs_sbxid'', C_uint), (''fs_sfuid'', C_uint)]"

definition narid_members :: members where
  "narid_members = [(''na_ipaddr'', C_uint), (''na_aruid'', C_uint)]"

definition fhandle_members :: members where
  "fhandle_members =
     [(''no_mntid'', C_uint), (''no_flags'', C_array C_char 4), (''no_narid'', C_struct narid_members),
      (''no_sbxid'', C_uint), (''no_fspid'', C_struct fspid_members), (''no_blank2'', C_uint)]"

definition timespec_members :: members where
  "timespec_members = [(''tv_sec'', C_uint), (''tv_nsec'', C_uint)]"

definition attr_members :: members where
  "attr_members =
     [(''i_mode'', C_uint), (''i_nlink'', C_uint), (''i_uid'', C_uint), (''i_gid'', C_uint),
      (''i_size'', C_uint), (''i_atime'', C_struct timespec_members),
      (''i_mtime'', C_struct timespec_members), (''i_ctime'', C_struct timespec_members),
      (''i_blksize'', C_uint), (''i_blocks'', C_uint), (''devno'', C_int)]"

definition enc_flags :: "byte \<times> byte \<times> byte \<times> byte \<Rightarrow> buf" where
  "enc_flags f = (case f of (a, b, c, d) \<Rightarrow> [a, b, c, d])"

definition dec_flags :: "buf \<Rightarrow> byte \<times> byte \<times> byte \<times> byte" where
  "dec_flags bs = (case bs of [a, b, c, d] \<Rightarrow> (a, b, c, d) | _ \<Rightarrow> (0, 0, 0, 0))"

definition enc_fhandle :: "uvfs_fhandle_s \<Rightarrow> buf" where
  "enc_fhandle fh =
     le32 (no_mntid fh) @ enc_flags (no_flags fh)
     @ le32 (na_ipaddr (no_narid fh)) @ le32 (na_aruid (no_narid fh)) @ le32 (no_sbxid fh)
     @ le32 (fs_sbxid (no_fspid fh)) @ le32 (fs_sfuid (no_fspid fh)) @ le32 (no_blank2 fh)"

definition dec_fhandle :: "buf \<Rightarrow> uvfs_fhandle_s" where
  "dec_fhandle bs =
     \<lparr>no_mntid = get32 0 bs,
      no_flags = dec_flags (bytes_at 4 4 bs),
      no_narid = \<lparr>na_ipaddr = get32 8 bs, na_aruid = get32 12 bs\<rparr>,
      no_sbxid = get32 16 bs,
      no_fspid = \<lparr>fs_sbxid = get32 20 bs, fs_sfuid = get32 24 bs\<rparr>,
      no_blank2 = get32 28 bs\<rparr>"

definition enc_timespec :: "uvfs_timespec_s \<Rightarrow> buf" where
  "enc_timespec t = le32 (tv_sec t) @ le32 (tv_nsec t)"

definition dec_timespec :: "buf \<Rightarrow> uvfs_timespec_s" where
  "dec_timespec bs = \<lparr>tv_sec = get32 0 bs, tv_nsec = get32 4 bs\<rparr>"

definition enc_attr :: "uvfs_attr_s \<Rightarrow> buf" where
  "enc_attr a =
     le32 (a_mode a) @ le32 (a_nlink a) @ le32 (a_uid a) @ le32 (a_gid a) @ le32 (a_size a)
     @ enc_timespec (a_atime a) @ enc_timespec (a_mtime a) @ enc_timespec (a_ctime a)
     @ le32 (a_blksize a) @ le32 (a_blocks a) @ le32 (a_devno a)"

definition dec_attr :: "buf \<Rightarrow> uvfs_attr_s" where
  "dec_attr bs =
     \<lparr>a_mode = get32 0 bs, a_nlink = get32 4 bs, a_uid = get32 8 bs, a_gid = get32 12 bs,
      a_size = get32 16 bs,
      a_atime = dec_timespec (bytes_at 20 8 bs), a_mtime = dec_timespec (bytes_at 28 8 bs),
      a_ctime = dec_timespec (bytes_at 36 8 bs),
      a_blksize = get32 44 bs, a_blocks = get32 48 bs, a_devno = get32 52 bs\<rparr>"

section \<open>Requests\<close>

definition uvfs_generic_req_s :: members where
  "uvfs_generic_req_s =
     [(''type'', C_int), (''serial'', C_int), (''size'', C_int)]"

definition uvfs_file_write_req_s :: members where
  "uvfs_file_write_req_s =
     [(''type'', C_int), (''serial'', C_int), (''size'', C_int), (''uid'', C_uint),
      (''gid'', C_uint), (''fh'', C_struct fhandle_members), (''count'', C_uint),
      (''offset'', C_uint), (''buff'', C_array C_char PAGE_CACHE_SIZE)]"

definition uvfs_file_read_req_s :: members where
  "uvfs_file_read_req_s =
     [(''type'', C_int), (''serial'', C_int), (''size'', C_int), (''uid'', C_uint),
      (''gid'', C_uint), (''fh'', C_struct fhandle_members), (''count'', C_int),
      (''offset'', C_int)]"

definition uvfs_create_req_s :: members where
  "uvfs_create_req_s =
     [(''type'', C_int), (''serial'', C_int), (''size'', C_int), (''uid'', C_uint),
      (''gid'', C_uint), (''fh'', C_struct fhandle_members), (''mode'', C_int),
      (''namelen'', C_uint), (''name'', C_array C_char UVFS_MAX_NAMELEN)]"

definition uvfs_lookup_req_s :: members where
  "uvfs_lookup_req_s =
     [(''type'', C_int), (''serial'', C_int), (''size'', C_int), (''uid'', C_uint),
      (''gid'', C_uint), (''fh'', C_struct fhandle_members), (''namelen'', C_int),
      (''name'', C_array C_char UVFS_MAX_NAMELEN)]"

definition uvfs_unlink_req_s :: members where
  "uvfs_unlink_req_s =
     [(''type'', C_int), (''serial'', C_int), (''size'', C_int), (''uid'', C_uint),
      (''gid'', C_uint), (''fh'', C_struct fhandle_members), (''namelen'', C_int),
      (''name'', C_array C_char UVFS_MAX_NAMELEN)]"

definition uvfs_symlink_req_s :: members where
  "uvfs_symlink_req_s =
     [(''type'', C_int), (''serial'', C_int), (''size'', C_int), (''uid'', C_uint),
      (''gid'', C_uint), (''fh'', C_struct fhandle_members),
      (''name'', C_array C_char UVFS_MAX_NAMELEN), (''namelen'', C_int),
      (''sympath'', C_array C_char UVFS_MAX_PATHLEN), (''symlen'', C_int)]"

definition uvfs_mkdir_req_s :: members where
  "uvfs_mkdir_req_s =
     [(''type'', C_int), (''serial'', C_int), (''size'', C_int), (''uid'', C_uint),
      (''gid'', C_uint), (''mode'', C_int), (''fh'', C_struct fhandle_members),
      (''namelen'', C_int), (''name'', C_array C_char UVFS_MAX_NAMELEN)]"

definition uvfs_rmdir_req_s :: members where
  "uvfs_rmdir_req_s =
     [(''type'', C_int), (''serial'', C_int), (''size'', C_int), (''uid'', C_uint),
      (''gid'', C_uint), (''fh'', C_struct fhandle_members), (''namelen'', C_int),
      (''name'', C_array C_char UVFS_MAX_NAMELEN)]"

definition uvfs_rename_req_s :: members where
  "uvfs_rename_req_s =
     [(''type'', C_int), (''serial'', C_int), (''size'', C_int), (''uid'', C_uint),
      (''gid'', C_uint), (''fh_old'', C_struct fhandle_members),
      (''old_name'', C_array C_char UVFS_MAX_NAMELEN), (''old_namelen'', C_int),
      (''fh_new'', C_struct fhandle_members),
      (''new_name'', C_array C_char UVFS_MAX_NAMELEN), (''new_namelen'', C_int)]"

definition uvfs_readdir_req_s :: members where
  "uvfs_readdir_req_s =
     [(''type'', C_int), (''serial'', C_int), (''size'', C_int), (''uid'', C_uint),
      (''gid'', C_uint), (''fh'', C_struct fhandle_members), (''entry_no'', C_int)]"

definition uvfs_setattr_req_s :: members where
  "uvfs_setattr_req_s =
     [(''type'', C_int), (''serial'', C_int), (''size'', C_int), (''uid'', C_uint),
      (''gid'', C_uint), (''fh'', C_struct fhandle_members), (''ia_valid'', C_uint),
      (''ia_uid'', C_uint), (''ia_gid'', C_uint), (''ia_size'', C_uint),
      (''ia_atime'', C_struct timespec_members), (''ia_mtime'', C_struct timespec_members),
      (''ia_ctime'', C_struct timespec_members), (''ia_mode'', C_uint)]"

definition uvfs_getattr_req_s :: members where
  "uvfs_getattr_req_s =
     [(''type'', C_int), (''serial'', C_int), (''size'', C_int), (''uid'', C_uint),
      (''gid'', C_uint), (''fh'', C_struct fhandle_members)]"

definition uvfs_statfs_req_s :: members where
  "uvfs_statfs_req_s =
     [(''type'', C_int), (''serial'', C_int), (''size'', C_int),
      (''fh'', C_struct fhandle_members)]"

definition uvfs_read_super_req_s :: members where
  "uvfs_read_super_req_s =
     [(''type'', C_int), (''serial'', C_int), (''size'', C_int), (''uid'', C_uint),
      (''gid'', C_uint), (''arglength'', C_int), (''buff'', C_array C_char UVFS_MAX_PATHLEN)]"

definition uvfs_readlink_req_s :: members where
  "uvfs_readlink_req_s =
     [(''type'', C_int), (''serial'', C_int), (''size'', C_int), (''uid'', C_uint),
      (''gid'', C_uint), (''fh'', C_struct fhandle_members)]"

definition uvfs_shutdown_req_s :: members where
  "uvfs_shutdown_req_s =
     [(''type'', C_int), (''serial'', C_int), (''size'', C_int)]"

definition uvfs_request_u :: "members list" where
  "uvfs_request_u =
     [uvfs_generic_req_s,
      uvfs_file_write_req_s,
      uvfs_file_read_req_s,
      uvfs_create_req_s,
      uvfs_lookup_req_s,
      uvfs_unlink_req_s,
      uvfs_symlink_req_s,
      uvfs_mkdir_req_s,
      uvfs_rmdir_req_s,
      uvfs_rename_req_s,
      uvfs_readdir_req_s,
      uvfs_setattr_req_s,
      uvfs_getattr_req_s,
      uvfs_statfs_req_s,
      uvfs_read_super_req_s,
      uvfs_readlink_req_s,
      uvfs_shutdown_req_s]"

section \<open>Replies\<close>

definition uvfs_generic_rep_s :: members where
  "uvfs_generic_rep_s =
     [(''type'', C_int), (''serial'', C_int), (''size'', C_int), (''error'', C_int)]"

definition uvfs_file_write_rep_s :: members where
  "uvfs_file_write_rep_s =
     [(''type'', C_int), (''serial'', C_int), (''size'', C_int), (''error'', C_int),
      (''bytes_written'', C_uint)]"

definition uvfs_file_read_rep_s :: members where
  "uvfs_file_read_rep_s =
     [(''type'', C_int), (''serial'', C_int), (''size'', C_int), (''error'', C_int),
      (''bytes_read'', C_int), (''buff'', C_array C_char PAGE_CACHE_SIZE)]"

definition uvfs_create_rep_s :: members where
  "uvfs_create_rep_s =
     [(''type'', C_int), (''serial'', C_int), (''size'', C_int), (''error'', C_int),
      (''fh'', C_struct fhandle_members), (''a'', C_struct attr_members)]"

definition uvfs_lookup_rep_s :: members where
  "uvfs_lookup_rep_s =
     [(''type'', C_int), (''serial'', C_int), (''size'', C_int), (''error'', C_int),
      (''fh'', C_struct fhandle_members), (''a'', C_struct attr_members)]"

definition uvfs_unlink_rep_s :: members where
  "uvfs_unlink_rep_s =
     [(''type'', C_int), (''serial'', C_int), (''size'', C_int), (''error'', C_int)]"

definition uvfs_symlink_rep_s :: members where
  "uvfs_symlink_rep_s =
     [(''type'', C_int), (''serial'', C_int), (''size'', C_int), (''error'', C_int),
      (''fh'', C_struct fhandle_members), (''a'', C_struct attr_members)]"

definition uvfs_mkdir_rep_s :: members where
  "uvfs_mkdir_rep_s =
     [(''type'', C_int), (''serial'', C_int), (''size'', C_int), (''error'', C_int),
      (''fh'', C_struct fhandle_members), (''a'', C_struct attr_members)]"

definition uvfs_rmdir_rep_s :: members where
  "uvfs_rmdir_rep_s =
     [(''type'', C_int), (''serial'', C_int), (''size'', C_int), (''error'', C_int)]"

definition uvfs_rename_rep_s :: members where
  "uvfs_rename_rep_s =
     [(''type'', C_int), (''serial'', C_int), (''size'', C_int), (''error'', C_int)]"

definition uvfs_readdir_rep_s :: members where
  "uvfs_readdir_rep_s =
     [(''type'', C_int), (''serial'', C_int), (''size'', C_int), (''error'', C_int),
      (''count'', C_int), (''data'', C_array C_char UVFS_BUFFSIZE)]"

definition uvfs_setattr_rep_s :: members where
  "uvfs_setattr_rep_s =
     [(''type'', C_int), (''serial'', C_int), (''size'', C_int), (''error'', C_int)]"

definition uvfs_getattr_rep_s :: members where
  "uvfs_getattr_rep_s =
     [(''type'', C_int), (''serial'', C_int), (''size'', C_int), (''error'', C_int),
      (''a'', C_struct attr_members)]"

definition uvfs_statfs_rep_s :: members where
  "uvfs_statfs_rep_s =
     [(''type'', C_int), (''serial'', C_int), (''size'', C_int), (''error'', C_int),
      (''f_type'', C_int), (''f_bsize'', C_int), (''f_blocks'', C_int), (''f_bfree'', C_int),
      (''f_bavail'', C_int), (''f_files'', C_int), (''f_ffree'', C_int),
      (''f_namelen'', C_int)]"

definition uvfs_read_super_rep_s :: members where
  "uvfs_read_super_rep_s =
     [(''type'', C_int), (''serial'', C_int), (''size'', C_int), (''error'', C_int),
      (''s_blocksize'', C_uint), (''s_blocksize_bits'', C_uint), (''s_magic'', C_uint),
      (''fh'', C_struct fhandle_members), (''a'', C_struct attr_members)]"

definition uvfs_readlink_rep_s :: members where
  "uvfs_readlink_rep_s =
     [(''type'', C_int), (''serial'', C_int), (''size'', C_int), (''error'', C_int),
      (''len'', C_int), (''buff'', C_array C_char UVFS_MAX_PATHLEN)]"

definition uvfs_shutdown_rep_s :: members where
  "uvfs_shutdown_rep_s =
     [(''type'', C_int), (''serial'', C_int), (''size'', C_int), (''error'', C_int)]"

definition uvfs_dirent_s :: members where
  "uvfs_dirent_s =
     [(''length'', C_int), (''ino'', C_int), (''index'', C_int)]"

definition uvfs_reply_u :: "members list" where
  "uvfs_reply_u =
     [uvfs_generic_rep_s,
      uvfs_file_write_rep_s,
      uvfs_file_read_rep_s,
      uvfs_create_rep_s,
      uvfs_lookup_rep_s,
      uvfs_unlink_rep_s,
      uvfs_symlink_rep_s,
      uvfs_mkdir_rep_s,
      uvfs_rmdir_rep_s,
      uvfs_rename_rep_s,
      uvfs_readdir_rep_s,
      uvfs_setattr_rep_s,
      uvfs_getattr_rep_s,
      uvfs_statfs_rep_s,
      uvfs_read_super_rep_s,
      uvfs_readlink_rep_s,
      uvfs_shutdown_rep_s]"

text \<open>The union \<open>u\<close> of \<open>uvfs_transaction_s\<close> (\<open>src/uvfs.h\<close>) holds a request or a reply.\<close>

definition sizeof_u :: nat where
  "sizeof_u = max (sizeof_union uvfs_request_u) (sizeof_union uvfs_reply_u)"

section \<open>What a server reads\<close>

text \<open>
  The requests as the header describes them, and the reading of the bytes a server got
  from one read of the device: the type selects the structure, \<open>size\<close> is the number of
  bytes delivered, every length field bounds the array it counts. This is the abstract
  side of the round trips proved for each operation.
\<close>

record setattr_args =
  sa_valid :: u32
  sa_uid :: u32
  sa_gid :: u32
  sa_size :: u32
  sa_atime :: uvfs_timespec_s
  sa_mtime :: uvfs_timespec_s
  sa_ctime :: uvfs_timespec_s
  sa_mode :: u32

datatype request =
    Write u32 u32 uvfs_fhandle_s u32 buf
  | Read u32 u32 uvfs_fhandle_s u32 u32
  | Create u32 u32 uvfs_fhandle_s u32 buf
  | Lookup u32 u32 uvfs_fhandle_s buf
  | Unlink u32 u32 uvfs_fhandle_s buf
  | Symlink u32 u32 uvfs_fhandle_s buf buf
  | Mkdir u32 u32 uvfs_fhandle_s u32 buf
  | Rmdir u32 u32 uvfs_fhandle_s buf
  | Rename u32 u32 uvfs_fhandle_s buf uvfs_fhandle_s buf
  | Readdir u32 u32 uvfs_fhandle_s u32
  | Setattr u32 u32 uvfs_fhandle_s setattr_args
  | Getattr u32 u32 uvfs_fhandle_s
  | Statfs uvfs_fhandle_s
  | Read_super u32 u32 buf
  | Readlink u32 u32 uvfs_fhandle_s

definition fld :: "members \<Rightarrow> string \<Rightarrow> buf \<Rightarrow> u32" where
  "fld s f bs = get32 (offsetof s f) bs"

definition fld_fh :: "members \<Rightarrow> string \<Rightarrow> buf \<Rightarrow> uvfs_fhandle_s" where
  "fld_fh s f bs = dec_fhandle (bytes_at (offsetof s f) 32 bs)"

definition fld_ts :: "members \<Rightarrow> string \<Rightarrow> buf \<Rightarrow> uvfs_timespec_s" where
  "fld_ts s f bs = dec_timespec (bytes_at (offsetof s f) 8 bs)"

definition fld_attr :: "members \<Rightarrow> string \<Rightarrow> buf \<Rightarrow> uvfs_attr_s" where
  "fld_attr s f bs = dec_attr (bytes_at (offsetof s f) 56 bs)"

text \<open>The first \<open>n\<close> bytes of an array member, where \<open>n\<close> is the value of its length field.\<close>

definition fld_arr :: "members \<Rightarrow> string \<Rightarrow> string \<Rightarrow> buf \<Rightarrow> buf" where
  "fld_arr s f len bs = bytes_at (offsetof s f) (unat (fld s len bs)) bs"

definition parse_body :: "buf \<Rightarrow> request option" where
  "parse_body bs = (let ty = get32 0 bs in
     if ty = UVFS_WRITE then (let s = uvfs_file_write_req_s in
       Some (Write (fld s ''uid'' bs) (fld s ''gid'' bs) (fld_fh s ''fh'' bs) (fld s ''offset'' bs)
                   (fld_arr s ''buff'' ''count'' bs)))
     else if ty = UVFS_READ then (let s = uvfs_file_read_req_s in
       Some (Read (fld s ''uid'' bs) (fld s ''gid'' bs) (fld_fh s ''fh'' bs) (fld s ''count'' bs)
                  (fld s ''offset'' bs)))
     else if ty = UVFS_CREATE then (let s = uvfs_create_req_s in
       Some (Create (fld s ''uid'' bs) (fld s ''gid'' bs) (fld_fh s ''fh'' bs) (fld s ''mode'' bs)
                    (fld_arr s ''name'' ''namelen'' bs)))
     else if ty = UVFS_LOOKUP then (let s = uvfs_lookup_req_s in
       Some (Lookup (fld s ''uid'' bs) (fld s ''gid'' bs) (fld_fh s ''fh'' bs)
                    (fld_arr s ''name'' ''namelen'' bs)))
     else if ty = UVFS_UNLINK then (let s = uvfs_unlink_req_s in
       Some (Unlink (fld s ''uid'' bs) (fld s ''gid'' bs) (fld_fh s ''fh'' bs)
                    (fld_arr s ''name'' ''namelen'' bs)))
     else if ty = UVFS_SYMLINK then (let s = uvfs_symlink_req_s in
       Some (Symlink (fld s ''uid'' bs) (fld s ''gid'' bs) (fld_fh s ''fh'' bs)
                     (fld_arr s ''name'' ''namelen'' bs) (fld_arr s ''sympath'' ''symlen'' bs)))
     else if ty = UVFS_MKDIR then (let s = uvfs_mkdir_req_s in
       Some (Mkdir (fld s ''uid'' bs) (fld s ''gid'' bs) (fld_fh s ''fh'' bs) (fld s ''mode'' bs)
                   (fld_arr s ''name'' ''namelen'' bs)))
     else if ty = UVFS_RMDIR then (let s = uvfs_rmdir_req_s in
       Some (Rmdir (fld s ''uid'' bs) (fld s ''gid'' bs) (fld_fh s ''fh'' bs)
                   (fld_arr s ''name'' ''namelen'' bs)))
     else if ty = UVFS_RENAME then (let s = uvfs_rename_req_s in
       Some (Rename (fld s ''uid'' bs) (fld s ''gid'' bs)
                    (fld_fh s ''fh_old'' bs) (fld_arr s ''old_name'' ''old_namelen'' bs)
                    (fld_fh s ''fh_new'' bs) (fld_arr s ''new_name'' ''new_namelen'' bs)))
     else if ty = UVFS_READDIR then (let s = uvfs_readdir_req_s in
       Some (Readdir (fld s ''uid'' bs) (fld s ''gid'' bs) (fld_fh s ''fh'' bs)
                     (fld s ''entry_no'' bs)))
     else if ty = UVFS_SETATTR then (let s = uvfs_setattr_req_s in
       Some (Setattr (fld s ''uid'' bs) (fld s ''gid'' bs) (fld_fh s ''fh'' bs)
         \<lparr>sa_valid = fld s ''ia_valid'' bs, sa_uid = fld s ''ia_uid'' bs,
          sa_gid = fld s ''ia_gid'' bs, sa_size = fld s ''ia_size'' bs,
          sa_atime = fld_ts s ''ia_atime'' bs, sa_mtime = fld_ts s ''ia_mtime'' bs,
          sa_ctime = fld_ts s ''ia_ctime'' bs, sa_mode = fld s ''ia_mode'' bs\<rparr>))
     else if ty = UVFS_GETATTR then (let s = uvfs_getattr_req_s in
       Some (Getattr (fld s ''uid'' bs) (fld s ''gid'' bs) (fld_fh s ''fh'' bs)))
     else if ty = UVFS_STATFS then Some (Statfs (fld_fh uvfs_statfs_req_s ''fh'' bs))
     else if ty = UVFS_READ_SUPER then (let s = uvfs_read_super_req_s in
       Some (Read_super (fld s ''uid'' bs) (fld s ''gid'' bs) (fld_arr s ''buff'' ''arglength'' bs)))
     else if ty = UVFS_READLINK then (let s = uvfs_readlink_req_s in
       Some (Readlink (fld s ''uid'' bs) (fld s ''gid'' bs) (fld_fh s ''fh'' bs)))
     else None)"

definition parse_request :: "buf \<Rightarrow> (u32 \<times> request) option" where
  "parse_request bs =
     (if length bs < sizeof uvfs_generic_req_s \<or> unat (get32 8 bs) \<noteq> length bs then None
      else map_option (Pair (get32 4 bs)) (parse_body bs))"

section \<open>Layout facts\<close>

lemmas layout_defs =
  sizeof_def offsetof_def align_up_def PAGE_CACHE_SIZE_def UVFS_MAX_NAMELEN_def
  UVFS_MAX_PATHLEN_def UVFS_BUFFSIZE_def fspid_members_def narid_members_def
  fhandle_members_def timespec_members_def attr_members_def

lemma vfs_layout [layout_simps]:
  "sizeof fspid_members = 8" "sizeof narid_members = 8" "sizeof fhandle_members = 32"
  "sizeof timespec_members = 8" "sizeof attr_members = 56"
  by (simp_all add: layout_defs)

lemma uvfs_generic_req_s_layout [layout_simps]:
  "offsetof uvfs_generic_req_s ''type'' = 0"
  "offsetof uvfs_generic_req_s ''serial'' = 4"
  "offsetof uvfs_generic_req_s ''size'' = 8"
  "sizeof uvfs_generic_req_s = 12"
  by (simp_all add: layout_defs uvfs_generic_req_s_def)

lemma uvfs_file_write_req_s_layout [layout_simps]:
  "offsetof uvfs_file_write_req_s ''type'' = 0"
  "offsetof uvfs_file_write_req_s ''serial'' = 4"
  "offsetof uvfs_file_write_req_s ''size'' = 8"
  "offsetof uvfs_file_write_req_s ''uid'' = 12"
  "offsetof uvfs_file_write_req_s ''gid'' = 16"
  "offsetof uvfs_file_write_req_s ''fh'' = 20"
  "offsetof uvfs_file_write_req_s ''count'' = 52"
  "offsetof uvfs_file_write_req_s ''offset'' = 56"
  "offsetof uvfs_file_write_req_s ''buff'' = 60"
  "sizeof uvfs_file_write_req_s = 4156"
  by (simp_all add: layout_defs uvfs_file_write_req_s_def)

lemma uvfs_file_read_req_s_layout [layout_simps]:
  "offsetof uvfs_file_read_req_s ''type'' = 0"
  "offsetof uvfs_file_read_req_s ''serial'' = 4"
  "offsetof uvfs_file_read_req_s ''size'' = 8"
  "offsetof uvfs_file_read_req_s ''uid'' = 12"
  "offsetof uvfs_file_read_req_s ''gid'' = 16"
  "offsetof uvfs_file_read_req_s ''fh'' = 20"
  "offsetof uvfs_file_read_req_s ''count'' = 52"
  "offsetof uvfs_file_read_req_s ''offset'' = 56"
  "sizeof uvfs_file_read_req_s = 60"
  by (simp_all add: layout_defs uvfs_file_read_req_s_def)

lemma uvfs_create_req_s_layout [layout_simps]:
  "offsetof uvfs_create_req_s ''type'' = 0"
  "offsetof uvfs_create_req_s ''serial'' = 4"
  "offsetof uvfs_create_req_s ''size'' = 8"
  "offsetof uvfs_create_req_s ''uid'' = 12"
  "offsetof uvfs_create_req_s ''gid'' = 16"
  "offsetof uvfs_create_req_s ''fh'' = 20"
  "offsetof uvfs_create_req_s ''mode'' = 52"
  "offsetof uvfs_create_req_s ''namelen'' = 56"
  "offsetof uvfs_create_req_s ''name'' = 60"
  "sizeof uvfs_create_req_s = 316"
  by (simp_all add: layout_defs uvfs_create_req_s_def)

lemma uvfs_lookup_req_s_layout [layout_simps]:
  "offsetof uvfs_lookup_req_s ''type'' = 0"
  "offsetof uvfs_lookup_req_s ''serial'' = 4"
  "offsetof uvfs_lookup_req_s ''size'' = 8"
  "offsetof uvfs_lookup_req_s ''uid'' = 12"
  "offsetof uvfs_lookup_req_s ''gid'' = 16"
  "offsetof uvfs_lookup_req_s ''fh'' = 20"
  "offsetof uvfs_lookup_req_s ''namelen'' = 52"
  "offsetof uvfs_lookup_req_s ''name'' = 56"
  "sizeof uvfs_lookup_req_s = 312"
  by (simp_all add: layout_defs uvfs_lookup_req_s_def)

lemma uvfs_unlink_req_s_layout [layout_simps]:
  "offsetof uvfs_unlink_req_s ''type'' = 0"
  "offsetof uvfs_unlink_req_s ''serial'' = 4"
  "offsetof uvfs_unlink_req_s ''size'' = 8"
  "offsetof uvfs_unlink_req_s ''uid'' = 12"
  "offsetof uvfs_unlink_req_s ''gid'' = 16"
  "offsetof uvfs_unlink_req_s ''fh'' = 20"
  "offsetof uvfs_unlink_req_s ''namelen'' = 52"
  "offsetof uvfs_unlink_req_s ''name'' = 56"
  "sizeof uvfs_unlink_req_s = 312"
  by (simp_all add: layout_defs uvfs_unlink_req_s_def)

lemma uvfs_symlink_req_s_layout [layout_simps]:
  "offsetof uvfs_symlink_req_s ''type'' = 0"
  "offsetof uvfs_symlink_req_s ''serial'' = 4"
  "offsetof uvfs_symlink_req_s ''size'' = 8"
  "offsetof uvfs_symlink_req_s ''uid'' = 12"
  "offsetof uvfs_symlink_req_s ''gid'' = 16"
  "offsetof uvfs_symlink_req_s ''fh'' = 20"
  "offsetof uvfs_symlink_req_s ''name'' = 52"
  "offsetof uvfs_symlink_req_s ''namelen'' = 308"
  "offsetof uvfs_symlink_req_s ''sympath'' = 312"
  "offsetof uvfs_symlink_req_s ''symlen'' = 1336"
  "sizeof uvfs_symlink_req_s = 1340"
  by (simp_all add: layout_defs uvfs_symlink_req_s_def)

lemma uvfs_mkdir_req_s_layout [layout_simps]:
  "offsetof uvfs_mkdir_req_s ''type'' = 0"
  "offsetof uvfs_mkdir_req_s ''serial'' = 4"
  "offsetof uvfs_mkdir_req_s ''size'' = 8"
  "offsetof uvfs_mkdir_req_s ''uid'' = 12"
  "offsetof uvfs_mkdir_req_s ''gid'' = 16"
  "offsetof uvfs_mkdir_req_s ''mode'' = 20"
  "offsetof uvfs_mkdir_req_s ''fh'' = 24"
  "offsetof uvfs_mkdir_req_s ''namelen'' = 56"
  "offsetof uvfs_mkdir_req_s ''name'' = 60"
  "sizeof uvfs_mkdir_req_s = 316"
  by (simp_all add: layout_defs uvfs_mkdir_req_s_def)

lemma uvfs_rmdir_req_s_layout [layout_simps]:
  "offsetof uvfs_rmdir_req_s ''type'' = 0"
  "offsetof uvfs_rmdir_req_s ''serial'' = 4"
  "offsetof uvfs_rmdir_req_s ''size'' = 8"
  "offsetof uvfs_rmdir_req_s ''uid'' = 12"
  "offsetof uvfs_rmdir_req_s ''gid'' = 16"
  "offsetof uvfs_rmdir_req_s ''fh'' = 20"
  "offsetof uvfs_rmdir_req_s ''namelen'' = 52"
  "offsetof uvfs_rmdir_req_s ''name'' = 56"
  "sizeof uvfs_rmdir_req_s = 312"
  by (simp_all add: layout_defs uvfs_rmdir_req_s_def)

lemma uvfs_rename_req_s_layout [layout_simps]:
  "offsetof uvfs_rename_req_s ''type'' = 0"
  "offsetof uvfs_rename_req_s ''serial'' = 4"
  "offsetof uvfs_rename_req_s ''size'' = 8"
  "offsetof uvfs_rename_req_s ''uid'' = 12"
  "offsetof uvfs_rename_req_s ''gid'' = 16"
  "offsetof uvfs_rename_req_s ''fh_old'' = 20"
  "offsetof uvfs_rename_req_s ''old_name'' = 52"
  "offsetof uvfs_rename_req_s ''old_namelen'' = 308"
  "offsetof uvfs_rename_req_s ''fh_new'' = 312"
  "offsetof uvfs_rename_req_s ''new_name'' = 344"
  "offsetof uvfs_rename_req_s ''new_namelen'' = 600"
  "sizeof uvfs_rename_req_s = 604"
  by (simp_all add: layout_defs uvfs_rename_req_s_def)

lemma uvfs_readdir_req_s_layout [layout_simps]:
  "offsetof uvfs_readdir_req_s ''type'' = 0"
  "offsetof uvfs_readdir_req_s ''serial'' = 4"
  "offsetof uvfs_readdir_req_s ''size'' = 8"
  "offsetof uvfs_readdir_req_s ''uid'' = 12"
  "offsetof uvfs_readdir_req_s ''gid'' = 16"
  "offsetof uvfs_readdir_req_s ''fh'' = 20"
  "offsetof uvfs_readdir_req_s ''entry_no'' = 52"
  "sizeof uvfs_readdir_req_s = 56"
  by (simp_all add: layout_defs uvfs_readdir_req_s_def)

lemma uvfs_setattr_req_s_layout [layout_simps]:
  "offsetof uvfs_setattr_req_s ''type'' = 0"
  "offsetof uvfs_setattr_req_s ''serial'' = 4"
  "offsetof uvfs_setattr_req_s ''size'' = 8"
  "offsetof uvfs_setattr_req_s ''uid'' = 12"
  "offsetof uvfs_setattr_req_s ''gid'' = 16"
  "offsetof uvfs_setattr_req_s ''fh'' = 20"
  "offsetof uvfs_setattr_req_s ''ia_valid'' = 52"
  "offsetof uvfs_setattr_req_s ''ia_uid'' = 56"
  "offsetof uvfs_setattr_req_s ''ia_gid'' = 60"
  "offsetof uvfs_setattr_req_s ''ia_size'' = 64"
  "offsetof uvfs_setattr_req_s ''ia_atime'' = 68"
  "offsetof uvfs_setattr_req_s ''ia_mtime'' = 76"
  "offsetof uvfs_setattr_req_s ''ia_ctime'' = 84"
  "offsetof uvfs_setattr_req_s ''ia_mode'' = 92"
  "sizeof uvfs_setattr_req_s = 96"
  by (simp_all add: layout_defs uvfs_setattr_req_s_def)

lemma uvfs_getattr_req_s_layout [layout_simps]:
  "offsetof uvfs_getattr_req_s ''type'' = 0"
  "offsetof uvfs_getattr_req_s ''serial'' = 4"
  "offsetof uvfs_getattr_req_s ''size'' = 8"
  "offsetof uvfs_getattr_req_s ''uid'' = 12"
  "offsetof uvfs_getattr_req_s ''gid'' = 16"
  "offsetof uvfs_getattr_req_s ''fh'' = 20"
  "sizeof uvfs_getattr_req_s = 52"
  by (simp_all add: layout_defs uvfs_getattr_req_s_def)

lemma uvfs_statfs_req_s_layout [layout_simps]:
  "offsetof uvfs_statfs_req_s ''type'' = 0"
  "offsetof uvfs_statfs_req_s ''serial'' = 4"
  "offsetof uvfs_statfs_req_s ''size'' = 8"
  "offsetof uvfs_statfs_req_s ''fh'' = 12"
  "sizeof uvfs_statfs_req_s = 44"
  by (simp_all add: layout_defs uvfs_statfs_req_s_def)

lemma uvfs_read_super_req_s_layout [layout_simps]:
  "offsetof uvfs_read_super_req_s ''type'' = 0"
  "offsetof uvfs_read_super_req_s ''serial'' = 4"
  "offsetof uvfs_read_super_req_s ''size'' = 8"
  "offsetof uvfs_read_super_req_s ''uid'' = 12"
  "offsetof uvfs_read_super_req_s ''gid'' = 16"
  "offsetof uvfs_read_super_req_s ''arglength'' = 20"
  "offsetof uvfs_read_super_req_s ''buff'' = 24"
  "sizeof uvfs_read_super_req_s = 1048"
  by (simp_all add: layout_defs uvfs_read_super_req_s_def)

lemma uvfs_readlink_req_s_layout [layout_simps]:
  "offsetof uvfs_readlink_req_s ''type'' = 0"
  "offsetof uvfs_readlink_req_s ''serial'' = 4"
  "offsetof uvfs_readlink_req_s ''size'' = 8"
  "offsetof uvfs_readlink_req_s ''uid'' = 12"
  "offsetof uvfs_readlink_req_s ''gid'' = 16"
  "offsetof uvfs_readlink_req_s ''fh'' = 20"
  "sizeof uvfs_readlink_req_s = 52"
  by (simp_all add: layout_defs uvfs_readlink_req_s_def)

lemma uvfs_shutdown_req_s_layout [layout_simps]:
  "offsetof uvfs_shutdown_req_s ''type'' = 0"
  "offsetof uvfs_shutdown_req_s ''serial'' = 4"
  "offsetof uvfs_shutdown_req_s ''size'' = 8"
  "sizeof uvfs_shutdown_req_s = 12"
  by (simp_all add: layout_defs uvfs_shutdown_req_s_def)

lemma uvfs_generic_rep_s_layout [layout_simps]:
  "offsetof uvfs_generic_rep_s ''type'' = 0"
  "offsetof uvfs_generic_rep_s ''serial'' = 4"
  "offsetof uvfs_generic_rep_s ''size'' = 8"
  "offsetof uvfs_generic_rep_s ''error'' = 12"
  "sizeof uvfs_generic_rep_s = 16"
  by (simp_all add: layout_defs uvfs_generic_rep_s_def)

lemma uvfs_file_write_rep_s_layout [layout_simps]:
  "offsetof uvfs_file_write_rep_s ''type'' = 0"
  "offsetof uvfs_file_write_rep_s ''serial'' = 4"
  "offsetof uvfs_file_write_rep_s ''size'' = 8"
  "offsetof uvfs_file_write_rep_s ''error'' = 12"
  "offsetof uvfs_file_write_rep_s ''bytes_written'' = 16"
  "sizeof uvfs_file_write_rep_s = 20"
  by (simp_all add: layout_defs uvfs_file_write_rep_s_def)

lemma uvfs_file_read_rep_s_layout [layout_simps]:
  "offsetof uvfs_file_read_rep_s ''type'' = 0"
  "offsetof uvfs_file_read_rep_s ''serial'' = 4"
  "offsetof uvfs_file_read_rep_s ''size'' = 8"
  "offsetof uvfs_file_read_rep_s ''error'' = 12"
  "offsetof uvfs_file_read_rep_s ''bytes_read'' = 16"
  "offsetof uvfs_file_read_rep_s ''buff'' = 20"
  "sizeof uvfs_file_read_rep_s = 4116"
  by (simp_all add: layout_defs uvfs_file_read_rep_s_def)

lemma uvfs_create_rep_s_layout [layout_simps]:
  "offsetof uvfs_create_rep_s ''type'' = 0"
  "offsetof uvfs_create_rep_s ''serial'' = 4"
  "offsetof uvfs_create_rep_s ''size'' = 8"
  "offsetof uvfs_create_rep_s ''error'' = 12"
  "offsetof uvfs_create_rep_s ''fh'' = 16"
  "offsetof uvfs_create_rep_s ''a'' = 48"
  "sizeof uvfs_create_rep_s = 104"
  by (simp_all add: layout_defs uvfs_create_rep_s_def)

lemma uvfs_lookup_rep_s_layout [layout_simps]:
  "offsetof uvfs_lookup_rep_s ''type'' = 0"
  "offsetof uvfs_lookup_rep_s ''serial'' = 4"
  "offsetof uvfs_lookup_rep_s ''size'' = 8"
  "offsetof uvfs_lookup_rep_s ''error'' = 12"
  "offsetof uvfs_lookup_rep_s ''fh'' = 16"
  "offsetof uvfs_lookup_rep_s ''a'' = 48"
  "sizeof uvfs_lookup_rep_s = 104"
  by (simp_all add: layout_defs uvfs_lookup_rep_s_def)

lemma uvfs_unlink_rep_s_layout [layout_simps]:
  "offsetof uvfs_unlink_rep_s ''type'' = 0"
  "offsetof uvfs_unlink_rep_s ''serial'' = 4"
  "offsetof uvfs_unlink_rep_s ''size'' = 8"
  "offsetof uvfs_unlink_rep_s ''error'' = 12"
  "sizeof uvfs_unlink_rep_s = 16"
  by (simp_all add: layout_defs uvfs_unlink_rep_s_def)

lemma uvfs_symlink_rep_s_layout [layout_simps]:
  "offsetof uvfs_symlink_rep_s ''type'' = 0"
  "offsetof uvfs_symlink_rep_s ''serial'' = 4"
  "offsetof uvfs_symlink_rep_s ''size'' = 8"
  "offsetof uvfs_symlink_rep_s ''error'' = 12"
  "offsetof uvfs_symlink_rep_s ''fh'' = 16"
  "offsetof uvfs_symlink_rep_s ''a'' = 48"
  "sizeof uvfs_symlink_rep_s = 104"
  by (simp_all add: layout_defs uvfs_symlink_rep_s_def)

lemma uvfs_mkdir_rep_s_layout [layout_simps]:
  "offsetof uvfs_mkdir_rep_s ''type'' = 0"
  "offsetof uvfs_mkdir_rep_s ''serial'' = 4"
  "offsetof uvfs_mkdir_rep_s ''size'' = 8"
  "offsetof uvfs_mkdir_rep_s ''error'' = 12"
  "offsetof uvfs_mkdir_rep_s ''fh'' = 16"
  "offsetof uvfs_mkdir_rep_s ''a'' = 48"
  "sizeof uvfs_mkdir_rep_s = 104"
  by (simp_all add: layout_defs uvfs_mkdir_rep_s_def)

lemma uvfs_rmdir_rep_s_layout [layout_simps]:
  "offsetof uvfs_rmdir_rep_s ''type'' = 0"
  "offsetof uvfs_rmdir_rep_s ''serial'' = 4"
  "offsetof uvfs_rmdir_rep_s ''size'' = 8"
  "offsetof uvfs_rmdir_rep_s ''error'' = 12"
  "sizeof uvfs_rmdir_rep_s = 16"
  by (simp_all add: layout_defs uvfs_rmdir_rep_s_def)

lemma uvfs_rename_rep_s_layout [layout_simps]:
  "offsetof uvfs_rename_rep_s ''type'' = 0"
  "offsetof uvfs_rename_rep_s ''serial'' = 4"
  "offsetof uvfs_rename_rep_s ''size'' = 8"
  "offsetof uvfs_rename_rep_s ''error'' = 12"
  "sizeof uvfs_rename_rep_s = 16"
  by (simp_all add: layout_defs uvfs_rename_rep_s_def)

lemma uvfs_readdir_rep_s_layout [layout_simps]:
  "offsetof uvfs_readdir_rep_s ''type'' = 0"
  "offsetof uvfs_readdir_rep_s ''serial'' = 4"
  "offsetof uvfs_readdir_rep_s ''size'' = 8"
  "offsetof uvfs_readdir_rep_s ''error'' = 12"
  "offsetof uvfs_readdir_rep_s ''count'' = 16"
  "offsetof uvfs_readdir_rep_s ''data'' = 20"
  "sizeof uvfs_readdir_rep_s = 2068"
  by (simp_all add: layout_defs uvfs_readdir_rep_s_def)

lemma uvfs_setattr_rep_s_layout [layout_simps]:
  "offsetof uvfs_setattr_rep_s ''type'' = 0"
  "offsetof uvfs_setattr_rep_s ''serial'' = 4"
  "offsetof uvfs_setattr_rep_s ''size'' = 8"
  "offsetof uvfs_setattr_rep_s ''error'' = 12"
  "sizeof uvfs_setattr_rep_s = 16"
  by (simp_all add: layout_defs uvfs_setattr_rep_s_def)

lemma uvfs_getattr_rep_s_layout [layout_simps]:
  "offsetof uvfs_getattr_rep_s ''type'' = 0"
  "offsetof uvfs_getattr_rep_s ''serial'' = 4"
  "offsetof uvfs_getattr_rep_s ''size'' = 8"
  "offsetof uvfs_getattr_rep_s ''error'' = 12"
  "offsetof uvfs_getattr_rep_s ''a'' = 16"
  "sizeof uvfs_getattr_rep_s = 72"
  by (simp_all add: layout_defs uvfs_getattr_rep_s_def)

lemma uvfs_statfs_rep_s_layout [layout_simps]:
  "offsetof uvfs_statfs_rep_s ''type'' = 0"
  "offsetof uvfs_statfs_rep_s ''serial'' = 4"
  "offsetof uvfs_statfs_rep_s ''size'' = 8"
  "offsetof uvfs_statfs_rep_s ''error'' = 12"
  "offsetof uvfs_statfs_rep_s ''f_type'' = 16"
  "offsetof uvfs_statfs_rep_s ''f_bsize'' = 20"
  "offsetof uvfs_statfs_rep_s ''f_blocks'' = 24"
  "offsetof uvfs_statfs_rep_s ''f_bfree'' = 28"
  "offsetof uvfs_statfs_rep_s ''f_bavail'' = 32"
  "offsetof uvfs_statfs_rep_s ''f_files'' = 36"
  "offsetof uvfs_statfs_rep_s ''f_ffree'' = 40"
  "offsetof uvfs_statfs_rep_s ''f_namelen'' = 44"
  "sizeof uvfs_statfs_rep_s = 48"
  by (simp_all add: layout_defs uvfs_statfs_rep_s_def)

lemma uvfs_read_super_rep_s_layout [layout_simps]:
  "offsetof uvfs_read_super_rep_s ''type'' = 0"
  "offsetof uvfs_read_super_rep_s ''serial'' = 4"
  "offsetof uvfs_read_super_rep_s ''size'' = 8"
  "offsetof uvfs_read_super_rep_s ''error'' = 12"
  "offsetof uvfs_read_super_rep_s ''s_blocksize'' = 16"
  "offsetof uvfs_read_super_rep_s ''s_blocksize_bits'' = 20"
  "offsetof uvfs_read_super_rep_s ''s_magic'' = 24"
  "offsetof uvfs_read_super_rep_s ''fh'' = 28"
  "offsetof uvfs_read_super_rep_s ''a'' = 60"
  "sizeof uvfs_read_super_rep_s = 116"
  by (simp_all add: layout_defs uvfs_read_super_rep_s_def)

lemma uvfs_readlink_rep_s_layout [layout_simps]:
  "offsetof uvfs_readlink_rep_s ''type'' = 0"
  "offsetof uvfs_readlink_rep_s ''serial'' = 4"
  "offsetof uvfs_readlink_rep_s ''size'' = 8"
  "offsetof uvfs_readlink_rep_s ''error'' = 12"
  "offsetof uvfs_readlink_rep_s ''len'' = 16"
  "offsetof uvfs_readlink_rep_s ''buff'' = 20"
  "sizeof uvfs_readlink_rep_s = 1044"
  by (simp_all add: layout_defs uvfs_readlink_rep_s_def)

lemma uvfs_shutdown_rep_s_layout [layout_simps]:
  "offsetof uvfs_shutdown_rep_s ''type'' = 0"
  "offsetof uvfs_shutdown_rep_s ''serial'' = 4"
  "offsetof uvfs_shutdown_rep_s ''size'' = 8"
  "offsetof uvfs_shutdown_rep_s ''error'' = 12"
  "sizeof uvfs_shutdown_rep_s = 16"
  by (simp_all add: layout_defs uvfs_shutdown_rep_s_def)

lemma uvfs_dirent_s_layout [layout_simps]:
  "offsetof uvfs_dirent_s ''length'' = 0"
  "offsetof uvfs_dirent_s ''ino'' = 4"
  "offsetof uvfs_dirent_s ''index'' = 8"
  "sizeof uvfs_dirent_s = 12"
  by (simp_all add: layout_defs uvfs_dirent_s_def)

lemma sizeof_request_u [layout_simps]: "sizeof_union uvfs_request_u = 4156"
  by (simp add: sizeof_union_def uvfs_request_u_def layout_simps)

lemma sizeof_reply_u [layout_simps]: "sizeof_union uvfs_reply_u = 4116"
  by (simp add: sizeof_union_def uvfs_reply_u_def layout_simps)

lemma sizeof_u_eq [layout_simps]: "sizeof_u = 4156"
  by (simp add: sizeof_u_def layout_simps)

section \<open>Fixed-width fields\<close>

lemma length_enc_flags [simp]: "length (enc_flags f) = 4"
  by (simp add: enc_flags_def split: prod.split)

lemma dec_enc_flags [simp]: "dec_flags (enc_flags f) = f"
  by (simp add: enc_flags_def dec_flags_def split: prod.split)

lemma length_enc_fhandle [simp]: "length (enc_fhandle fh) = 32"
  by (simp add: enc_fhandle_def)

lemma dec_enc_fhandle [simp]: "dec_fhandle (enc_fhandle fh) = fh"
  by (simp add: enc_fhandle_def dec_fhandle_def buffer_simps)

lemma length_enc_timespec [simp]: "length (enc_timespec t) = 8"
  by (simp add: enc_timespec_def)

lemma dec_enc_timespec [simp]: "dec_timespec (enc_timespec t) = t"
  by (simp add: enc_timespec_def dec_timespec_def buffer_simps)

lemma length_enc_attr [simp]: "length (enc_attr a) = 56"
  by (simp add: enc_attr_def)

lemma dec_enc_attr [simp]: "dec_attr (enc_attr a) = a"
  by (simp add: enc_attr_def dec_attr_def buffer_simps)

interpretation fhandle_codec: codec "sizeof fhandle_members" enc_fhandle dec_fhandle
  by unfold_locales (simp_all add: layout_simps)

interpretation timespec_codec: codec "sizeof timespec_members" enc_timespec dec_timespec
  by unfold_locales (simp_all add: layout_simps)

interpretation attr_codec: codec "sizeof attr_members" enc_attr dec_attr
  by unfold_locales (simp_all add: layout_simps)

end
