(* ===== verification/Uvfs_Driver.thy ===== *)
theory Uvfs_Driver
  imports Uvfs_Protocol
begin

text \<open>
  The conduit of \<open>src/driver.c\<close>: the two queues of transactions, the wait queue of the
  server threads, and every handler of the \<open>/proc/fs/pmfs\<close> device. The module runs
  concurrently: a handler is split at the points where it drops \<open>Uvfs_lock\<close>, and each
  definition below is one critical section (or the work done between two of them). The
  interleaving of the sections is the step relation of \<open>Uvfs_Machine\<close>.

  The kernel heap maps the address of a transaction to its contents; addresses are not
  reused, so an access to a freed transaction is recognised and recorded in \<open>fault\<close>, as
  is a copy that runs past the end of a transaction. The kernel primitives are modelled by
  their documented behaviour: a \<open>list_head\<close> queue is a list, an exclusive wake-up wakes the
  first waiter that is still asleep.
\<close>

section \<open>State\<close>

type_synonym tid = nat \<comment> \<open>address of a transaction\<close>
type_synonym sid = nat \<comment> \<open>a server thread\<close>

record uvfs_transaction_s =
  t_u :: buf
  t_serial :: u32
  t_in_use :: bool
  t_abort :: bool
  t_answered :: bool

record driver =
  Uvfs_requests :: "tid list"
  Uvfs_replies :: "tid list"
  Uvfs_driver_queue :: "(sid \<times> bool) list" \<comment> \<open>waiting threads, with \<open>True\<close> once woken\<close>
  ShuttingDown :: bool
  Serial_number :: u32
  uvfs_use_count :: int
  heap :: "tid \<rightharpoonup> uvfs_transaction_s"
  next_tid :: tid
  fault :: bool

definition init_driver :: driver where
  "init_driver =
     \<lparr>Uvfs_requests = [], Uvfs_replies = [], Uvfs_driver_queue = [], ShuttingDown = False,
      Serial_number = 0, uvfs_use_count = 0, heap = Map.empty, next_tid = 0, fault = False\<rparr>"

definition Op_names :: "string list" where
  "Op_names =
     [''NULL'', ''write'', ''read'', ''create'', ''lookup'', ''unlink'', ''symlink'', ''mkdir'',
      ''rmdir'', ''rename'', ''readdir'', ''setattr'', ''getattr'', ''statfs'', ''read_super'',
      ''readlink'', ''shutdown'', ''LAST + 1'']"

section \<open>Memory and wait queues\<close>

definition live :: "driver \<Rightarrow> tid \<Rightarrow> bool" where
  "live d t \<longleftrightarrow> heap d t \<noteq> None"

text \<open>Any access through a pointer to a transaction.\<close>

definition touch :: "tid \<Rightarrow> driver \<Rightarrow> driver" where
  "touch t d = d\<lparr>fault := fault d \<or> \<not> live d t\<rparr>"

definition the_trans :: "driver \<Rightarrow> tid \<Rightarrow> uvfs_transaction_s" where
  "the_trans d t = (case heap d t of
       Some tr \<Rightarrow> tr
     | None \<Rightarrow> \<lparr>t_u = [], t_serial = 0, t_in_use = False, t_abort = False, t_answered = False\<rparr>)"

definition upd_trans ::
  "tid \<Rightarrow> (uvfs_transaction_s \<Rightarrow> uvfs_transaction_s) \<Rightarrow> driver \<Rightarrow> driver" where
  "upd_trans t f d =
     (touch t d)\<lparr>heap := (case heap d t of Some tr \<Rightarrow> (heap d)(t \<mapsto> f tr) | None \<Rightarrow> heap d)\<rparr>"

fun wake_first :: "(sid \<times> bool) list \<Rightarrow> (sid \<times> bool) list" where
  "wake_first [] = []"
| "wake_first ((s, woken) # q) = (if woken then (s, woken) # wake_first q else (s, True) # q)"

definition wake_up_interruptible :: "driver \<Rightarrow> driver" where
  "wake_up_interruptible d = d\<lparr>Uvfs_driver_queue := wake_first (Uvfs_driver_queue d)\<rparr>"

definition set_error :: "int \<Rightarrow> buf \<Rightarrow> buf" where
  "set_error e u = put32 (offsetof uvfs_generic_rep_s ''error'') (word_of_int e) u"

section \<open>Opening and closing the device\<close>

definition uvfsd_open :: "driver \<Rightarrow> int \<times> driver" where
  "uvfsd_open d = (0, d\<lparr>uvfs_use_count := uvfs_use_count d + 1\<rparr>)"

text \<open>
  The body of the two draining loops of \<open>uvfsd_release\<close>. The wake-up of the waiting file
  system thread needs no state: it can proceed as soon as \<open>answered\<close> is set.
\<close>

definition answer_eio :: "tid \<Rightarrow> driver \<Rightarrow> driver" where
  "answer_eio t d = upd_trans t (\<lambda>tr. tr\<lparr>t_u := set_error (-EIO) (t_u tr), t_answered := True\<rparr>) d"

function drain_requests :: "driver \<Rightarrow> driver" where
  "drain_requests d = (case Uvfs_requests d of
       [] \<Rightarrow> d
     | t # ts \<Rightarrow> drain_requests (answer_eio t (d\<lparr>Uvfs_requests := ts\<rparr>)))"
  by pat_completeness auto
termination
  by (relation "measure (\<lambda>d. length (Uvfs_requests d))")
    (auto simp: answer_eio_def upd_trans_def touch_def)

function drain_replies :: "driver \<Rightarrow> driver" where
  "drain_replies d = (case Uvfs_replies d of
       [] \<Rightarrow> d
     | t # ts \<Rightarrow> drain_replies (answer_eio t (d\<lparr>Uvfs_replies := ts\<rparr>)))"
  by pat_completeness auto
termination
  by (relation "measure (\<lambda>d. length (Uvfs_replies d))")
    (auto simp: answer_eio_def upd_trans_def touch_def)

definition uvfsd_release :: "driver \<Rightarrow> int \<times> driver" where
  "uvfsd_release d =
     (let d = d\<lparr>uvfs_use_count := uvfs_use_count d - 1\<rparr> in
      if uvfs_use_count d = 0
      then (0, (drain_replies (drain_requests d))\<lparr>ShuttingDown := False, Serial_number := 0\<rparr>)
      else (0, d))"

section \<open>Server threads reading requests\<close>

datatype read_next = Read_shutdown | Read_sleep | Read_take tid

text \<open>The check of the size of the user buffer, before the lock is taken.\<close>

definition uvfsd_read_count_ok :: "u64 \<Rightarrow> bool" where
  "uvfsd_read_count_ok count \<longleftrightarrow> \<not> unat count < sizeof_union uvfs_request_u"

text \<open>
  One evaluation of the loop condition under the lock, and what follows it up to the next
  \<open>spin_unlock\<close>: report the shutdown, go to sleep, or take the first request.
\<close>

definition uvfsd_read_loop :: "sid \<Rightarrow> driver \<Rightarrow> read_next \<times> driver" where
  "uvfsd_read_loop s d =
     (if Uvfs_requests d = [] \<or> ShuttingDown d then
        (if ShuttingDown d then (Read_shutdown, d)
         else (Read_sleep, d\<lparr>Uvfs_driver_queue := Uvfs_driver_queue d @ [(s, False)]\<rparr>))
      else
        (let t = hd (Uvfs_requests d);
             d = touch t d;
             d = d\<lparr>Uvfs_requests := tl (Uvfs_requests d)\<rparr>;
             d = d\<lparr>Uvfs_replies := Uvfs_replies d @ [t]\<rparr>;
             d = wake_up_interruptible d;
             d = upd_trans t (\<lambda>tr. tr\<lparr>t_in_use := True\<rparr>) d
         in (Read_take t, d)))"

text \<open>After \<open>schedule()\<close>: the thread takes the lock again and leaves the wait queue.\<close>

definition uvfsd_read_woken :: "sid \<Rightarrow> driver \<Rightarrow> driver" where
  "uvfsd_read_woken s d = d\<lparr>Uvfs_driver_queue := filter (\<lambda>(s', _). s' \<noteq> s) (Uvfs_driver_queue d)\<rparr>"

text \<open>The shutdown report is not part of any transaction; its serial number is not set.\<close>

definition shutdown_message :: "u32 \<Rightarrow> buf" where
  "shutdown_message stack =
     le32 UVFS_SHUTDOWN @ le32 stack @ le32 (word_of_nat (sizeof uvfs_shutdown_req_s))"

definition uvfsd_read_shutdown :: "driver \<Rightarrow> driver" where
  "uvfsd_read_shutdown d = wake_up_interruptible d"

text \<open>The bytes \<open>copy_to_user\<close> delivers: the first \<open>request->size\<close> bytes of the request.\<close>

definition request_size :: "buf \<Rightarrow> nat" where
  "request_size u = unat (get32 (offsetof uvfs_generic_req_s ''size'') u)"

definition delivered :: "buf \<Rightarrow> buf" where
  "delivered u = take (request_size u) u"

definition uvfsd_read_done :: "tid \<Rightarrow> driver \<Rightarrow> driver" where
  "uvfsd_read_done t d = upd_trans t (\<lambda>tr. tr\<lparr>t_in_use := False\<rparr>) d"

section \<open>Server threads writing replies\<close>

text \<open>
  The checks on a reply before the lock is taken: \<open>count\<close> is the size of the write, \<open>hdr\<close>
  the header copied in (\<open>None\<close> when \<open>copy_from_user\<close> fails).
\<close>

definition uvfsd_write_check :: "u64 \<Rightarrow> buf option \<Rightarrow> int + buf" where
  "uvfsd_write_check count hdr =
     (if unat count < sizeof uvfs_generic_rep_s then Inl (-EIO)
      else case hdr of
        None \<Rightarrow> Inl (-EFAULT)
      | Some h \<Rightarrow>
          if (scast (get32 (offsetof uvfs_generic_rep_s ''size'') h) :: u64) \<noteq> count
          then Inl (-EINVAL) else Inr h)"

fun find_reply :: "driver \<Rightarrow> tid list \<Rightarrow> u32 \<Rightarrow> tid option \<times> driver" where
  "find_reply d [] n = (None, d)"
| "find_reply d (t # ts) n =
     (let d = touch t d in
      if t_serial (the_trans d t) = n then (Some t, d) else find_reply d ts n)"

definition uvfsd_write_lookup :: "u32 \<Rightarrow> driver \<Rightarrow> tid option \<times> driver" where
  "uvfsd_write_lookup n d =
     (case find_reply d (Uvfs_replies d) n of
        (None, d) \<Rightarrow> (None, d)
      | (Some t, d) \<Rightarrow>
          (Some t, upd_trans t (\<lambda>tr. tr\<lparr>t_in_use := True\<rparr>)
                     (d\<lparr>Uvfs_replies := remove1 t (Uvfs_replies d)\<rparr>)))"

text \<open>
  \<open>copy_from_user\<close> into the union: \<open>data\<close> is what ends up there, \<open>reply.size\<close> bytes (the
  bytes that could not be copied are zero). The copy writes from the start of the union
  and does not stop at its end.
\<close>

definition overlay :: "buf \<Rightarrow> buf \<Rightarrow> buf" where
  "overlay data u = put_bytes 0 data u"

definition uvfsd_write_done :: "tid \<Rightarrow> buf \<Rightarrow> driver \<Rightarrow> driver" where
  "uvfsd_write_done t data d =
     (let d = upd_trans t (\<lambda>tr. tr\<lparr>t_u := overlay data (t_u tr)\<rparr>) d;
          d = d\<lparr>fault := fault d \<or> length data > sizeof_u\<rparr>
      in upd_trans t (\<lambda>tr. tr\<lparr>t_in_use := False, t_answered := True\<rparr>) d)"

section \<open>Control requests\<close>

text \<open>
  A line of the status report: the serial number and the name of the operation, \<open>None\<close>
  when \<open>Op_names\<close> is indexed out of its bounds.
\<close>

definition status_line :: "driver \<Rightarrow> tid \<Rightarrow> u32 \<times> string option" where
  "status_line d t =
     (let i = sint (get32 (offsetof uvfs_generic_req_s ''type'') (t_u (the_trans d t))) in
      (t_serial (the_trans d t), if 0 \<le> i \<and> nat i < length Op_names then Some (Op_names ! nat i) else None))"

definition uvfsd_ioctl ::
  "u32 \<Rightarrow> bool \<Rightarrow> driver \<Rightarrow> int \<times> (u32 \<times> string option) list \<times> driver" where
  "uvfsd_ioctl cmd mounted d =
     (if cmd = UVFS_IOCTL_SHUTDOWN then
        (0, [], wake_up_interruptible (d\<lparr>ShuttingDown := True\<rparr>))
      else if cmd = UVFS_IOCTL_STATUS then
        (0, map (status_line d) (Uvfs_requests d) @ map (status_line d) (Uvfs_replies d), d)
      else if cmd = UVFS_IOCTL_MOUNT then (if mounted then 1 else 0, [], d)
      else (uvfs_use_count d, [], d))"

section \<open>File system threads\<close>

text \<open>
  \<open>uvfs_new_transaction\<close>: \<open>junk\<close> is what the allocated memory happens to hold. The
  failure of \<open>kmalloc\<close> is a case of the callers.
\<close>

definition uvfs_new_transaction :: "buf \<Rightarrow> driver \<Rightarrow> tid \<times> driver" where
  "uvfs_new_transaction junk d =
     (let t = next_tid d;
          tr = \<lparr>t_u = junk, t_serial = Serial_number d, t_in_use = False, t_abort = False,
                t_answered = False\<rparr>
      in (t, d\<lparr>Serial_number := Serial_number d + 1, heap := (heap d)(t \<mapsto> tr),
               next_tid := Suc t\<rparr>))"

text \<open>\<open>uvfs_make_request\<close> up to the wait: \<open>True\<close> when the request is queued.\<close>

definition make_request_submit :: "tid \<Rightarrow> driver \<Rightarrow> bool \<times> driver" where
  "make_request_submit t d =
     (if uvfs_use_count d = 0
      then (False, upd_trans t (\<lambda>tr. tr\<lparr>t_u := set_error (-EIO) (t_u tr)\<rparr>) d)
      else (True, wake_up_interruptible ((touch t d)\<lparr>Uvfs_requests := Uvfs_requests d @ [t]\<rparr>)))"

definition make_request_cancel :: "tid \<Rightarrow> driver \<Rightarrow> driver" where
  "make_request_cancel t d =
     upd_trans t (\<lambda>tr. tr\<lparr>t_u := set_error (-ERESTARTSYS) (t_u tr)\<rparr>)
       (d\<lparr>Uvfs_requests := remove1 t (Uvfs_requests d), Uvfs_replies := remove1 t (Uvfs_replies d)\<rparr>)"

text \<open>After the wait: \<open>True\<close> when the thread has to wait until the server lets go.\<close>

definition make_request_check :: "bool \<Rightarrow> tid \<Rightarrow> driver \<Rightarrow> bool \<times> driver" where
  "make_request_check signal_pending t d =
     (if signal_pending then
        (if t_in_use (the_trans d t)
         then (True, upd_trans t (\<lambda>tr. tr\<lparr>t_abort := True\<rparr>) d)
         else (False, make_request_cancel t d))
      else (False, d))"

text \<open>\<open>kfree\<close> of the transaction by the caller.\<close>

definition kfree_trans :: "tid \<Rightarrow> driver \<Rightarrow> driver" where
  "kfree_trans t d = (touch t d)\<lparr>heap := (heap d)(t := None)\<rparr>"

text \<open>
  The signal mask while a thread waits: \<open>siginitsetinv\<close> sets the first word of the set to
  the complement of its argument; \<open>SIGKILL\<close> is signal 9, bit 8 of that word.
\<close>

definition SIGKILL_mask :: u64 where
  "SIGKILL_mask = push_bit 8 1"

definition wait_mask :: "u64 \<Rightarrow> u64" where
  "wait_mask oldset = NOT (SIGKILL_mask AND NOT oldset)"

section \<open>Lemmas: memory and wait queues\<close>

lemma live_simps [simp]:
  "live (d\<lparr>Uvfs_requests := x1\<rparr>) t = live d t" "live (d\<lparr>Uvfs_replies := x2\<rparr>) t = live d t"
  "live (d\<lparr>Uvfs_driver_queue := x3\<rparr>) t = live d t" "live (d\<lparr>ShuttingDown := x4\<rparr>) t = live d t"
  "live (d\<lparr>Serial_number := x5\<rparr>) t = live d t" "live (d\<lparr>uvfs_use_count := x6\<rparr>) t = live d t"
  "live (d\<lparr>fault := x7\<rparr>) t = live d t" "live (d\<lparr>next_tid := x8\<rparr>) t = live d t"
  by (simp_all add: live_def)

lemma trans_simps [simp]:
  "the_trans (d\<lparr>Uvfs_requests := x1\<rparr>) t = the_trans d t" "the_trans (d\<lparr>Uvfs_replies := x2\<rparr>) t = the_trans d t"
  "the_trans (d\<lparr>Uvfs_driver_queue := x3\<rparr>) t = the_trans d t" "the_trans (d\<lparr>ShuttingDown := x4\<rparr>) t = the_trans d t"
  "the_trans (d\<lparr>Serial_number := x5\<rparr>) t = the_trans d t" "the_trans (d\<lparr>uvfs_use_count := x6\<rparr>) t = the_trans d t"
  "the_trans (d\<lparr>fault := x7\<rparr>) t = the_trans d t" "the_trans (d\<lparr>next_tid := x8\<rparr>) t = the_trans d t"
  by (simp_all add: the_trans_def)

lemma touch_simps [simp]:
  "Uvfs_requests (touch t d) = Uvfs_requests d" "Uvfs_replies (touch t d) = Uvfs_replies d"
  "Uvfs_driver_queue (touch t d) = Uvfs_driver_queue d" "ShuttingDown (touch t d) = ShuttingDown d"
  "Serial_number (touch t d) = Serial_number d" "uvfs_use_count (touch t d) = uvfs_use_count d"
  "heap (touch t d) = heap d" "next_tid (touch t d) = next_tid d"
  "live (touch t d) t' = live d t'" "the_trans (touch t d) t' = the_trans d t'"
  "fault (touch t d) = (fault d \<or> \<not> live d t)"
  by (simp_all add: touch_def)

lemma upd_trans_simps [simp]:
  "Uvfs_requests (upd_trans t f d) = Uvfs_requests d"
  "Uvfs_replies (upd_trans t f d) = Uvfs_replies d"
  "Uvfs_driver_queue (upd_trans t f d) = Uvfs_driver_queue d"
  "ShuttingDown (upd_trans t f d) = ShuttingDown d"
  "Serial_number (upd_trans t f d) = Serial_number d"
  "uvfs_use_count (upd_trans t f d) = uvfs_use_count d"
  "next_tid (upd_trans t f d) = next_tid d"
  "fault (upd_trans t f d) = (fault d \<or> \<not> live d t)"
  by (simp_all add: upd_trans_def)

lemma live_upd_trans [simp]: "live (upd_trans t f d) t' = live d t'"
  by (simp add: live_def upd_trans_def split: option.split)

lemma trans_upd_trans:
  "the_trans (upd_trans t f d) t' = (if t' = t \<and> live d t then f (the_trans d t) else the_trans d t')"
  by (auto simp: the_trans_def upd_trans_def live_def split: option.split)

lemma trans_upd_trans_same [simp]: "live d t \<Longrightarrow> the_trans (upd_trans t f d) t = f (the_trans d t)"
  by (simp add: trans_upd_trans)

lemma trans_upd_trans_other [simp]: "t' \<noteq> t \<Longrightarrow> the_trans (upd_trans t f d) t' = the_trans d t'"
  by (simp add: trans_upd_trans)

lemma wake_simps [simp]:
  "Uvfs_requests (wake_up_interruptible d) = Uvfs_requests d"
  "Uvfs_replies (wake_up_interruptible d) = Uvfs_replies d"
  "ShuttingDown (wake_up_interruptible d) = ShuttingDown d"
  "Serial_number (wake_up_interruptible d) = Serial_number d"
  "uvfs_use_count (wake_up_interruptible d) = uvfs_use_count d"
  "heap (wake_up_interruptible d) = heap d" "next_tid (wake_up_interruptible d) = next_tid d"
  "fault (wake_up_interruptible d) = fault d"
  "live (wake_up_interruptible d) t = live d t" "the_trans (wake_up_interruptible d) t = the_trans d t"
  by (simp_all add: wake_up_interruptible_def)

lemma map_fst_wake_first [simp]: "map fst (wake_first q) = map fst q"
  by (induction q rule: wake_first.induct) auto

lemma fst_set_wake_first [simp]: "fst ` set (wake_first q) = fst ` set q"
  by (metis list.set_map map_fst_wake_first)

text \<open>An exclusive wake-up leaves nobody asleep or somebody awake.\<close>

lemma wake_first_wakes: "(r, False) \<in> set (wake_first q) \<Longrightarrow> \<exists>r'. (r', True) \<in> set (wake_first q)"
  by (induction q rule: wake_first.induct) (auto split: if_splits)

lemma wake_first_mono: "(r, True) \<in> set q \<Longrightarrow> (r, True) \<in> set (wake_first q)"
  by (induction q rule: wake_first.induct) auto

lemma length_set_error [simp]: "length u = sizeof_u \<Longrightarrow> length (set_error e u) = sizeof_u"
  by (simp add: set_error_def layout_simps)

section \<open>Lemmas: draining the queues\<close>

declare drain_requests.simps [simp del] drain_replies.simps [simp del]

lemma answer_eio_simps [simp]:
  "Uvfs_requests (answer_eio t d) = Uvfs_requests d" "Uvfs_replies (answer_eio t d) = Uvfs_replies d"
  "Uvfs_driver_queue (answer_eio t d) = Uvfs_driver_queue d"
  "ShuttingDown (answer_eio t d) = ShuttingDown d" "Serial_number (answer_eio t d) = Serial_number d"
  "uvfs_use_count (answer_eio t d) = uvfs_use_count d" "next_tid (answer_eio t d) = next_tid d"
  "live (answer_eio t d) t' = live d t'" "fault (answer_eio t d) = (fault d \<or> \<not> live d t)"
  by (simp_all add: answer_eio_def)

text \<open>What the draining loops leave behind, for a property of the rest of the state.\<close>

lemma drain_requests_frame [simp]:
  "Uvfs_requests (drain_requests d) = [] \<and> Uvfs_replies (drain_requests d) = Uvfs_replies d
   \<and> Uvfs_driver_queue (drain_requests d) = Uvfs_driver_queue d
   \<and> ShuttingDown (drain_requests d) = ShuttingDown d
   \<and> Serial_number (drain_requests d) = Serial_number d
   \<and> uvfs_use_count (drain_requests d) = uvfs_use_count d \<and> next_tid (drain_requests d) = next_tid d
   \<and> live (drain_requests d) t = live d t
   \<and> fault (drain_requests d) = (fault d \<or> (\<exists>t \<in> set (Uvfs_requests d). \<not> live d t))"
  by (induction d rule: drain_requests.induct, subst (1 2 3 4 5 6 7 8 9) drain_requests.simps)
    (auto split: list.split)

lemma drain_replies_frame [simp]:
  "Uvfs_replies (drain_replies d) = [] \<and> Uvfs_requests (drain_replies d) = Uvfs_requests d
   \<and> Uvfs_driver_queue (drain_replies d) = Uvfs_driver_queue d
   \<and> ShuttingDown (drain_replies d) = ShuttingDown d
   \<and> Serial_number (drain_replies d) = Serial_number d
   \<and> uvfs_use_count (drain_replies d) = uvfs_use_count d \<and> next_tid (drain_replies d) = next_tid d
   \<and> live (drain_replies d) t = live d t
   \<and> fault (drain_replies d) = (fault d \<or> (\<exists>t \<in> set (Uvfs_replies d). \<not> live d t))"
  by (induction d rule: drain_replies.induct, subst (1 2 3 4 5 6 7 8 9) drain_replies.simps)
    (auto split: list.split)

definition eio_answer :: "uvfs_transaction_s \<Rightarrow> uvfs_transaction_s" where
  "eio_answer tr = tr\<lparr>t_u := set_error (-EIO) (t_u tr), t_answered := True\<rparr>"

lemma trans_answer_eio:
  "the_trans (answer_eio t d) t' = (if t' = t \<and> live d t then eio_answer (the_trans d t) else the_trans d t')"
  by (simp add: answer_eio_def trans_upd_trans eio_answer_def)

lemma drain_requests_trans:
  "distinct (Uvfs_requests d) \<Longrightarrow> the_trans (drain_requests d) t =
     (if t \<in> set (Uvfs_requests d) \<and> live d t then eio_answer (the_trans d t) else the_trans d t)"
proof (induction d rule: drain_requests.induct)
  case (1 d)
  then show ?case
    by (subst drain_requests.simps) (auto simp: trans_answer_eio split: list.split)
qed

lemma drain_replies_trans:
  "distinct (Uvfs_replies d) \<Longrightarrow> the_trans (drain_replies d) t =
     (if t \<in> set (Uvfs_replies d) \<and> live d t then eio_answer (the_trans d t) else the_trans d t)"
proof (induction d rule: drain_replies.induct)
  case (1 d)
  then show ?case
    by (subst drain_replies.simps) (auto simp: trans_answer_eio split: list.split)
qed

section \<open>Lemmas: finding the transaction of a reply\<close>

lemma find_reply_frame:
  "find_reply d ts n = (r, d') \<Longrightarrow> d' = d\<lparr>fault := fault d'\<rparr> \<and>
     ((\<forall>t \<in> set ts. live d t) \<longrightarrow> fault d' = fault d)"
  by (induction d ts n arbitrary: r d' rule: find_reply.induct)
    (fastforce simp: Let_def touch_def split: if_splits)+

lemma find_reply_Some:
  "find_reply d ts n = (Some t, d') \<Longrightarrow> t \<in> set ts \<and> t_serial (the_trans d t) = n"
  by (induction d ts n arbitrary: d' rule: find_reply.induct) (auto simp: Let_def split: if_splits)

lemma find_reply_None:
  "find_reply d ts n = (None, d') \<Longrightarrow> t \<in> set ts \<Longrightarrow> t_serial (the_trans d t) \<noteq> n"
  by (induction d ts n arbitrary: d' rule: find_reply.induct) (auto simp: Let_def split: if_splits)

section \<open>Lemmas: what each section changes\<close>

lemmas section_defs =
  uvfsd_open_def uvfsd_release_def uvfsd_ioctl_def uvfs_new_transaction_def
  make_request_submit_def make_request_check_def make_request_cancel_def kfree_trans_def
  uvfsd_read_loop_def uvfsd_read_woken_def uvfsd_read_shutdown_def uvfsd_read_done_def
  uvfsd_write_done_def Let_def

lemma open_frame [simp]:
  "live (snd (uvfsd_open d)) t = live d t" "the_trans (snd (uvfsd_open d)) t = the_trans d t"
  "next_tid (snd (uvfsd_open d)) = next_tid d" "fault (snd (uvfsd_open d)) = fault d"
  "Uvfs_requests (snd (uvfsd_open d)) = Uvfs_requests d"
  "Uvfs_replies (snd (uvfsd_open d)) = Uvfs_replies d"
  "Uvfs_driver_queue (snd (uvfsd_open d)) = Uvfs_driver_queue d"
  "ShuttingDown (snd (uvfsd_open d)) = ShuttingDown d"
  "Serial_number (snd (uvfsd_open d)) = Serial_number d"
  "uvfs_use_count (snd (uvfsd_open d)) = uvfs_use_count d + 1"
  by (simp_all add: section_defs)

lemma release_frame [simp]:
  "live (snd (uvfsd_release d)) t = live d t" "next_tid (snd (uvfsd_release d)) = next_tid d"
  "Uvfs_requests (snd (uvfsd_release d)) = (if uvfs_use_count d = 1 then [] else Uvfs_requests d)"
  "Uvfs_replies (snd (uvfsd_release d)) = (if uvfs_use_count d = 1 then [] else Uvfs_replies d)"
  "Uvfs_driver_queue (snd (uvfsd_release d)) = Uvfs_driver_queue d"
  "ShuttingDown (snd (uvfsd_release d)) = (uvfs_use_count d \<noteq> 1 \<and> ShuttingDown d)"
  "Serial_number (snd (uvfsd_release d)) = (if uvfs_use_count d = 1 then 0 else Serial_number d)"
  "uvfs_use_count (snd (uvfsd_release d)) = uvfs_use_count d - 1"
  by (simp_all add: section_defs)

lemma release_trans:
  "distinct (Uvfs_requests d @ Uvfs_replies d) \<Longrightarrow> the_trans (snd (uvfsd_release d)) t =
     (if uvfs_use_count d = 1 \<and> t \<in> set (Uvfs_requests d @ Uvfs_replies d) \<and> live d t
      then eio_answer (the_trans d t) else the_trans d t)"
  by (auto simp: section_defs drain_requests_trans drain_replies_trans)

lemma release_serial:
  "distinct (Uvfs_requests d @ Uvfs_replies d) \<Longrightarrow>
   t_serial (the_trans (snd (uvfsd_release d)) t) = t_serial (the_trans d t)"
  by (simp add: release_trans eio_answer_def)

lemma drain_empty:
  "Uvfs_requests d = [] \<Longrightarrow> drain_requests d = d" "Uvfs_replies d = [] \<Longrightarrow> drain_replies d = d"
  by (subst drain_requests.simps drain_replies.simps, simp)+

lemma release_fault:
  "(\<forall>t \<in> set (Uvfs_requests d @ Uvfs_replies d). live d t) \<Longrightarrow>
   fault (snd (uvfsd_release d)) = fault d"
  by (auto simp: section_defs)

lemma shutdown_frame [simp]:
  "live (snd (snd (uvfsd_ioctl UVFS_IOCTL_SHUTDOWN m d))) t = live d t"
  "the_trans (snd (snd (uvfsd_ioctl UVFS_IOCTL_SHUTDOWN m d))) t = the_trans d t"
  "next_tid (snd (snd (uvfsd_ioctl UVFS_IOCTL_SHUTDOWN m d))) = next_tid d"
  "fault (snd (snd (uvfsd_ioctl UVFS_IOCTL_SHUTDOWN m d))) = fault d"
  "Uvfs_requests (snd (snd (uvfsd_ioctl UVFS_IOCTL_SHUTDOWN m d))) = Uvfs_requests d"
  "Uvfs_replies (snd (snd (uvfsd_ioctl UVFS_IOCTL_SHUTDOWN m d))) = Uvfs_replies d"
  "Uvfs_driver_queue (snd (snd (uvfsd_ioctl UVFS_IOCTL_SHUTDOWN m d))) =
     wake_first (Uvfs_driver_queue d)"
  "ShuttingDown (snd (snd (uvfsd_ioctl UVFS_IOCTL_SHUTDOWN m d)))"
  "Serial_number (snd (snd (uvfsd_ioctl UVFS_IOCTL_SHUTDOWN m d))) = Serial_number d"
  "uvfs_use_count (snd (snd (uvfsd_ioctl UVFS_IOCTL_SHUTDOWN m d))) = uvfs_use_count d"
  by (simp_all add: section_defs wake_up_interruptible_def)

lemma new_frame [simp]:
  "fst (uvfs_new_transaction junk d) = next_tid d"
  "live (snd (uvfs_new_transaction junk d)) t = (t = next_tid d \<or> live d t)"
  "next_tid (snd (uvfs_new_transaction junk d)) = Suc (next_tid d)"
  "fault (snd (uvfs_new_transaction junk d)) = fault d"
  "Uvfs_requests (snd (uvfs_new_transaction junk d)) = Uvfs_requests d"
  "Uvfs_replies (snd (uvfs_new_transaction junk d)) = Uvfs_replies d"
  "Uvfs_driver_queue (snd (uvfs_new_transaction junk d)) = Uvfs_driver_queue d"
  "ShuttingDown (snd (uvfs_new_transaction junk d)) = ShuttingDown d"
  "Serial_number (snd (uvfs_new_transaction junk d)) = Serial_number d + 1"
  "uvfs_use_count (snd (uvfs_new_transaction junk d)) = uvfs_use_count d"
  by (simp_all add: section_defs live_def)

lemma new_trans [simp]:
  "the_trans (snd (uvfs_new_transaction junk d)) t =
     (if t = next_tid d
      then \<lparr>t_u = junk, t_serial = Serial_number d, t_in_use = False, t_abort = False,
            t_answered = False\<rparr>
      else the_trans d t)"
  by (simp add: section_defs the_trans_def)

lemma submit_frame [simp]:
  "fst (make_request_submit t d) = (uvfs_use_count d \<noteq> 0)"
  "live (snd (make_request_submit t d)) t' = live d t'"
  "next_tid (snd (make_request_submit t d)) = next_tid d"
  "fault (snd (make_request_submit t d)) = (fault d \<or> \<not> live d t)"
  "Uvfs_requests (snd (make_request_submit t d)) =
     (if uvfs_use_count d = 0 then Uvfs_requests d else Uvfs_requests d @ [t])"
  "Uvfs_replies (snd (make_request_submit t d)) = Uvfs_replies d"
  "Uvfs_driver_queue (snd (make_request_submit t d)) =
     (if uvfs_use_count d = 0 then Uvfs_driver_queue d else wake_first (Uvfs_driver_queue d))"
  "ShuttingDown (snd (make_request_submit t d)) = ShuttingDown d"
  "Serial_number (snd (make_request_submit t d)) = Serial_number d"
  "uvfs_use_count (snd (make_request_submit t d)) = uvfs_use_count d"
  by (simp_all add: section_defs wake_up_interruptible_def)

lemma submit_trans [simp]:
  "the_trans (snd (make_request_submit t d)) t' =
     (if t' = t \<and> live d t \<and> uvfs_use_count d = 0
      then (the_trans d t)\<lparr>t_u := set_error (-EIO) (t_u (the_trans d t))\<rparr> else the_trans d t')"
  by (simp add: section_defs trans_upd_trans)

lemma cancel_frame [simp]:
  "live (make_request_cancel t d) t' = live d t'" "next_tid (make_request_cancel t d) = next_tid d"
  "fault (make_request_cancel t d) = (fault d \<or> \<not> live d t)"
  "Uvfs_requests (make_request_cancel t d) = remove1 t (Uvfs_requests d)"
  "Uvfs_replies (make_request_cancel t d) = remove1 t (Uvfs_replies d)"
  "Uvfs_driver_queue (make_request_cancel t d) = Uvfs_driver_queue d"
  "ShuttingDown (make_request_cancel t d) = ShuttingDown d"
  "Serial_number (make_request_cancel t d) = Serial_number d"
  "uvfs_use_count (make_request_cancel t d) = uvfs_use_count d"
  by (simp_all add: section_defs)

lemma cancel_trans [simp]:
  "the_trans (make_request_cancel t d) t' =
     (if t' = t \<and> live d t
      then (the_trans d t)\<lparr>t_u := set_error (-ERESTARTSYS) (t_u (the_trans d t))\<rparr> else the_trans d t')"
  by (simp add: section_defs trans_upd_trans)

lemma check_cases:
  "make_request_check sig t d =
     (if \<not> sig then (False, d)
      else if t_in_use (the_trans d t) then (True, upd_trans t (\<lambda>tr. tr\<lparr>t_abort := True\<rparr>) d)
      else (False, make_request_cancel t d))"
  by (simp add: make_request_check_def)

lemma kfree_frame [simp]:
  "live (kfree_trans t d) t' = (t' \<noteq> t \<and> live d t')" "next_tid (kfree_trans t d) = next_tid d"
  "fault (kfree_trans t d) = (fault d \<or> \<not> live d t)"
  "t' \<noteq> t \<Longrightarrow> the_trans (kfree_trans t d) t' = the_trans d t'"
  "Uvfs_requests (kfree_trans t d) = Uvfs_requests d"
  "Uvfs_replies (kfree_trans t d) = Uvfs_replies d"
  "Uvfs_driver_queue (kfree_trans t d) = Uvfs_driver_queue d"
  "ShuttingDown (kfree_trans t d) = ShuttingDown d"
  "Serial_number (kfree_trans t d) = Serial_number d"
  "uvfs_use_count (kfree_trans t d) = uvfs_use_count d"
  by (simp_all add: section_defs live_def the_trans_def)

lemma read_loop_frame [simp]:
  "live (snd (uvfsd_read_loop r d)) t = live d t"
  "next_tid (snd (uvfsd_read_loop r d)) = next_tid d"
  "ShuttingDown (snd (uvfsd_read_loop r d)) = ShuttingDown d"
  "Serial_number (snd (uvfsd_read_loop r d)) = Serial_number d"
  "uvfs_use_count (snd (uvfsd_read_loop r d)) = uvfs_use_count d"
  "t_answered (the_trans (snd (uvfsd_read_loop r d)) t) = t_answered (the_trans d t)"
  "t_serial (the_trans (snd (uvfsd_read_loop r d)) t) = t_serial (the_trans d t)"
  "t_u (the_trans (snd (uvfsd_read_loop r d)) t) = t_u (the_trans d t)"
  by (simp_all add: section_defs trans_upd_trans)

text \<open>The three ways out of one pass through the loop of \<open>uvfsd_read\<close>.\<close>

lemma read_loop_cases:
  obtains (shutdown) "ShuttingDown d" "uvfsd_read_loop r d = (Read_shutdown, d)"
  | (sleep) "Uvfs_requests d = []" "\<not> ShuttingDown d"
      "uvfsd_read_loop r d =
         (Read_sleep, d\<lparr>Uvfs_driver_queue := Uvfs_driver_queue d @ [(r, False)]\<rparr>)"
  | (take) t ts d' where "Uvfs_requests d = t # ts" "\<not> ShuttingDown d"
      "uvfsd_read_loop r d = (Read_take t, d')" "Uvfs_requests d' = ts"
      "Uvfs_replies d' = Uvfs_replies d @ [t]"
      "Uvfs_driver_queue d' = wake_first (Uvfs_driver_queue d)"
      "fault d' = (fault d \<or> \<not> live d t)"
proof (cases "ShuttingDown d")
  case True
  then show ?thesis by (auto intro: shutdown simp: uvfsd_read_loop_def)
next
  case False
  show ?thesis
  proof (cases "Uvfs_requests d")
    case Nil
    with False show ?thesis by (auto intro: sleep simp: uvfsd_read_loop_def)
  next
    case (Cons t ts)
    with False show ?thesis
      by (intro take [of t ts "snd (uvfsd_read_loop r d)"])
        (auto simp: uvfsd_read_loop_def Let_def wake_up_interruptible_def)
  qed
qed

lemma read_woken_frame [simp]:
  "live (uvfsd_read_woken r d) t = live d t" "the_trans (uvfsd_read_woken r d) t = the_trans d t"
  "next_tid (uvfsd_read_woken r d) = next_tid d" "fault (uvfsd_read_woken r d) = fault d"
  "Uvfs_requests (uvfsd_read_woken r d) = Uvfs_requests d"
  "Uvfs_replies (uvfsd_read_woken r d) = Uvfs_replies d"
  "ShuttingDown (uvfsd_read_woken r d) = ShuttingDown d"
  "Serial_number (uvfsd_read_woken r d) = Serial_number d"
  "uvfs_use_count (uvfsd_read_woken r d) = uvfs_use_count d"
  by (simp_all add: section_defs)

lemma read_shutdown_frame [simp]:
  "live (uvfsd_read_shutdown d) t = live d t" "the_trans (uvfsd_read_shutdown d) t = the_trans d t"
  "next_tid (uvfsd_read_shutdown d) = next_tid d" "fault (uvfsd_read_shutdown d) = fault d"
  "Uvfs_requests (uvfsd_read_shutdown d) = Uvfs_requests d"
  "Uvfs_replies (uvfsd_read_shutdown d) = Uvfs_replies d"
  "Uvfs_driver_queue (uvfsd_read_shutdown d) = wake_first (Uvfs_driver_queue d)"
  "ShuttingDown (uvfsd_read_shutdown d) = ShuttingDown d"
  "Serial_number (uvfsd_read_shutdown d) = Serial_number d"
  "uvfs_use_count (uvfsd_read_shutdown d) = uvfs_use_count d"
  by (simp_all add: section_defs wake_up_interruptible_def)

lemma read_done_frame [simp]:
  "live (uvfsd_read_done t d) t' = live d t'" "next_tid (uvfsd_read_done t d) = next_tid d"
  "fault (uvfsd_read_done t d) = (fault d \<or> \<not> live d t)"
  "t_answered (the_trans (uvfsd_read_done t d) t') = t_answered (the_trans d t')"
  "t_serial (the_trans (uvfsd_read_done t d) t') = t_serial (the_trans d t')"
  "t_u (the_trans (uvfsd_read_done t d) t') = t_u (the_trans d t')"
  "Uvfs_requests (uvfsd_read_done t d) = Uvfs_requests d"
  "Uvfs_replies (uvfsd_read_done t d) = Uvfs_replies d"
  "Uvfs_driver_queue (uvfsd_read_done t d) = Uvfs_driver_queue d"
  "ShuttingDown (uvfsd_read_done t d) = ShuttingDown d"
  "Serial_number (uvfsd_read_done t d) = Serial_number d"
  "uvfs_use_count (uvfsd_read_done t d) = uvfs_use_count d"
  by (simp_all add: section_defs trans_upd_trans)

text \<open>A reply either finds the first pending transaction with its serial number or changes nothing.\<close>

lemma write_lookup_cases:
  obtains (none) d' where "uvfsd_write_lookup n d = (None, d')" "Uvfs_replies d' = Uvfs_replies d"
      "Uvfs_requests d' = Uvfs_requests d"
      "(\<forall>t \<in> set (Uvfs_replies d). live d t) \<longrightarrow> fault d' = fault d"
      "\<forall>t \<in> set (Uvfs_replies d). t_serial (the_trans d t) \<noteq> n"
  | (found) t d' where "uvfsd_write_lookup n d = (Some t, d')"
      "t \<in> set (Uvfs_replies d)" "t_serial (the_trans d t) = n"
      "Uvfs_replies d' = remove1 t (Uvfs_replies d)" "Uvfs_requests d' = Uvfs_requests d"
      "(\<forall>t \<in> set (Uvfs_replies d). live d t) \<longrightarrow> fault d' = fault d"
proof (cases "find_reply d (Uvfs_replies d) n")
  case (Pair res d1)
  note frame = find_reply_frame [OF Pair]
  then obtain b where d1: "d1 = d\<lparr>fault := b\<rparr>" and "(\<forall>t \<in> set (Uvfs_replies d). live d t) \<longrightarrow> b = fault d"
    by auto
  then show ?thesis
  proof (cases res)
    case None
    with Pair frame d1 show ?thesis
      by (intro none [of d1]) (auto simp: uvfsd_write_lookup_def dest: find_reply_None)
  next
    case (Some t)
    with Pair have hit: "t \<in> set (Uvfs_replies d)" "t_serial (the_trans d t) = n"
      by (auto dest: find_reply_Some)
    with Pair Some frame d1 show ?thesis
      by (intro found [of t "snd (uvfsd_write_lookup n d)"]) (auto simp: uvfsd_write_lookup_def)
  qed
qed

lemma write_lookup_frame [simp]:
  "live (snd (uvfsd_write_lookup n d)) t = live d t"
  "next_tid (snd (uvfsd_write_lookup n d)) = next_tid d"
  "Uvfs_requests (snd (uvfsd_write_lookup n d)) = Uvfs_requests d"
  "Uvfs_driver_queue (snd (uvfsd_write_lookup n d)) = Uvfs_driver_queue d"
  "ShuttingDown (snd (uvfsd_write_lookup n d)) = ShuttingDown d"
  "Serial_number (snd (uvfsd_write_lookup n d)) = Serial_number d"
  "uvfs_use_count (snd (uvfsd_write_lookup n d)) = uvfs_use_count d"
  "t_answered (the_trans (snd (uvfsd_write_lookup n d)) t) = t_answered (the_trans d t)"
  "t_serial (the_trans (snd (uvfsd_write_lookup n d)) t) = t_serial (the_trans d t)"
  "t_u (the_trans (snd (uvfsd_write_lookup n d)) t) = t_u (the_trans d t)"
proof -
  obtain res d1 where eq: "find_reply d (Uvfs_replies d) n = (res, d1)"
    by (cases "find_reply d (Uvfs_replies d) n")
  from find_reply_frame [OF eq] obtain b where d1: "d1 = d\<lparr>fault := b\<rparr>" by auto
  show "live (snd (uvfsd_write_lookup n d)) t = live d t"
    "next_tid (snd (uvfsd_write_lookup n d)) = next_tid d"
    "Uvfs_requests (snd (uvfsd_write_lookup n d)) = Uvfs_requests d"
    "Uvfs_driver_queue (snd (uvfsd_write_lookup n d)) = Uvfs_driver_queue d"
    "ShuttingDown (snd (uvfsd_write_lookup n d)) = ShuttingDown d"
    "Serial_number (snd (uvfsd_write_lookup n d)) = Serial_number d"
    "uvfs_use_count (snd (uvfsd_write_lookup n d)) = uvfs_use_count d"
    "t_answered (the_trans (snd (uvfsd_write_lookup n d)) t) = t_answered (the_trans d t)"
    "t_serial (the_trans (snd (uvfsd_write_lookup n d)) t) = t_serial (the_trans d t)"
    "t_u (the_trans (snd (uvfsd_write_lookup n d)) t) = t_u (the_trans d t)"
    by (auto simp: uvfsd_write_lookup_def eq d1 trans_upd_trans split: option.split)
qed

lemma write_done_frame [simp]:
  "live (uvfsd_write_done t data d) t' = live d t'"
  "next_tid (uvfsd_write_done t data d) = next_tid d"
  "fault (uvfsd_write_done t data d) = (fault d \<or> \<not> live d t \<or> sizeof_u < length data)"
  "Uvfs_requests (uvfsd_write_done t data d) = Uvfs_requests d"
  "Uvfs_replies (uvfsd_write_done t data d) = Uvfs_replies d"
  "Uvfs_driver_queue (uvfsd_write_done t data d) = Uvfs_driver_queue d"
  "ShuttingDown (uvfsd_write_done t data d) = ShuttingDown d"
  "Serial_number (uvfsd_write_done t data d) = Serial_number d"
  "uvfs_use_count (uvfsd_write_done t data d) = uvfs_use_count d"
  by (auto simp: section_defs)

lemma write_done_trans [simp]:
  "the_trans (uvfsd_write_done t data d) t' =
     (if t' = t \<and> live d t
      then (the_trans d t)\<lparr>t_u := overlay data (t_u (the_trans d t)), t_in_use := False, t_answered := True\<rparr>
      else the_trans d t')"
  by (simp add: section_defs trans_upd_trans)

end
