(* ===== verification/Uvfs_Machine.thy ===== *)
theory Uvfs_Machine
  imports Uvfs_Driver
begin

text \<open>
  The driver as a concurrent program: any number of file system threads inside
  \<open>uvfs_make_request\<close> and of server threads inside the handlers of the device, interleaved
  at the boundaries of their critical sections. A step is one critical section of one
  thread, an event of the environment (a signal, an open, a close) or the end of a copy
  to or from user space. The label of a step says what the environment contributed.

  Two components are ghosts: \<open>creq\<close>, the request a file system thread submitted, kept to
  say what it gets back, and \<open>owner\<close>, the thread that allocated a transaction. A signal stands for \<open>SIGKILL\<close>, the only one the wait lets through.
\<close>

section \<open>Threads\<close>

type_synonym cid = nat \<comment> \<open>a file system thread\<close>
type_synonym fid = nat \<comment> \<open>an open file of the device\<close>

datatype cpc =
    C_idle
  | C_new tid      \<comment> \<open>transaction allocated\<close>
  | C_built tid    \<comment> \<open>request filled in, \<open>uvfs_make_request\<close> called\<close>
  | C_waiting tid  \<comment> \<open>in \<open>wait_event_interruptible\<close>\<close>
  | C_check tid    \<comment> \<open>woken, about to take the lock\<close>
  | C_drain tid    \<comment> \<open>interrupted, in \<open>wait_event\<close> until the server lets go\<close>
  | C_drained tid  \<comment> \<open>about to take the lock again\<close>
  | C_done tid     \<comment> \<open>\<open>uvfs_make_request\<close> has returned\<close>

datatype spc =
    S_user                \<comment> \<open>not in the driver\<close>
  | S_sleep fid           \<comment> \<open>asleep in \<open>uvfsd_read\<close>\<close>
  | S_shut fid            \<comment> \<open>copying the shutdown report\<close>
  | S_read fid tid        \<comment> \<open>copying a request out\<close>
  | S_ret fid tid         \<comment> \<open>lock dropped, about to evaluate \<open>return request->size\<close>\<close>
  | S_write fid tid nat   \<comment> \<open>copying a reply of that many bytes in\<close>

fun ctid :: "cpc \<Rightarrow> tid option" where
  "ctid C_idle = None"
| "ctid (C_new t) = Some t"
| "ctid (C_built t) = Some t"
| "ctid (C_waiting t) = Some t"
| "ctid (C_check t) = Some t"
| "ctid (C_drain t) = Some t"
| "ctid (C_drained t) = Some t"
| "ctid (C_done t) = Some t"

text \<open>The thread has submitted \<open>t\<close> and \<open>uvfs_make_request\<close> has not returned.\<close>

fun pending :: "cpc \<Rightarrow> tid option" where
  "pending (C_waiting t) = Some t"
| "pending (C_check t) = Some t"
| "pending (C_drain t) = Some t"
| "pending (C_drained t) = Some t"
| "pending _ = None"

fun sfile :: "spc \<Rightarrow> fid option" where
  "sfile S_user = None"
| "sfile (S_sleep f) = Some f"
| "sfile (S_shut f) = Some f"
| "sfile (S_read f t) = Some f"
| "sfile (S_ret f t) = Some f"
| "sfile (S_write f t n) = Some f"

fun stid :: "spc \<Rightarrow> tid option" where
  "stid (S_read f t) = Some t"
| "stid (S_ret f t) = Some t"
| "stid (S_write f t n) = Some t"
| "stid _ = None"

record sys =
  drv :: driver
  cpc :: "cid \<Rightarrow> cpc"
  csig :: "cid \<Rightarrow> bool"
  creq :: "cid \<Rightarrow> buf"
  spc :: "sid \<Rightarrow> spc"
  open_files :: "fid set"
  owner :: "tid \<Rightarrow> cid"

datatype label =
    L_open fid | L_release fid | L_shutdown
  | L_new cid buf | L_fill cid buf | L_submit cid | L_signal cid | L_wake cid | L_check cid
  | L_unused cid | L_cancel cid | L_free cid buf
  | L_read sid fid | L_resume sid | L_interrupt sid | L_shut sid | L_copied sid buf
  | L_return sid nat
  | L_write sid fid u64 buf | L_written sid buf

definition init_sys :: "sys \<Rightarrow> bool" where
  "init_sys s \<longleftrightarrow> drv s = init_driver \<and> cpc s = (\<lambda>_. C_idle) \<and> csig s = (\<lambda>_. False)
     \<and> spc s = (\<lambda>_. S_user) \<and> open_files s = {}"

text \<open>
  What every caller of \<open>uvfs_make_request\<close> puts into the union: an operation of the
  protocol, the serial number of the transaction, and a size within the union.
\<close>

definition wf_request :: "u32 \<Rightarrow> buf \<Rightarrow> bool" where
  "wf_request n u \<longleftrightarrow> length u = sizeof_u
     \<and> get32 (offsetof uvfs_generic_req_s ''type'') u \<in> {UVFS_WRITE..UVFS_READLINK}
     \<and> get32 (offsetof uvfs_generic_req_s ''serial'') u = n
     \<and> sizeof uvfs_generic_req_s \<le> request_size u \<and> request_size u \<le> sizeof_union uvfs_request_u"

fun read_pc :: "fid \<Rightarrow> read_next \<Rightarrow> spc" where
  "read_pc f Read_shutdown = S_shut f"
| "read_pc f Read_sleep = S_sleep f"
| "read_pc f (Read_take t) = S_read f t"

fun write_pc :: "fid \<Rightarrow> nat \<Rightarrow> tid option \<Rightarrow> spc" where
  "write_pc f n None = S_user"
| "write_pc f n (Some t) = S_write f t n"

section \<open>Steps\<close>

inductive step :: "sys \<Rightarrow> label \<Rightarrow> sys \<Rightarrow> bool" where
  dev_open: "f \<notin> open_files s \<Longrightarrow>
    step s (L_open f) (s\<lparr>drv := snd (uvfsd_open (drv s)), open_files := insert f (open_files s)\<rparr>)"
| dev_release: "f \<in> open_files s \<Longrightarrow> (\<And>r. sfile (spc s r) \<noteq> Some f) \<Longrightarrow>
    step s (L_release f)
      (s\<lparr>drv := snd (uvfsd_release (drv s)), open_files := open_files s - {f}\<rparr>)"
| dev_shutdown: "step s L_shutdown
      (s\<lparr>drv := snd (snd (uvfsd_ioctl UVFS_IOCTL_SHUTDOWN m (drv s)))\<rparr>)"
| fs_new: "cpc s c = C_idle \<Longrightarrow> length junk = sizeof_u \<Longrightarrow> t = fst (uvfs_new_transaction junk (drv s)) \<Longrightarrow>
    step s (L_new c junk)
      (s\<lparr>drv := snd (uvfs_new_transaction junk (drv s)), cpc := (cpc s)(c := C_new t),
         owner := (owner s)(t := c)\<rparr>)"
| fs_fill: "cpc s c = C_new t \<Longrightarrow> wf_request (t_serial (the_trans (drv s) t)) u \<Longrightarrow>
    step s (L_fill c u)
      (s\<lparr>drv := upd_trans t (\<lambda>tr. tr\<lparr>t_u := u\<rparr>) (drv s), cpc := (cpc s)(c := C_built t),
         creq := (creq s)(c := u)\<rparr>)"
| fs_submit: "cpc s c = C_built t \<Longrightarrow>
    step s (L_submit c)
      (s\<lparr>drv := snd (make_request_submit t (drv s)),
         cpc := (cpc s)(c := if fst (make_request_submit t (drv s)) then C_waiting t else C_done t)\<rparr>)"
| fs_signal: "step s (L_signal c) (s\<lparr>csig := (csig s)(c := True)\<rparr>)"
| fs_wake: "cpc s c = C_waiting t \<Longrightarrow> t_answered (the_trans (drv s) t) \<or> csig s c \<Longrightarrow>
    step s (L_wake c) (s\<lparr>drv := touch t (drv s), cpc := (cpc s)(c := C_check t)\<rparr>)"
| fs_check: "cpc s c = C_check t \<Longrightarrow>
    step s (L_check c)
      (s\<lparr>drv := snd (make_request_check (csig s c) t (drv s)),
         cpc := (cpc s)(c := if fst (make_request_check (csig s c) t (drv s))
                              then C_drain t else C_done t)\<rparr>)"
| fs_unused: "cpc s c = C_drain t \<Longrightarrow> \<not> t_in_use (the_trans (drv s) t) \<Longrightarrow>
    step s (L_unused c) (s\<lparr>drv := touch t (drv s), cpc := (cpc s)(c := C_drained t)\<rparr>)"
| fs_cancel: "cpc s c = C_drained t \<Longrightarrow>
    step s (L_cancel c)
      (s\<lparr>drv := make_request_cancel t (drv s), cpc := (cpc s)(c := C_done t)\<rparr>)"
| fs_free: "cpc s c = C_done t \<Longrightarrow> u = t_u (the_trans (drv s) t) \<Longrightarrow>
    step s (L_free c u) (s\<lparr>drv := kfree_trans t (drv s), cpc := (cpc s)(c := C_idle)\<rparr>)"
| sv_read: "spc s r = S_user \<Longrightarrow> f \<in> open_files s \<Longrightarrow>
    step s (L_read r f)
      (s\<lparr>drv := snd (uvfsd_read_loop r (drv s)),
         spc := (spc s)(r := read_pc f (fst (uvfsd_read_loop r (drv s))))\<rparr>)"
| sv_resume: "spc s r = S_sleep f \<Longrightarrow> (r, True) \<in> set (Uvfs_driver_queue (drv s)) \<Longrightarrow>
    d = uvfsd_read_woken r (drv s) \<Longrightarrow>
    step s (L_resume r)
      (s\<lparr>drv := snd (uvfsd_read_loop r d),
         spc := (spc s)(r := read_pc f (fst (uvfsd_read_loop r d)))\<rparr>)"
| sv_interrupt: "spc s r = S_sleep f \<Longrightarrow>
    step s (L_interrupt r) (s\<lparr>drv := uvfsd_read_woken r (drv s), spc := (spc s)(r := S_user)\<rparr>)"
| sv_shut: "spc s r = S_shut f \<Longrightarrow>
    step s (L_shut r) (s\<lparr>drv := uvfsd_read_shutdown (drv s), spc := (spc s)(r := S_user)\<rparr>)"
| sv_copied: "spc s r = S_read f t \<Longrightarrow> bs = delivered (t_u (the_trans (drv s) t)) \<Longrightarrow>
    step s (L_copied r bs) (s\<lparr>drv := uvfsd_read_done t (drv s), spc := (spc s)(r := S_ret f t)\<rparr>)"
| sv_return: "spc s r = S_ret f t \<Longrightarrow> n = request_size (t_u (the_trans (drv s) t)) \<Longrightarrow>
    step s (L_return r n) (s\<lparr>drv := touch t (drv s), spc := (spc s)(r := S_user)\<rparr>)"
| sv_write: "spc s r = S_user \<Longrightarrow> f \<in> open_files s \<Longrightarrow>
    uvfsd_write_check count (Some h) = Inr h \<Longrightarrow>
    n = get32 (offsetof uvfs_generic_rep_s ''serial'') h \<Longrightarrow>
    step s (L_write r f count h)
      (s\<lparr>drv := snd (uvfsd_write_lookup n (drv s)),
         spc := (spc s)(r := write_pc f (unat count) (fst (uvfsd_write_lookup n (drv s))))\<rparr>)"
| sv_written: "spc s r = S_write f t n \<Longrightarrow> length data = n \<Longrightarrow>
    step s (L_written r data)
      (s\<lparr>drv := uvfsd_write_done t data (drv s), spc := (spc s)(r := S_user)\<rparr>)"

text \<open>What a step with a given label did: one elimination rule per label.\<close>

inductive_cases step_openE: "step s (L_open f) s'"
inductive_cases step_releaseE: "step s (L_release f) s'"
inductive_cases step_shutdownE: "step s L_shutdown s'"
inductive_cases step_newE: "step s (L_new c junk) s'"
inductive_cases step_fillE: "step s (L_fill c u) s'"
inductive_cases step_submitE: "step s (L_submit c) s'"
inductive_cases step_signalE: "step s (L_signal c) s'"
inductive_cases step_wakeE: "step s (L_wake c) s'"
inductive_cases step_checkE: "step s (L_check c) s'"
inductive_cases step_unusedE: "step s (L_unused c) s'"
inductive_cases step_cancelE: "step s (L_cancel c) s'"
inductive_cases step_freeE: "step s (L_free c u) s'"
inductive_cases step_readE: "step s (L_read r f) s'"
inductive_cases step_resumeE: "step s (L_resume r) s'"
inductive_cases step_interruptE: "step s (L_interrupt r) s'"
inductive_cases step_shutE: "step s (L_shut r) s'"
inductive_cases step_copiedE: "step s (L_copied r bs) s'"
inductive_cases step_returnE: "step s (L_return r n) s'"
inductive_cases step_writeE: "step s (L_write r f count h) s'"
inductive_cases step_writtenE: "step s (L_written r data) s'"

text \<open>The steps that leave the queues and the file system threads' positions alone.\<close>

fun quiet :: "label \<Rightarrow> bool" where
  "quiet (L_open _) = True"
| "quiet L_shutdown = True"
| "quiet (L_signal _) = True"
| "quiet (L_interrupt _) = True"
| "quiet (L_shut _) = True"
| "quiet (L_copied _ _) = True"
| "quiet (L_return _ _) = True"
| "quiet _ = False"

abbreviation reachable :: "(sys \<Rightarrow> label \<Rightarrow> bool) \<Rightarrow> sys \<Rightarrow> bool" where
  "reachable ok \<equiv> reach init_sys step ok"

abbreviation anything :: "sys \<Rightarrow> label \<Rightarrow> bool" where
  "anything \<equiv> \<lambda>s l. True"

section \<open>Invariant of the queues\<close>

definition listed :: "driver \<Rightarrow> tid set" where
  "listed d = set (Uvfs_requests d) \<union> set (Uvfs_replies d)"

definition file_inv :: "sys \<Rightarrow> bool" where
  "file_inv s \<longleftrightarrow> finite (open_files s) \<and> uvfs_use_count (drv s) = int (card (open_files s))
     \<and> (\<forall>r f. sfile (spc s r) = Some f \<longrightarrow> f \<in> open_files s)"

definition own_inv :: "sys \<Rightarrow> bool" where
  "own_inv s \<longleftrightarrow>
     (\<forall>c t. ctid (cpc s c) = Some t \<longrightarrow> owner s t = c \<and> live (drv s) t)
   \<and> (\<forall>t. live (drv s) t \<longrightarrow> t < next_tid (drv s) \<and> ctid (cpc s (owner s t)) = Some t)"

definition srv_inv :: "sys \<Rightarrow> bool" where
  "srv_inv s \<longleftrightarrow> (\<forall>r t. stid (spc s r) = Some t \<longrightarrow> t < next_tid (drv s)
      \<and> cpc s (owner s t) \<noteq> C_new t \<and> cpc s (owner s t) \<noteq> C_built t)"

definition list_inv :: "sys \<Rightarrow> bool" where
  "list_inv s \<longleftrightarrow>
     distinct (Uvfs_requests (drv s) @ Uvfs_replies (drv s))
   \<and> (\<forall>t \<in> listed (drv s). \<not> t_answered (the_trans (drv s) t) \<and> pending (cpc s (owner s t)) = Some t)
   \<and> (\<forall>c t. cpc s c = C_check t \<longrightarrow> \<not> csig s c \<longrightarrow> t_answered (the_trans (drv s) t))
   \<and> (\<forall>c t. cpc s c = C_new t \<or> cpc s c = C_built t \<longrightarrow> \<not> t_answered (the_trans (drv s) t))
   \<and> (\<forall>r f t n. spc s r = S_write f t n \<longrightarrow> t \<notin> listed (drv s))"

definition queue_inv :: "sys \<Rightarrow> bool" where
  "queue_inv s \<longleftrightarrow> file_inv s \<and> own_inv s \<and> srv_inv s \<and> list_inv s"


section \<open>Preservation of the queue invariants\<close>

lemma file_invD: "file_inv s \<Longrightarrow> sfile (spc s r) = Some f \<Longrightarrow> f \<in> open_files s"
  by (simp add: file_inv_def)

lemma file_inv_init: "init_sys s \<Longrightarrow> file_inv s"
  by (simp add: init_sys_def file_inv_def init_driver_def)

lemma file_inv_move:
  assumes "file_inv s" and "uvfs_use_count (drv s') = uvfs_use_count (drv s)"
    and "open_files s' = open_files s" and "\<And>r'. r' \<noteq> r \<Longrightarrow> spc s' r' = spc s r'"
    and "\<And>f. sfile (spc s' r) = Some f \<Longrightarrow> f \<in> open_files s"
  shows "file_inv s'"
  unfolding file_inv_def
proof (intro conjI allI impI)
  fix r' f assume "sfile (spc s' r') = Some f"
  with assms(1,3,4,5) show "f \<in> open_files s'"
    by (cases "r' = r") (auto dest: file_invD)
qed (use assms(1-3) in \<open>simp_all add: file_inv_def\<close>)

lemma sfile_read_pc [simp]: "sfile (read_pc f n) = Some f"
  by (cases n) auto

lemma sfile_write_pc: "sfile (write_pc f n found) = Some g \<Longrightarrow> g = f"
  by (cases found) auto

lemma check_use_count [simp]:
  "uvfs_use_count (snd (make_request_check sig t d)) = uvfs_use_count d"
  "next_tid (snd (make_request_check sig t d)) = next_tid d"
  "live (snd (make_request_check sig t d)) t' = live d t'"
  by (simp_all add: check_cases)

lemma file_inv_step: "step s l s' \<Longrightarrow> file_inv s \<Longrightarrow> file_inv s'"
proof (induction rule: step.induct)
  case (sv_read s r f)
  then show ?case by - (rule file_inv_move [where s = s and r = r], auto)
next
  case (sv_resume s r f d)
  then show ?case by - (rule file_inv_move [where s = s and r = r], auto dest: file_invD [of s r])
next
  case (sv_copied s r f t bs)
  then show ?case by - (rule file_inv_move [where s = s and r = r], auto dest: file_invD [of s r])
next
  case (sv_write s r f count h n)
  then show ?case
    by - (rule file_inv_move [where s = s and r = r], auto dest: sfile_write_pc)
next
  case (dev_release f s)
  then have "0 < card (open_files s)"
    by (auto simp: file_inv_def card_gt_0_iff)
  with dev_release show ?case
    by (auto simp: file_inv_def card_Diff_singleton of_nat_diff)
qed (auto simp: file_inv_def)

lemma own_invD:
  assumes "own_inv s"
  shows "ctid (cpc s c) = Some t \<Longrightarrow> owner s t = c"
    and "ctid (cpc s c) = Some t \<Longrightarrow> live (drv s) t"
    and "live (drv s) t \<Longrightarrow> t < next_tid (drv s)"
    and "live (drv s) t \<Longrightarrow> ctid (cpc s (owner s t)) = Some t"
  using assms by (auto simp: own_inv_def)

lemma own_inv_init: "init_sys s \<Longrightarrow> own_inv s"
  by (simp add: init_sys_def own_inv_def init_driver_def live_def)

lemma own_inv_cong:
  assumes "\<And>t. live (drv s') t = live (drv s) t" and "next_tid (drv s') = next_tid (drv s)"
    and "owner s' = owner s" and "\<And>c. ctid (cpc s' c) = ctid (cpc s c)"
  shows "own_inv s \<Longrightarrow> own_inv s'"
  using assms by (simp add: own_inv_def)

lemma own_inv_step: "step s l s' \<Longrightarrow> own_inv s \<Longrightarrow> own_inv s'"
proof (induction rule: step.induct)
  case (fs_new s c junk t)
  note inv = own_invD [OF fs_new.prems]
  have fresh: "\<not> live (drv s) (next_tid (drv s))"
    using inv(3) by blast
  then have "ctid (cpc s c') \<noteq> Some (next_tid (drv s))" for c'
    using inv(2) by blast
  moreover have "live (drv s) t' \<Longrightarrow> owner s t' \<noteq> c" for t'
    using inv(4) [of t'] fs_new.hyps by auto
  ultimately show ?case
    using fs_new.hyps fresh inv by (auto simp: own_inv_def intro: less_SucI)
next
  case (fs_free s c t u)
  note inv = own_invD [OF fs_free.prems]
  have "ctid (cpc s c') = Some t \<Longrightarrow> c' = c" for c'
    using inv(1) [of c' t] inv(1) [of c t] fs_free.hyps by simp
  moreover have "live (drv s) t' \<Longrightarrow> t' \<noteq> t \<Longrightarrow> owner s t' \<noteq> c" for t'
    using inv(4) [of t'] fs_free.hyps by auto
  ultimately show ?case
    using fs_free.hyps inv by (auto simp: own_inv_def)
qed (erule own_inv_cong [rotated -1]; simp)+

lemma pending_ctid: "pending pc = Some t \<Longrightarrow> ctid pc = Some t"
  by (cases pc) auto

lemma list_invD:
  assumes "list_inv s"
  shows "distinct (Uvfs_requests (drv s))" "distinct (Uvfs_replies (drv s))"
    and "set (Uvfs_requests (drv s)) \<inter> set (Uvfs_replies (drv s)) = {}"
    and "t \<in> listed (drv s) \<Longrightarrow> \<not> t_answered (the_trans (drv s) t)"
    and "t \<in> listed (drv s) \<Longrightarrow> pending (cpc s (owner s t)) = Some t"
    and "cpc s c = C_check t \<Longrightarrow> \<not> csig s c \<Longrightarrow> t_answered (the_trans (drv s) t)"
    and "cpc s c = C_new t \<Longrightarrow> \<not> t_answered (the_trans (drv s) t)"
    and "cpc s c = C_built t \<Longrightarrow> \<not> t_answered (the_trans (drv s) t)"
    and "spc s r = S_write f t n \<Longrightarrow> t \<notin> listed (drv s)"
  using assms by (auto simp: list_inv_def, blast)

lemma list_invI:
  assumes "distinct (Uvfs_requests (drv s) @ Uvfs_replies (drv s))"
    and "\<And>t. t \<in> listed (drv s) \<Longrightarrow> \<not> t_answered (the_trans (drv s) t)"
    and "\<And>t. t \<in> listed (drv s) \<Longrightarrow> pending (cpc s (owner s t)) = Some t"
    and "\<And>c t. cpc s c = C_check t \<Longrightarrow> \<not> csig s c \<Longrightarrow> t_answered (the_trans (drv s) t)"
    and "\<And>c t. cpc s c = C_new t \<or> cpc s c = C_built t \<Longrightarrow> \<not> t_answered (the_trans (drv s) t)"
    and "\<And>r f t n. spc s r = S_write f t n \<Longrightarrow> t \<notin> listed (drv s)"
  shows "list_inv s"
  using assms by (auto simp: list_inv_def)

lemma list_inv_init: "init_sys s \<Longrightarrow> list_inv s"
  by (simp add: init_sys_def list_inv_def init_driver_def listed_def)

lemma listed_live: "queue_inv s \<Longrightarrow> t \<in> listed (drv s) \<Longrightarrow> live (drv s) t"
  using list_invD(5) own_invD(2) pending_ctid unfolding queue_inv_def by blast

text \<open>A file system thread that is not waiting owns no queued transaction.\<close>

lemma listed_owner:
  "queue_inv s \<Longrightarrow> t \<in> listed (drv s) \<Longrightarrow> pending (cpc s c) = None \<Longrightarrow> owner s t \<noteq> c"
  using list_invD(5) unfolding queue_inv_def by fastforce

lemma srv_invD:
  assumes "srv_inv s" "stid (spc s r) = Some t"
  shows "t < next_tid (drv s)" "cpc s (owner s t) \<noteq> C_new t" "cpc s (owner s t) \<noteq> C_built t"
  using assms by (auto simp: srv_inv_def)

lemma srv_inv_init: "init_sys s \<Longrightarrow> srv_inv s"
  by (simp add: init_sys_def srv_inv_def)

text \<open>Server threads only ever hold a transaction that is in a queue when they pick it up.\<close>

lemma srv_inv_move:
  assumes "queue_inv s" and "next_tid (drv s') = next_tid (drv s)"
    and "owner s' = owner s" and "cpc s' = cpc s"
    and "\<And>r t. stid (spc s' r) = Some t \<Longrightarrow> stid (spc s r) = Some t \<or> t \<in> listed (drv s)"
  shows "srv_inv s'"
  unfolding srv_inv_def
proof (intro allI impI)
  fix r t assume "stid (spc s' r) = Some t"
  with assms(5) consider "stid (spc s r) = Some t" | "t \<in> listed (drv s)" by blast
  then show "t < next_tid (drv s') \<and> cpc s' (owner s' t) \<noteq> C_new t \<and> cpc s' (owner s' t) \<noteq> C_built t"
  proof cases
    case 1
    with assms show ?thesis by (auto simp: queue_inv_def dest: srv_invD)
  next
    case 2
    with assms(1) have "live (drv s) t" "pending (cpc s (owner s t)) = Some t"
      by (auto simp: queue_inv_def intro: listed_live list_invD(5))
    with assms(1-4) show ?thesis
      by (auto simp: queue_inv_def intro: own_invD(3))
  qed
qed

lemma read_take_listed: "fst (uvfsd_read_loop r d) = Read_take t \<Longrightarrow> t \<in> listed d"
  by (cases rule: read_loop_cases [of d r]) (auto simp: listed_def)

lemma write_found_listed: "fst (uvfsd_write_lookup n d) = Some t \<Longrightarrow> t \<in> listed d"
  by (cases rule: write_lookup_cases [of n d]) (auto simp: listed_def)

lemma stid_read_pc: "stid (read_pc f n) = Some t \<Longrightarrow> n = Read_take t"
  by (cases n) auto

lemma stid_write_pc: "stid (write_pc f k found) = Some t \<Longrightarrow> found = Some t"
  by (cases found) auto

lemma listed_woken [simp]: "listed (uvfsd_read_woken r d) = listed d"
  by (simp add: listed_def)

lemma srv_inv_step: "step s l s' \<Longrightarrow> queue_inv s \<Longrightarrow> srv_inv s'"
proof (induction rule: step.induct)
  case (sv_read s r f)
  then show ?case
    by - (rule srv_inv_move [of s], auto dest!: stid_read_pc read_take_listed split: if_splits)
next
  case (sv_resume s r f d)
  then show ?case
    by - (rule srv_inv_move [of s], auto dest!: stid_read_pc read_take_listed split: if_splits)
next
  case (sv_write s r f count h n)
  then show ?case
    by - (rule srv_inv_move [of s], auto dest!: stid_write_pc write_found_listed split: if_splits)
next
  case (sv_copied s r f t bs)
  then show ?case
    by - (rule srv_inv_move [of s], auto split: if_splits)
next
  case (fs_new s c junk t)
  then show ?case
    by (auto simp: queue_inv_def srv_inv_def intro: less_SucI)
next
  case (fs_fill s c t u)
  then have "owner s t = c" "srv_inv s"
    by (auto simp: queue_inv_def intro: own_invD(1))
  with fs_fill.hyps show ?case
    by (auto simp: srv_inv_def)
qed (auto simp: queue_inv_def srv_inv_def split: if_splits)

lemma list_inv_cong:
  assumes "list_inv s" and "Uvfs_requests (drv s') = Uvfs_requests (drv s)"
    and "Uvfs_replies (drv s') = Uvfs_replies (drv s)"
    and "\<And>t. t_answered (the_trans (drv s') t) = t_answered (the_trans (drv s) t)"
    and "cpc s' = cpc s" and "owner s' = owner s" and "\<And>c. csig s c \<Longrightarrow> csig s' c"
    and "\<And>r f t n. spc s' r = S_write f t n \<Longrightarrow> spc s r = S_write f t n"
  shows "list_inv s'"
  using assms(2-) list_invD [OF assms(1)]
  by (intro list_invI) (auto simp: listed_def, blast+)

lemma pending_same_owner:
  assumes "queue_inv s" and "t' \<in> listed (drv s)" and "ctid (cpc s c) = Some t" and "t' \<noteq> t"
  shows "owner s t' \<noteq> c"
proof
  assume "owner s t' = c"
  with assms(1,2) have "pending (cpc s c) = Some t'"
    by (auto simp: queue_inv_def dest: list_invD(5))
  with assms(3,4) show False
    by (auto dest: pending_ctid)
qed

text \<open>A file system thread moves on; at most its own transaction leaves the queues.\<close>

lemma list_inv_client:
  assumes inv: "queue_inv s" and own: "ctid (cpc s c) = Some t"
    and lists: "distinct (Uvfs_requests (drv s') @ Uvfs_replies (drv s'))"
      "listed (drv s') \<subseteq> listed (drv s)"
    and answ: "\<And>t'. t_answered (the_trans (drv s') t') = t_answered (the_trans (drv s) t')"
    and same: "spc s' = spc s" "owner s' = owner s" "csig s' = csig s" "cpc s' = (cpc s)(c := pc)"
    and pc: "t \<in> listed (drv s') \<Longrightarrow> pending pc = Some t"
      "pc = C_check t \<Longrightarrow> csig s c \<or> t_answered (the_trans (drv s) t)"
      "pc = C_built t \<Longrightarrow> cpc s c = C_new t" "pc \<noteq> C_new t" "ctid pc = Some t"
  shows "list_inv s'"
proof (rule list_invI)
  have li: "list_inv s" using inv by (simp add: queue_inv_def)
  show "distinct (Uvfs_requests (drv s') @ Uvfs_replies (drv s'))" by (rule lists)
  fix t' c' r f n
  show "t' \<in> listed (drv s') \<Longrightarrow> \<not> t_answered (the_trans (drv s') t')"
    using li lists(2) answ by (auto dest: list_invD(4))
  show "t' \<in> listed (drv s') \<Longrightarrow> pending (cpc s' (owner s' t')) = Some t'"
    using pending_same_owner [OF inv _ own, of t'] list_invD(5) [OF li, of t'] lists(2) same pc(1)
      own_invD(1) [of s c t] own inv
    by (cases "t' = t") (auto simp: queue_inv_def)
  show "cpc s' c' = C_check t' \<Longrightarrow> \<not> csig s' c' \<Longrightarrow> t_answered (the_trans (drv s') t')"
    using list_invD(6) [OF li, of c' t'] same answ pc(2,5) by (auto split: if_splits)
  show "cpc s' c' = C_new t' \<or> cpc s' c' = C_built t' \<Longrightarrow> \<not> t_answered (the_trans (drv s') t')"
    using list_invD(7,8) [OF li, of c' t'] same answ pc(3,4,5) list_invD(7) [OF li, of c t]
    by (auto split: if_splits)
  show "spc s' r = S_write f t' n \<Longrightarrow> t' \<notin> listed (drv s')"
    using list_invD(9) [OF li, of r f t' n] same lists(2) by auto
qed

lemma listed_frame [simp]:
  "listed (upd_trans t f d) = listed d" "listed (touch t d) = listed d"
  "listed (kfree_trans t d) = listed d"
  by (simp_all add: listed_def)

lemma check_answered [simp]:
  "t_answered (the_trans (snd (make_request_check sig t d)) t') = t_answered (the_trans d t')"
  by (simp add: check_cases trans_upd_trans)

lemma kfree_trans_other:
  "t_answered (the_trans (kfree_trans t d) t') = (t' \<noteq> t \<and> t_answered (the_trans d t'))"
  by (simp add: kfree_trans_def the_trans_def)

lemma listed_cancel: "distinct (Uvfs_requests d) \<Longrightarrow> distinct (Uvfs_replies d) \<Longrightarrow>
   listed (make_request_cancel t d) = listed d - {t}"
  by (auto simp: listed_def)

text \<open>A transaction whose owner is not waiting is in no queue.\<close>

lemma not_listed:
  assumes "queue_inv s" and "ctid (cpc s c) = Some t" and "pending (cpc s c) = None"
  shows "t \<notin> listed (drv s)"
  using assms listed_owner [OF assms(1) _ assms(3)] own_invD(1) [of s c t]
  by (auto simp: queue_inv_def)

lemma listed_submit:
  "uvfs_use_count d \<noteq> 0 \<Longrightarrow> listed (snd (make_request_submit t d)) = insert t (listed d)"
  "uvfs_use_count d = 0 \<Longrightarrow> listed (snd (make_request_submit t d)) = listed d"
  by (auto simp: listed_def)

lemma list_inv_submit:
  assumes inv: "queue_inv s" and pc: "cpc s c = C_built t" and up: "uvfs_use_count (drv s) \<noteq> 0"
  shows "list_inv (s\<lparr>drv := snd (make_request_submit t (drv s)), cpc := (cpc s)(c := C_waiting t)\<rparr>)"
    (is "list_inv ?s'")
proof (rule list_invI)
  have li: "list_inv s" and oi: "own_inv s" and si: "srv_inv s"
    using inv by (simp_all add: queue_inv_def)
  have nl: "t \<notin> listed (drv s)" by (rule not_listed [OF inv, of c]) (simp_all add: pc)
  have ow: "owner s t = c" using own_invD(1) [OF oi, of c t] pc by simp
  note simps = up listed_submit(1) [OF up]
  show "distinct (Uvfs_requests (drv ?s') @ Uvfs_replies (drv ?s'))"
    using list_invD(1-3) [OF li] nl up by (auto simp: listed_def)
  fix t' c' r f n
  show "t' \<in> listed (drv ?s') \<Longrightarrow> \<not> t_answered (the_trans (drv ?s') t')"
    using list_invD(4) [OF li, of t'] list_invD(8) [OF li pc] by (auto simp: simps)
  show "t' \<in> listed (drv ?s') \<Longrightarrow> pending (cpc ?s' (owner ?s' t')) = Some t'"
    using list_invD(5) [OF li, of t'] pending_same_owner [OF inv, of t' c t] pc ow
    by (auto simp: simps)
  show "cpc ?s' c' = C_check t' \<Longrightarrow> \<not> csig ?s' c' \<Longrightarrow> t_answered (the_trans (drv ?s') t')"
    using list_invD(6) [OF li, of c' t'] by (auto simp: simps split: if_splits)
  show "cpc ?s' c' = C_new t' \<or> cpc ?s' c' = C_built t' \<Longrightarrow> \<not> t_answered (the_trans (drv ?s') t')"
    using list_invD(7,8) [OF li, of c' t'] by (auto simp: simps split: if_splits)
  show "spc ?s' r = S_write f t' n \<Longrightarrow> t' \<notin> listed (drv ?s')"
    using list_invD(9) [OF li, of r f t' n] srv_invD(3) [OF si, of r t'] pc ow by (auto simp: simps)
qed

lemma read_loop_lists:
  assumes "distinct (Uvfs_requests d @ Uvfs_replies d)"
  shows "distinct (Uvfs_requests (snd (uvfsd_read_loop r d)) @ Uvfs_replies (snd (uvfsd_read_loop r d)))"
    (is ?dist)
    and "listed (snd (uvfsd_read_loop r d)) = listed d" (is ?same)
proof -
  show ?dist
  proof (cases rule: read_loop_cases [of d r])
    case (take t ts d')
    with assms show ?thesis by simp
  qed (use assms in simp_all)
  show ?same
  proof (cases rule: read_loop_cases [of d r])
    case (take t ts d')
    then show ?thesis by (simp add: listed_def)
  qed (simp_all add: listed_def)
qed

lemma write_lookup_lists:
  assumes "distinct (Uvfs_requests d @ Uvfs_replies d)"
  shows "distinct (Uvfs_requests (snd (uvfsd_write_lookup n d)) @ Uvfs_replies (snd (uvfsd_write_lookup n d)))"
    (is ?dist)
    and "listed (snd (uvfsd_write_lookup n d)) = listed d - set_option (fst (uvfsd_write_lookup n d))"
    (is ?rest)
proof -
  show ?dist
  proof (cases rule: write_lookup_cases [of n d])
    case (found t d')
    with assms show ?thesis by auto
  qed (use assms in simp)
  show ?rest
  proof (cases rule: write_lookup_cases [of n d])
    case (found t d')
    with assms show ?thesis by (auto simp: listed_def)
  qed (simp add: listed_def)
qed

lemma write_pc_S_write: "write_pc f k found = S_write f' t n \<Longrightarrow> found = Some t"
  by (cases found) auto

lemma read_pc_S_write [simp]: "read_pc f n \<noteq> S_write f' t k"
  by (cases n) auto

text \<open>One pass through the loop of \<open>uvfsd_read\<close> moves at most one transaction between the queues.\<close>

lemma list_inv_read:
  assumes li: "list_inv s" and d: "Uvfs_requests d = Uvfs_requests (drv s)"
    "Uvfs_replies d = Uvfs_replies (drv s)" "\<And>t. the_trans d t = the_trans (drv s) t"
  shows "list_inv (s\<lparr>drv := snd (uvfsd_read_loop r d),
                     spc := (spc s)(r := read_pc f (fst (uvfsd_read_loop r d)))\<rparr>)"
    (is "list_inv ?s'")
proof (rule list_invI)
  have dist: "distinct (Uvfs_requests d @ Uvfs_replies d)" and "listed d = listed (drv s)"
    using list_invD(1-3) [OF li] d by (auto simp: listed_def)
  then have lists: "listed (snd (uvfsd_read_loop r d)) = listed (drv s)"
    by (simp add: read_loop_lists)
  show "distinct (Uvfs_requests (drv ?s') @ Uvfs_replies (drv ?s'))"
    using read_loop_lists(1) [OF dist] by simp
  fix t' c' r' f' n
  show "t' \<in> listed (drv ?s') \<Longrightarrow> \<not> t_answered (the_trans (drv ?s') t')"
    "t' \<in> listed (drv ?s') \<Longrightarrow> pending (cpc ?s' (owner ?s' t')) = Some t'"
    "cpc ?s' c' = C_check t' \<Longrightarrow> \<not> csig ?s' c' \<Longrightarrow> t_answered (the_trans (drv ?s') t')"
    "cpc ?s' c' = C_new t' \<or> cpc ?s' c' = C_built t' \<Longrightarrow> \<not> t_answered (the_trans (drv ?s') t')"
    "spc ?s' r' = S_write f' t' n \<Longrightarrow> t' \<notin> listed (drv ?s')"
    using lists list_invD [OF li] d(3) by (auto split: if_splits)
qed

lemma list_inv_write:
  assumes li: "list_inv s"
  shows "list_inv (s\<lparr>drv := snd (uvfsd_write_lookup n (drv s)),
                     spc := (spc s)(r := write_pc f k (fst (uvfsd_write_lookup n (drv s))))\<rparr>)"
    (is "list_inv ?s'")
proof (rule list_invI)
  have dist: "distinct (Uvfs_requests (drv s) @ Uvfs_replies (drv s))"
    using list_invD(1-3) [OF li] by simp
  note lists = write_lookup_lists(2) [OF dist, of n]
  show "distinct (Uvfs_requests (drv ?s') @ Uvfs_replies (drv ?s'))"
    using write_lookup_lists(1) [OF dist] by simp
  fix t' c' r' f' m
  show "t' \<in> listed (drv ?s') \<Longrightarrow> \<not> t_answered (the_trans (drv ?s') t')"
    "t' \<in> listed (drv ?s') \<Longrightarrow> pending (cpc ?s' (owner ?s' t')) = Some t'"
    "cpc ?s' c' = C_check t' \<Longrightarrow> \<not> csig ?s' c' \<Longrightarrow> t_answered (the_trans (drv ?s') t')"
    "cpc ?s' c' = C_new t' \<or> cpc ?s' c' = C_built t' \<Longrightarrow> \<not> t_answered (the_trans (drv ?s') t')"
    "spc ?s' r' = S_write f' t' m \<Longrightarrow> t' \<notin> listed (drv ?s')"
    using lists list_invD [OF li] by (auto dest: write_pc_S_write split: if_splits)
qed

lemma list_inv_written:
  assumes inv: "queue_inv s" and pc: "spc s r = S_write f t n"
  shows "list_inv (s\<lparr>drv := uvfsd_write_done t data (drv s), spc := (spc s)(r := S_user)\<rparr>)"
proof -
  have li: "list_inv s" and oi: "own_inv s" and si: "srv_inv s"
    using inv by (simp_all add: queue_inv_def)
  have "t \<notin> listed (drv s)" using list_invD(9) [OF li pc] .
  moreover have "cpc s c \<noteq> C_new t" "cpc s c \<noteq> C_built t" for c
    using srv_invD [OF si, of r t] own_invD(1) [OF oi, of c t] pc by auto
  ultimately show ?thesis
    using list_invD [OF li]
    by (intro list_invI) (auto simp: listed_def split: if_splits)
qed

lemma list_inv_release:
  assumes "step s (L_release f) s'" and inv: "queue_inv s"
  shows "list_inv s'"
proof -
  have li: "list_inv s" using inv by (simp add: queue_inv_def)
  have "t \<notin> listed (drv s)" if "cpc s c = C_new t \<or> cpc s c = C_built t" for c t
    by (rule not_listed [OF inv, of c]) (use that in auto)
  with assms(1) show ?thesis
    using list_invD [OF li]
    by (elim step_releaseE, intro list_invI) (auto simp: listed_def release_trans eio_answer_def split: if_splits)
qed

lemma list_inv_new:
  assumes "step s (L_new c junk) s'" and inv: "queue_inv s"
  shows "list_inv s'"
proof -
  have li: "list_inv s" and oi: "own_inv s" using inv by (simp_all add: queue_inv_def)
  have fresh: "\<not> live (drv s) (next_tid (drv s))"
    using own_invD(3) [OF oi] by blast
  then have "cpc s c' \<noteq> C_check (next_tid (drv s))" for c'
    using own_invD(2) [OF oi, of c'] by auto
  with assms(1) show ?thesis
    using list_invD [OF li] listed_owner [OF inv, where c = c] listed_live [OF inv] own_invD(2) [OF oi] fresh
    by (elim step_newE, intro list_invI) (auto simp: listed_def split: if_splits)
qed

lemma list_inv_submitted:
  assumes "step s (L_submit c) s'" and inv: "queue_inv s"
  shows "list_inv s'"
proof -
  obtain t where s': "s' = s\<lparr>drv := snd (make_request_submit t (drv s)),
      cpc := (cpc s)(c := if fst (make_request_submit t (drv s)) then C_waiting t else C_done t)\<rparr>"
    and pc: "cpc s c = C_built t"
    using assms(1) by (auto elim: step_submitE)
  show ?thesis
  proof (cases "uvfs_use_count (drv s) = 0")
    case True
    with pc inv not_listed [of s c t] show ?thesis
      unfolding s' by (intro list_inv_client [where s = s and c = c and t = t and pc = "C_done t"])
        (auto simp: queue_inv_def list_invD listed_submit)
  qed (use pc inv s' in \<open>simp add: list_inv_submit\<close>)
qed

lemma list_inv_check:
  assumes "step s (L_check c) s'" and inv: "queue_inv s"
  shows "list_inv s'"
proof -
  obtain t where s': "s' = s\<lparr>drv := snd (make_request_check (csig s c) t (drv s)),
      cpc := (cpc s)(c := if fst (make_request_check (csig s c) t (drv s)) then C_drain t else C_done t)\<rparr>"
    and pc: "cpc s c = C_check t"
    using assms(1) by (auto elim: step_checkE)
  have li: "list_inv s" using inv by (simp add: queue_inv_def)
  show ?thesis
  proof (cases "fst (make_request_check (csig s c) t (drv s))")
    case True
    with pc inv show ?thesis
      unfolding s' by (intro list_inv_client [where s = s and c = c and t = t and pc = "C_drain t"])
        (auto simp: check_cases trans_upd_trans list_invD [OF li] split: if_splits)
  next
    case False
    with pc inv list_invD(3) [OF li] list_invD(4) [OF li, of t] list_invD(6) [OF li, of c t] show ?thesis
      unfolding s' by (intro list_inv_client [where s = s and c = c and t = t and pc = "C_done t"])
        (auto simp: check_cases listed_cancel list_invD(1,2) [OF li] split: if_splits dest: in_set_remove1)
  qed
qed

lemma list_inv_free:
  assumes "step s (L_free c u) s'" and inv: "queue_inv s"
  shows "list_inv s'"
proof -
  obtain t where s': "s' = s\<lparr>drv := kfree_trans t (drv s), cpc := (cpc s)(c := C_idle)\<rparr>"
    and pc: "cpc s c = C_done t"
    using assms(1) by (auto elim: step_freeE)
  have li: "list_inv s" and oi: "own_inv s" using inv by (simp_all add: queue_inv_def)
  have nl: "t \<notin> listed (drv s)"
    by (rule not_listed [OF inv, of c]) (simp_all add: pc)
  have only: "ctid (cpc s c') = Some t \<Longrightarrow> c' = c" for c'
    using own_invD(1) [OF oi, of c' t] own_invD(1) [OF oi, of c t] pc by simp
  have pcs: "cpc s c' \<noteq> C_check t" "cpc s c' \<noteq> C_new t" "cpc s c' \<noteq> C_built t" for c'
    using only [of c'] pc by auto
  show ?thesis
    unfolding s' using nl pcs list_invD [OF li] listed_owner [OF inv, where c = c] pc
    by (intro list_invI) (auto simp: kfree_trans_other split: if_splits)
qed

text \<open>The remaining steps of a file system thread move its position only, or take its own
  transaction out of the queues.\<close>

lemma list_inv_fill: "step s (L_fill c u) s' \<Longrightarrow> queue_inv s \<Longrightarrow> list_inv s'"
  using not_listed [of s c]
  by (elim step_fillE, intro list_inv_client [where s = s and c = c])
    (auto simp: queue_inv_def trans_upd_trans list_invD)

lemma list_inv_wake: "step s (L_wake c) s' \<Longrightarrow> queue_inv s \<Longrightarrow> list_inv s'"
  by (elim step_wakeE, intro list_inv_client [where s = s and c = c]) (auto simp: queue_inv_def list_invD)

lemma list_inv_unused: "step s (L_unused c) s' \<Longrightarrow> queue_inv s \<Longrightarrow> list_inv s'"
  by (elim step_unusedE, intro list_inv_client [where s = s and c = c]) (auto simp: queue_inv_def list_invD)

lemma list_inv_cancel: "step s (L_cancel c) s' \<Longrightarrow> queue_inv s \<Longrightarrow> list_inv s'"
  using list_invD(1-3) [of s]
  by (elim step_cancelE, intro list_inv_client [where s = s and c = c])
    (auto simp: queue_inv_def listed_cancel)

lemma list_inv_server:
  assumes "queue_inv s"
  shows "step s (L_read r f) s' \<Longrightarrow> list_inv s'" and "step s (L_resume r) s' \<Longrightarrow> list_inv s'"
    and "step s (L_write r f count h) s' \<Longrightarrow> list_inv s'" and "step s (L_written r data) s' \<Longrightarrow> list_inv s'"
  using assms list_inv_written [OF assms]
  by (auto simp: queue_inv_def list_inv_read list_inv_write
      elim!: step_readE step_resumeE step_writeE step_writtenE)

lemma list_inv_quiet: "step s l s' \<Longrightarrow> quiet l \<Longrightarrow> queue_inv s \<Longrightarrow> list_inv s'"
  by (induction rule: step.induct) (simp_all, (rule list_inv_cong, auto simp: queue_inv_def split: if_splits)+)

lemmas list_inv_steps = list_inv_release list_inv_new list_inv_submitted list_inv_check list_inv_free list_inv_fill
  list_inv_wake list_inv_unused list_inv_cancel list_inv_server list_inv_quiet

lemma list_inv_step: "step s l s' \<Longrightarrow> queue_inv s \<Longrightarrow> list_inv s'"
  by (cases l) (auto intro: list_inv_steps)

lemma queue_inv_init: "init_sys s \<Longrightarrow> queue_inv s"
  by (simp add: queue_inv_def file_inv_init own_inv_init srv_inv_init list_inv_init)

lemma queue_inv_step: "queue_inv s \<Longrightarrow> step s l s' \<Longrightarrow> queue_inv s'"
  using file_inv_step own_inv_step srv_inv_step list_inv_step
  unfolding queue_inv_def by blast

interpretation queues: invariant_system init_sys step ok queue_inv for ok
  by unfold_locales (auto intro: queue_inv_init queue_inv_step)

end
