(* ===== verification/Uvfs_Requests.thy ===== *)
theory Uvfs_Requests
  imports Uvfs_Machine
begin

text \<open>
  How the operations fill in a request: each builder is the sequence of stores an operation
  makes into the union of a fresh transaction, in the order of the source, on memory whose
  contents are arbitrary. The lemmas give the exact bytes a server reads (the wire form),
  that a server following \<open>protocol.h\<close> reads back the arguments of the operation, and that
  every request is one the driver can carry.
\<close>

section \<open>Builders\<close>

definition write_request :: "u32 \<Rightarrow> u32 \<Rightarrow> u32 \<Rightarrow> uvfs_fhandle_s \<Rightarrow> u32 \<Rightarrow> buf \<Rightarrow> buf \<Rightarrow> buf" where
  "write_request serial uid gid fh offset data u =
     (let s = uvfs_file_write_req_s;
          u = put32 (offsetof s ''type'') UVFS_WRITE u;
          u = put32 (offsetof s ''serial'') serial u;
          u = put32 (offsetof s ''size'') (word_of_nat (offsetof s ''buff'' + length data)) u;
          u = put32 (offsetof s ''uid'') uid u;
          u = put32 (offsetof s ''gid'') gid u;
          u = put_bytes (offsetof s ''fh'') (enc_fhandle fh) u;
          u = put32 (offsetof s ''count'') (word_of_nat (length data)) u;
          u = put32 (offsetof s ''offset'') offset u;
          u = put_bytes (offsetof s ''buff'') data u
      in u)"

definition read_request :: "u32 \<Rightarrow> u32 \<Rightarrow> u32 \<Rightarrow> uvfs_fhandle_s \<Rightarrow> u32 \<Rightarrow> u32 \<Rightarrow> buf \<Rightarrow> buf" where
  "read_request serial uid gid fh count offset u =
     (let s = uvfs_file_read_req_s;
          u = put32 (offsetof s ''type'') UVFS_READ u;
          u = put32 (offsetof s ''serial'') serial u;
          u = put32 (offsetof s ''size'') (word_of_nat (sizeof s)) u;
          u = put32 (offsetof s ''uid'') uid u;
          u = put32 (offsetof s ''gid'') gid u;
          u = put_bytes (offsetof s ''fh'') (enc_fhandle fh) u;
          u = put32 (offsetof s ''count'') count u;
          u = put32 (offsetof s ''offset'') offset u
      in u)"

definition create_request :: "u32 \<Rightarrow> u32 \<Rightarrow> u32 \<Rightarrow> uvfs_fhandle_s \<Rightarrow> u32 \<Rightarrow> buf \<Rightarrow> buf \<Rightarrow> buf" where
  "create_request serial uid gid fh mode name u =
     (let s = uvfs_create_req_s;
          u = put32 (offsetof s ''type'') UVFS_CREATE u;
          u = put32 (offsetof s ''serial'') serial u;
          u = put32 (offsetof s ''size'') (word_of_nat (offsetof s ''name'' + length name)) u;
          u = put_bytes (offsetof s ''name'') name u;
          u = put32 (offsetof s ''namelen'') (word_of_nat (length name)) u;
          u = put_bytes (offsetof s ''fh'') (enc_fhandle fh) u;
          u = put32 (offsetof s ''uid'') uid u;
          u = put32 (offsetof s ''gid'') gid u;
          u = put32 (offsetof s ''mode'') mode u
      in u)"

definition lookup_request :: "u32 \<Rightarrow> u32 \<Rightarrow> u32 \<Rightarrow> uvfs_fhandle_s \<Rightarrow> buf \<Rightarrow> buf \<Rightarrow> buf" where
  "lookup_request serial uid gid fh name u =
     (let s = uvfs_lookup_req_s;
          u = put32 (offsetof s ''type'') UVFS_LOOKUP u;
          u = put32 (offsetof s ''serial'') serial u;
          u = put32 (offsetof s ''size'') (word_of_nat (offsetof s ''name'' + length name)) u;
          u = put_bytes (offsetof s ''name'') name u;
          u = put32 (offsetof s ''namelen'') (word_of_nat (length name)) u;
          u = put32 (offsetof s ''uid'') uid u;
          u = put32 (offsetof s ''gid'') gid u;
          u = put_bytes (offsetof s ''fh'') (enc_fhandle fh) u
      in u)"

definition unlink_request :: "u32 \<Rightarrow> u32 \<Rightarrow> u32 \<Rightarrow> uvfs_fhandle_s \<Rightarrow> buf \<Rightarrow> buf \<Rightarrow> buf" where
  "unlink_request serial uid gid fh name u =
     (let s = uvfs_unlink_req_s;
          u = put32 (offsetof s ''type'') UVFS_UNLINK u;
          u = put32 (offsetof s ''serial'') serial u;
          u = put32 (offsetof s ''size'') (word_of_nat (offsetof s ''name'' + length name)) u;
          u = put32 (offsetof s ''uid'') uid u;
          u = put32 (offsetof s ''gid'') gid u;
          u = put_bytes (offsetof s ''fh'') (enc_fhandle fh) u;
          u = put_bytes (offsetof s ''name'') name u;
          u = put32 (offsetof s ''namelen'') (word_of_nat (length name)) u
      in u)"

definition symlink_request :: "u32 \<Rightarrow> u32 \<Rightarrow> u32 \<Rightarrow> uvfs_fhandle_s \<Rightarrow> buf \<Rightarrow> buf \<Rightarrow> buf \<Rightarrow> buf" where
  "symlink_request serial uid gid fh name path u =
     (let s = uvfs_symlink_req_s;
          u = put32 (offsetof s ''type'') UVFS_SYMLINK u;
          u = put32 (offsetof s ''serial'') serial u;
          u = put32 (offsetof s ''size'') (word_of_nat (sizeof s)) u;
          u = put32 (offsetof s ''uid'') uid u;
          u = put32 (offsetof s ''gid'') gid u;
          u = put_bytes (offsetof s ''fh'') (enc_fhandle fh) u;
          u = put_bytes (offsetof s ''name'') name u;
          u = put32 (offsetof s ''namelen'') (word_of_nat (length name)) u;
          u = put_bytes (offsetof s ''sympath'') path u;
          u = put32 (offsetof s ''symlen'') (word_of_nat (length path)) u
      in u)"

definition mkdir_request :: "u32 \<Rightarrow> u32 \<Rightarrow> u32 \<Rightarrow> uvfs_fhandle_s \<Rightarrow> u32 \<Rightarrow> buf \<Rightarrow> buf \<Rightarrow> buf" where
  "mkdir_request serial uid gid fh mode name u =
     (let s = uvfs_mkdir_req_s;
          u = put32 (offsetof s ''type'') UVFS_MKDIR u;
          u = put32 (offsetof s ''serial'') serial u;
          u = put32 (offsetof s ''size'') (word_of_nat (offsetof s ''name'' + length name)) u;
          u = put_bytes (offsetof s ''name'') name u;
          u = put32 (offsetof s ''namelen'') (word_of_nat (length name)) u;
          u = put_bytes (offsetof s ''fh'') (enc_fhandle fh) u;
          u = put32 (offsetof s ''uid'') uid u;
          u = put32 (offsetof s ''gid'') gid u;
          u = put32 (offsetof s ''mode'') mode u
      in u)"

definition rmdir_request :: "u32 \<Rightarrow> u32 \<Rightarrow> u32 \<Rightarrow> uvfs_fhandle_s \<Rightarrow> buf \<Rightarrow> buf \<Rightarrow> buf" where
  "rmdir_request serial uid gid fh name u =
     (let s = uvfs_rmdir_req_s;
          u = put32 (offsetof s ''type'') UVFS_RMDIR u;
          u = put32 (offsetof s ''serial'') serial u;
          u = put32 (offsetof s ''size'') (word_of_nat (offsetof s ''name'' + length name)) u;
          u = put32 (offsetof s ''uid'') uid u;
          u = put32 (offsetof s ''gid'') gid u;
          u = put_bytes (offsetof s ''fh'') (enc_fhandle fh) u;
          u = put_bytes (offsetof s ''name'') name u;
          u = put32 (offsetof s ''namelen'') (word_of_nat (length name)) u
      in u)"

definition rename_request :: "u32 \<Rightarrow> u32 \<Rightarrow> u32 \<Rightarrow> uvfs_fhandle_s \<Rightarrow> buf \<Rightarrow> uvfs_fhandle_s \<Rightarrow> buf \<Rightarrow> buf \<Rightarrow> buf" where
  "rename_request serial uid gid fh_old old_name fh_new new_name u =
     (let s = uvfs_rename_req_s;
          u = put32 (offsetof s ''type'') UVFS_RENAME u;
          u = put32 (offsetof s ''serial'') serial u;
          u = put32 (offsetof s ''size'') (word_of_nat (sizeof s)) u;
          u = put32 (offsetof s ''uid'') uid u;
          u = put32 (offsetof s ''gid'') gid u;
          u = put_bytes (offsetof s ''fh_old'') (enc_fhandle fh_old) u;
          u = put_bytes (offsetof s ''old_name'') old_name u;
          u = put32 (offsetof s ''old_namelen'') (word_of_nat (length old_name)) u;
          u = put_bytes (offsetof s ''fh_new'') (enc_fhandle fh_new) u;
          u = put_bytes (offsetof s ''new_name'') new_name u;
          u = put32 (offsetof s ''new_namelen'') (word_of_nat (length new_name)) u
      in u)"

definition readdir_request :: "u32 \<Rightarrow> u32 \<Rightarrow> u32 \<Rightarrow> uvfs_fhandle_s \<Rightarrow> u32 \<Rightarrow> buf \<Rightarrow> buf" where
  "readdir_request serial uid gid fh entry_no u =
     (let s = uvfs_readdir_req_s;
          u = put32 (offsetof s ''type'') UVFS_READDIR u;
          u = put32 (offsetof s ''serial'') serial u;
          u = put32 (offsetof s ''size'') (word_of_nat (sizeof s)) u;
          u = put32 (offsetof s ''entry_no'') entry_no u;
          u = put32 (offsetof s ''uid'') uid u;
          u = put32 (offsetof s ''gid'') gid u;
          u = put_bytes (offsetof s ''fh'') (enc_fhandle fh) u
      in u)"

definition setattr_request :: "u32 \<Rightarrow> u32 \<Rightarrow> u32 \<Rightarrow> uvfs_fhandle_s \<Rightarrow> setattr_args \<Rightarrow> buf \<Rightarrow> buf" where
  "setattr_request serial uid gid fh sa u =
     (let s = uvfs_setattr_req_s;
          u = put32 (offsetof s ''type'') UVFS_SETATTR u;
          u = put32 (offsetof s ''serial'') serial u;
          u = put32 (offsetof s ''size'') (word_of_nat (sizeof s)) u;
          u = put32 (offsetof s ''uid'') uid u;
          u = put32 (offsetof s ''gid'') gid u;
          u = put_bytes (offsetof s ''fh'') (enc_fhandle fh) u;
          u = put32 (offsetof s ''ia_valid'') (sa_valid sa) u;
          u = put32 (offsetof s ''ia_mode'') (sa_mode sa) u;
          u = put32 (offsetof s ''ia_uid'') (sa_uid sa) u;
          u = put32 (offsetof s ''ia_gid'') (sa_gid sa) u;
          u = put32 (offsetof s ''ia_size'') (sa_size sa) u;
          u = put_bytes (offsetof s ''ia_atime'') (enc_timespec (sa_atime sa)) u;
          u = put_bytes (offsetof s ''ia_mtime'') (enc_timespec (sa_mtime sa)) u;
          u = put_bytes (offsetof s ''ia_ctime'') (enc_timespec (sa_ctime sa)) u
      in u)"

definition getattr_request :: "u32 \<Rightarrow> u32 \<Rightarrow> u32 \<Rightarrow> uvfs_fhandle_s \<Rightarrow> buf \<Rightarrow> buf" where
  "getattr_request serial uid gid fh u =
     (let s = uvfs_getattr_req_s;
          u = put32 (offsetof s ''type'') UVFS_GETATTR u;
          u = put32 (offsetof s ''serial'') serial u;
          u = put32 (offsetof s ''size'') (word_of_nat (sizeof s)) u;
          u = put32 (offsetof s ''uid'') uid u;
          u = put32 (offsetof s ''gid'') gid u;
          u = put_bytes (offsetof s ''fh'') (enc_fhandle fh) u
      in u)"

definition statfs_request :: "u32 \<Rightarrow> uvfs_fhandle_s \<Rightarrow> buf \<Rightarrow> buf" where
  "statfs_request serial fh u =
     (let s = uvfs_statfs_req_s;
          u = put32 (offsetof s ''type'') UVFS_STATFS u;
          u = put32 (offsetof s ''serial'') serial u;
          u = put32 (offsetof s ''size'') (word_of_nat (sizeof s)) u;
          u = put_bytes (offsetof s ''fh'') (enc_fhandle fh) u
      in u)"

definition read_super_request :: "u32 \<Rightarrow> u32 \<Rightarrow> u32 \<Rightarrow> buf \<Rightarrow> buf \<Rightarrow> buf" where
  "read_super_request serial uid gid arg u =
     (let s = uvfs_read_super_req_s;
          u = put32 (offsetof s ''type'') UVFS_READ_SUPER u;
          u = put32 (offsetof s ''serial'') serial u;
          u = put32 (offsetof s ''size'') (word_of_nat (offsetof s ''buff'' + length arg)) u;
          u = put32 (offsetof s ''uid'') uid u;
          u = put32 (offsetof s ''gid'') gid u;
          u = put32 (offsetof s ''arglength'') (word_of_nat (length arg)) u;
          u = put_bytes (offsetof s ''buff'') arg u
      in u)"

definition readlink_request :: "u32 \<Rightarrow> u32 \<Rightarrow> u32 \<Rightarrow> uvfs_fhandle_s \<Rightarrow> buf \<Rightarrow> buf" where
  "readlink_request serial uid gid fh u =
     (let s = uvfs_readlink_req_s;
          u = put32 (offsetof s ''type'') UVFS_READLINK u;
          u = put32 (offsetof s ''serial'') serial u;
          u = put32 (offsetof s ''size'') (word_of_nat (sizeof s)) u;
          u = put32 (offsetof s ''uid'') uid u;
          u = put32 (offsetof s ''gid'') gid u;
          u = put_bytes (offsetof s ''fh'') (enc_fhandle fh) u
      in u)"

section \<open>Bytes on the wire\<close>

text \<open>A buffer cut into consecutive pieces of given sizes.\<close>

fun pieces :: "nat \<Rightarrow> nat list \<Rightarrow> buf \<Rightarrow> buf" where
  "pieces off [] u = []"
| "pieces off (n # ns) u = bytes_at off n u @ pieces (off + n) ns u"

lemma bytes_at_pieces: "bytes_at off (sum_list ns) u = pieces off ns u"
  by (induction ns arbitrary: off) (auto simp flip: bytes_at_join)

lemma delivered_pieces: "request_size u = sum_list ns \<Longrightarrow> delivered u = pieces 0 ns u"
  by (simp add: delivered_def take_eq_bytes_at bytes_at_pieces)

lemma unat_small [simp]: "n < 2 ^ 32 \<Longrightarrow> unat (word_of_nat n :: u32) = n"
  by (simp add: unsigned_of_nat take_bit_eq_mod)

lemma unat_small_sum [simp]:
  assumes "numeral k + n < (2 ^ 32 :: nat)"
  shows "unat (numeral k + word_of_nat n :: u32) = numeral k + n"
proof -
  have "(numeral k + word_of_nat n :: u32) = word_of_nat (numeral k + n)" by simp
  with assms show ?thesis by (simp only: unat_small)
qed

lemmas wire_simps = layout_simps buffer_simps Let_def request_size_def

text \<open>
  The length of the union, one step per store: the general rules \<open>length_put32\<close> and
  \<open>length_put_bytes\<close> would visit the inner buffer twice at every store.
\<close>

lemma union_length:
  "length u = 4156 \<Longrightarrow> off + 4 \<le> 4156 \<Longrightarrow> length (put32 off w u) = 4156"
  "length u = 4156 \<Longrightarrow> off + length bs \<le> 4156 \<Longrightarrow> length (put_bytes off bs u) = 4156"
  by simp_all

declare length_put32 [simp del] length_put_bytes [simp del]

lemmas parse_simps = parse_request_def parse_body_def fld_def fld_fh_def fld_ts_def fld_arr_def


lemma write_wire:
  assumes "length u = sizeof_u" and "length data \<le> PAGE_CACHE_SIZE"
  shows "delivered (write_request serial uid gid fh offset data u) =
    le32 UVFS_WRITE @ le32 serial @ le32 (word_of_nat (60 + length data)) @ le32 uid @
    le32 gid @ enc_fhandle fh @ le32 (word_of_nat (length data)) @ le32 offset @ data"
  using assms
  by (subst delivered_pieces [of _ "[4, 4, 4, 4, 4, 32, 4, 4, length data]"])
    (simp_all add: write_request_def wire_simps union_length)

lemma write_parse:
  assumes "length u = sizeof_u" and "length data \<le> PAGE_CACHE_SIZE"
  shows "parse_request (delivered (write_request serial uid gid fh offset data u)) = Some (serial, Write uid gid fh offset data)"
  using assms by (simp add: write_wire parse_simps wire_simps)

lemma read_wire:
  assumes "length u = sizeof_u"
  shows "delivered (read_request serial uid gid fh count offset u) =
    le32 UVFS_READ @ le32 serial @ le32 60 @ le32 uid @ le32 gid @ enc_fhandle fh @
    le32 count @ le32 offset"
  using assms
  by (subst delivered_pieces [of _ "[4, 4, 4, 4, 4, 32, 4, 4]"])
    (simp_all add: read_request_def wire_simps union_length)

lemma read_parse:
  assumes "length u = sizeof_u"
  shows "parse_request (delivered (read_request serial uid gid fh count offset u)) = Some (serial, Read uid gid fh count offset)"
  using assms by (simp add: read_wire parse_simps wire_simps)

lemma create_wire:
  assumes "length u = sizeof_u" and "length name \<le> UVFS_MAX_NAMELEN"
  shows "delivered (create_request serial uid gid fh mode name u) =
    le32 UVFS_CREATE @ le32 serial @ le32 (word_of_nat (60 + length name)) @ le32 uid @
    le32 gid @ enc_fhandle fh @ le32 mode @ le32 (word_of_nat (length name)) @ name"
  using assms
  by (subst delivered_pieces [of _ "[4, 4, 4, 4, 4, 32, 4, 4, length name]"])
    (simp_all add: create_request_def wire_simps union_length)

lemma create_parse:
  assumes "length u = sizeof_u" and "length name \<le> UVFS_MAX_NAMELEN"
  shows "parse_request (delivered (create_request serial uid gid fh mode name u)) = Some (serial, Create uid gid fh mode name)"
  using assms by (simp add: create_wire parse_simps wire_simps)

lemma lookup_wire:
  assumes "length u = sizeof_u" and "length name \<le> UVFS_MAX_NAMELEN"
  shows "delivered (lookup_request serial uid gid fh name u) =
    le32 UVFS_LOOKUP @ le32 serial @ le32 (word_of_nat (56 + length name)) @ le32 uid @
    le32 gid @ enc_fhandle fh @ le32 (word_of_nat (length name)) @ name"
  using assms
  by (subst delivered_pieces [of _ "[4, 4, 4, 4, 4, 32, 4, length name]"])
    (simp_all add: lookup_request_def wire_simps union_length)

lemma lookup_parse:
  assumes "length u = sizeof_u" and "length name \<le> UVFS_MAX_NAMELEN"
  shows "parse_request (delivered (lookup_request serial uid gid fh name u)) = Some (serial, Lookup uid gid fh name)"
  using assms by (simp add: lookup_wire parse_simps wire_simps)

lemma unlink_wire:
  assumes "length u = sizeof_u" and "length name \<le> UVFS_MAX_NAMELEN"
  shows "delivered (unlink_request serial uid gid fh name u) =
    le32 UVFS_UNLINK @ le32 serial @ le32 (word_of_nat (56 + length name)) @ le32 uid @
    le32 gid @ enc_fhandle fh @ le32 (word_of_nat (length name)) @ name"
  using assms
  by (subst delivered_pieces [of _ "[4, 4, 4, 4, 4, 32, 4, length name]"])
    (simp_all add: unlink_request_def wire_simps union_length)

lemma unlink_parse:
  assumes "length u = sizeof_u" and "length name \<le> UVFS_MAX_NAMELEN"
  shows "parse_request (delivered (unlink_request serial uid gid fh name u)) = Some (serial, Unlink uid gid fh name)"
  using assms by (simp add: unlink_wire parse_simps wire_simps)

lemma symlink_wire:
  assumes "length u = sizeof_u" and "length name \<le> UVFS_MAX_NAMELEN" and "length path \<le> UVFS_MAX_PATHLEN"
  shows "delivered (symlink_request serial uid gid fh name path u) =
    le32 UVFS_SYMLINK @ le32 serial @ le32 1340 @ le32 uid @ le32 gid @ enc_fhandle fh @
    name @ bytes_at (52 + length name) (256 - length name) u @
    le32 (word_of_nat (length name)) @ path @
    bytes_at (312 + length path) (1024 - length path) u @ le32 (word_of_nat (length path))"
  using assms
  by (subst delivered_pieces [of _ "[4, 4, 4, 4, 4, 32, length name, 256 - length name, 4, length path, 1024 - length path, 4]"])
    (simp_all add: symlink_request_def wire_simps union_length)

lemma symlink_parse:
  assumes "length u = sizeof_u" and "length name \<le> UVFS_MAX_NAMELEN" and "length path \<le> UVFS_MAX_PATHLEN"
  shows "parse_request (delivered (symlink_request serial uid gid fh name path u)) = Some (serial, Symlink uid gid fh name path)"
  using assms by (simp add: symlink_wire parse_simps wire_simps)

lemma mkdir_wire:
  assumes "length u = sizeof_u" and "length name \<le> UVFS_MAX_NAMELEN"
  shows "delivered (mkdir_request serial uid gid fh mode name u) =
    le32 UVFS_MKDIR @ le32 serial @ le32 (word_of_nat (60 + length name)) @ le32 uid @
    le32 gid @ le32 mode @ enc_fhandle fh @ le32 (word_of_nat (length name)) @ name"
  using assms
  by (subst delivered_pieces [of _ "[4, 4, 4, 4, 4, 4, 32, 4, length name]"])
    (simp_all add: mkdir_request_def wire_simps union_length)

lemma mkdir_parse:
  assumes "length u = sizeof_u" and "length name \<le> UVFS_MAX_NAMELEN"
  shows "parse_request (delivered (mkdir_request serial uid gid fh mode name u)) = Some (serial, Mkdir uid gid fh mode name)"
  using assms by (simp add: mkdir_wire parse_simps wire_simps)

lemma rmdir_wire:
  assumes "length u = sizeof_u" and "length name \<le> UVFS_MAX_NAMELEN"
  shows "delivered (rmdir_request serial uid gid fh name u) =
    le32 UVFS_RMDIR @ le32 serial @ le32 (word_of_nat (56 + length name)) @ le32 uid @
    le32 gid @ enc_fhandle fh @ le32 (word_of_nat (length name)) @ name"
  using assms
  by (subst delivered_pieces [of _ "[4, 4, 4, 4, 4, 32, 4, length name]"])
    (simp_all add: rmdir_request_def wire_simps union_length)

lemma rmdir_parse:
  assumes "length u = sizeof_u" and "length name \<le> UVFS_MAX_NAMELEN"
  shows "parse_request (delivered (rmdir_request serial uid gid fh name u)) = Some (serial, Rmdir uid gid fh name)"
  using assms by (simp add: rmdir_wire parse_simps wire_simps)

lemma rename_wire:
  assumes "length u = sizeof_u" and "length old_name \<le> UVFS_MAX_NAMELEN" and "length new_name \<le> UVFS_MAX_NAMELEN"
  shows "delivered (rename_request serial uid gid fh_old old_name fh_new new_name u) =
    le32 UVFS_RENAME @ le32 serial @ le32 604 @ le32 uid @ le32 gid @ enc_fhandle fh_old @
    old_name @ bytes_at (52 + length old_name) (256 - length old_name) u @
    le32 (word_of_nat (length old_name)) @ enc_fhandle fh_new @ new_name @
    bytes_at (344 + length new_name) (256 - length new_name) u @
    le32 (word_of_nat (length new_name))"
  using assms
  by (subst delivered_pieces [of _ "[4, 4, 4, 4, 4, 32, length old_name, 256 - length old_name, 4, 32, length new_name, 256 - length new_name, 4]"])
    (simp_all add: rename_request_def wire_simps union_length)

lemma rename_parse:
  assumes "length u = sizeof_u" and "length old_name \<le> UVFS_MAX_NAMELEN" and "length new_name \<le> UVFS_MAX_NAMELEN"
  shows "parse_request (delivered (rename_request serial uid gid fh_old old_name fh_new new_name u)) = Some (serial, Rename uid gid fh_old old_name fh_new new_name)"
  using assms by (simp add: rename_wire parse_simps wire_simps)

lemma readdir_wire:
  assumes "length u = sizeof_u"
  shows "delivered (readdir_request serial uid gid fh entry_no u) =
    le32 UVFS_READDIR @ le32 serial @ le32 56 @ le32 uid @ le32 gid @ enc_fhandle fh @
    le32 entry_no"
  using assms
  by (subst delivered_pieces [of _ "[4, 4, 4, 4, 4, 32, 4]"])
    (simp_all add: readdir_request_def wire_simps union_length)

lemma readdir_parse:
  assumes "length u = sizeof_u"
  shows "parse_request (delivered (readdir_request serial uid gid fh entry_no u)) = Some (serial, Readdir uid gid fh entry_no)"
  using assms by (simp add: readdir_wire parse_simps wire_simps)

lemma setattr_wire:
  assumes "length u = sizeof_u"
  shows "delivered (setattr_request serial uid gid fh sa u) =
    le32 UVFS_SETATTR @ le32 serial @ le32 96 @ le32 uid @ le32 gid @ enc_fhandle fh @
    le32 (sa_valid sa) @ le32 (sa_uid sa) @ le32 (sa_gid sa) @ le32 (sa_size sa) @
    enc_timespec (sa_atime sa) @ enc_timespec (sa_mtime sa) @ enc_timespec (sa_ctime sa) @
    le32 (sa_mode sa)"
  using assms
  by (subst delivered_pieces [of _ "[4, 4, 4, 4, 4, 32, 4, 4, 4, 4, 8, 8, 8, 4]"])
    (simp_all add: setattr_request_def wire_simps union_length)

lemma setattr_parse:
  assumes "length u = sizeof_u"
  shows "parse_request (delivered (setattr_request serial uid gid fh sa u)) = Some (serial, Setattr uid gid fh sa)"
  using assms by (simp add: setattr_wire parse_simps wire_simps)

lemma getattr_wire:
  assumes "length u = sizeof_u"
  shows "delivered (getattr_request serial uid gid fh u) =
    le32 UVFS_GETATTR @ le32 serial @ le32 52 @ le32 uid @ le32 gid @ enc_fhandle fh"
  using assms
  by (subst delivered_pieces [of _ "[4, 4, 4, 4, 4, 32]"])
    (simp_all add: getattr_request_def wire_simps union_length)

lemma getattr_parse:
  assumes "length u = sizeof_u"
  shows "parse_request (delivered (getattr_request serial uid gid fh u)) = Some (serial, Getattr uid gid fh)"
  using assms by (simp add: getattr_wire parse_simps wire_simps)

lemma statfs_wire:
  assumes "length u = sizeof_u"
  shows "delivered (statfs_request serial fh u) =
    le32 UVFS_STATFS @ le32 serial @ le32 44 @ enc_fhandle fh"
  using assms
  by (subst delivered_pieces [of _ "[4, 4, 4, 32]"])
    (simp_all add: statfs_request_def wire_simps union_length)

lemma statfs_parse:
  assumes "length u = sizeof_u"
  shows "parse_request (delivered (statfs_request serial fh u)) = Some (serial, Statfs fh)"
  using assms by (simp add: statfs_wire parse_simps wire_simps)

lemma read_super_wire:
  assumes "length u = sizeof_u" and "length arg \<le> UVFS_MAX_PATHLEN"
  shows "delivered (read_super_request serial uid gid arg u) =
    le32 UVFS_READ_SUPER @ le32 serial @ le32 (word_of_nat (24 + length arg)) @ le32 uid @
    le32 gid @ le32 (word_of_nat (length arg)) @ arg"
  using assms
  by (subst delivered_pieces [of _ "[4, 4, 4, 4, 4, 4, length arg]"])
    (simp_all add: read_super_request_def wire_simps union_length)

lemma read_super_parse:
  assumes "length u = sizeof_u" and "length arg \<le> UVFS_MAX_PATHLEN"
  shows "parse_request (delivered (read_super_request serial uid gid arg u)) = Some (serial, Read_super uid gid arg)"
  using assms by (simp add: read_super_wire parse_simps wire_simps)

lemma readlink_wire:
  assumes "length u = sizeof_u"
  shows "delivered (readlink_request serial uid gid fh u) =
    le32 UVFS_READLINK @ le32 serial @ le32 52 @ le32 uid @ le32 gid @ enc_fhandle fh"
  using assms
  by (subst delivered_pieces [of _ "[4, 4, 4, 4, 4, 32]"])
    (simp_all add: readlink_request_def wire_simps union_length)

lemma readlink_parse:
  assumes "length u = sizeof_u"
  shows "parse_request (delivered (readlink_request serial uid gid fh u)) = Some (serial, Readlink uid gid fh)"
  using assms by (simp add: readlink_wire parse_simps wire_simps)


section \<open>All requests\<close>

fun build :: "u32 \<Rightarrow> request \<Rightarrow> buf \<Rightarrow> buf" where
  "build serial (Write uid gid fh offset data) = write_request serial uid gid fh offset data"
| "build serial (Read uid gid fh count offset) = read_request serial uid gid fh count offset"
| "build serial (Create uid gid fh mode name) = create_request serial uid gid fh mode name"
| "build serial (Lookup uid gid fh name) = lookup_request serial uid gid fh name"
| "build serial (Unlink uid gid fh name) = unlink_request serial uid gid fh name"
| "build serial (Symlink uid gid fh name path) = symlink_request serial uid gid fh name path"
| "build serial (Mkdir uid gid fh mode name) = mkdir_request serial uid gid fh mode name"
| "build serial (Rmdir uid gid fh name) = rmdir_request serial uid gid fh name"
| "build serial (Rename uid gid fh old_name fh' new_name) =
     rename_request serial uid gid fh old_name fh' new_name"
| "build serial (Readdir uid gid fh entry_no) = readdir_request serial uid gid fh entry_no"
| "build serial (Setattr uid gid fh sa) = setattr_request serial uid gid fh sa"
| "build serial (Getattr uid gid fh) = getattr_request serial uid gid fh"
| "build serial (Statfs fh) = statfs_request serial fh"
| "build serial (Read_super uid gid arg) = read_super_request serial uid gid arg"
| "build serial (Readlink uid gid fh) = readlink_request serial uid gid fh"

text \<open>The bounds the operations check before they build a request.\<close>

fun args_ok :: "request \<Rightarrow> bool" where
  "args_ok (Write uid gid fh offset data) = (length data \<le> PAGE_CACHE_SIZE)"
| "args_ok (Create uid gid fh mode name) = (length name \<le> UVFS_MAX_NAMELEN)"
| "args_ok (Lookup uid gid fh name) = (length name \<le> UVFS_MAX_NAMELEN)"
| "args_ok (Unlink uid gid fh name) = (length name \<le> UVFS_MAX_NAMELEN)"
| "args_ok (Symlink uid gid fh name path) =
     (length name \<le> UVFS_MAX_NAMELEN \<and> length path \<le> UVFS_MAX_PATHLEN)"
| "args_ok (Mkdir uid gid fh mode name) = (length name \<le> UVFS_MAX_NAMELEN)"
| "args_ok (Rmdir uid gid fh name) = (length name \<le> UVFS_MAX_NAMELEN)"
| "args_ok (Rename uid gid fh old_name fh' new_name) =
     (length old_name \<le> UVFS_MAX_NAMELEN \<and> length new_name \<le> UVFS_MAX_NAMELEN)"
| "args_ok (Read_super uid gid arg) = (length arg \<le> UVFS_MAX_PATHLEN)"
| "args_ok _ = True"

text \<open>The two operations that send their whole structure, used or not.\<close>

fun whole_struct :: "request \<Rightarrow> bool" where
  "whole_struct (Symlink uid gid fh name path) = True"
| "whole_struct (Rename uid gid fh old_name fh' new_name) = True"
| "whole_struct _ = False"

lemmas request_defs =
  write_request_def read_request_def create_request_def lookup_request_def unlink_request_def
  symlink_request_def mkdir_request_def rmdir_request_def rename_request_def readdir_request_def
  setattr_request_def getattr_request_def statfs_request_def read_super_request_def
  readlink_request_def

lemmas request_wire =
  write_wire read_wire create_wire lookup_wire unlink_wire symlink_wire mkdir_wire rmdir_wire
  rename_wire readdir_wire setattr_wire getattr_wire statfs_wire read_super_wire readlink_wire

lemmas request_parse =
  write_parse read_parse create_parse lookup_parse unlink_parse symlink_parse mkdir_parse
  rmdir_parse rename_parse readdir_parse setattr_parse getattr_parse statfs_parse
  read_super_parse readlink_parse

lemma build_length: "length u = sizeof_u \<Longrightarrow> args_ok rq \<Longrightarrow> length (build serial rq u) = sizeof_u"
  by (cases rq) (simp_all add: request_defs wire_simps union_length)

lemma build_header:
  assumes "length u = sizeof_u" and "args_ok rq"
  shows "get32 0 (build serial rq u) \<in> {UVFS_WRITE..UVFS_READLINK}"
    and "get32 4 (build serial rq u) = serial"
    and "12 \<le> request_size (build serial rq u) \<and> request_size (build serial rq u) \<le> sizeof_u"
  using assms by (cases rq; simp add: request_defs wire_simps union_length)+

lemma build_wf: "length u = sizeof_u \<Longrightarrow> args_ok rq \<Longrightarrow> wf_request serial (build serial rq u)"
  using build_length [of u rq] build_header [of u rq] by (simp add: wf_request_def layout_simps)

lemma build_parse:
  "length u = sizeof_u \<Longrightarrow> args_ok rq \<Longrightarrow> parse_request (delivered (build serial rq u)) = Some (serial, rq)"
  by (cases rq) (simp_all add: request_parse)

text \<open>
  C11. What a server reads off the device for a request is the request: the serial number of the
  transaction and the arguments of the operation, whatever the fresh memory of the
  transaction held.
\<close>

theorem request_roundtrip:
  assumes "length u = sizeof_u" and "args_ok rq"
  shows "parse_request (delivered (build serial rq u)) = Some (serial, rq)"
  using assms by (rule build_parse)

theorem request_roundtrip_witness:
  "parse_request (delivered (build 7 (Statfs (dec_fhandle [])) (replicate sizeof_u 165))) =
     Some (7, Statfs (dec_fhandle []))"
  by (rule request_roundtrip) simp_all

text \<open>
  Every request an operation builds is one the driver carries: it fills the union exactly,
  names an operation of the protocol and its own serial number, and states a size between
  the generic header and the union.
\<close>

theorem request_well_formed:
  assumes "length u = sizeof_u" and "args_ok rq"
  shows "wf_request serial (build serial rq u)"
  using assms by (rule build_wf)

theorem request_well_formed_witness:
  "wf_request 3 (build 3 (Rmdir 1000 100 (dec_fhandle []) (replicate 256 97)) (replicate sizeof_u 0))"
  by (rule request_well_formed) (simp_all add: layout_simps)

text \<open>
  C12. Except for \<open>symlink\<close> and \<open>rename\<close>, no byte of what the fresh memory of a transaction held
  reaches the server: two runs that differ only in it deliver the same bytes.
\<close>

theorem request_no_leak:
  assumes "length u = sizeof_u" and "length v = sizeof_u" and "args_ok rq" and "\<not> whole_struct rq"
  shows "delivered (build serial rq u) = delivered (build serial rq v)"
  using assms by (cases rq) (simp_all add: request_wire)

theorem request_no_leak_witness:
  "delivered (build 1 (Unlink 0 0 (dec_fhandle []) [102]) (replicate sizeof_u 255)) =
   delivered (build 1 (Unlink 0 0 (dec_fhandle []) [102]) (replicate sizeof_u 0))"
  by (rule request_no_leak) (simp_all add: layout_simps)

text \<open>
  \<open>symlink\<close> and \<open>rename\<close> hand the unused tails of their name arrays to the server: whatever the
  fresh memory held there is delivered.
\<close>

theorem whole_struct_leaks:
  assumes "length u = sizeof_u" and "length name \<le> UVFS_MAX_NAMELEN" and "length path \<le> UVFS_MAX_PATHLEN"
    and "length name' \<le> UVFS_MAX_NAMELEN"
  shows "bytes_at (52 + length name) (256 - length name)
           (delivered (build serial (Symlink uid gid fh name path) u))
         = bytes_at (52 + length name) (256 - length name) u
    \<and> bytes_at (52 + length name) (256 - length name)
           (delivered (build serial (Rename uid gid fh name fh' name') u))
         = bytes_at (52 + length name) (256 - length name) u"
  using assms by (simp add: request_wire buffer_simps layout_simps)

theorem whole_struct_leaks_witness:
  "bytes_at (52 + length [97 :: byte]) (256 - length [97 :: byte])
      (delivered (build 0 (Rename 0 0 (dec_fhandle []) [97] (dec_fhandle []) [98]) (replicate sizeof_u 170)))
    = replicate 255 170"
  using whole_struct_leaks [of "replicate sizeof_u 170" "[97]" "[]" "[98]" 0 0 0 "dec_fhandle []" "dec_fhandle []"]
  by (simp add: layout_simps bytes_at_def)

end
