(* ===== verification/Uvfs_Vfs.thy ===== *)
theory Uvfs_Vfs
  imports Uvfs_Requests
begin

text \<open>
  The state the operations of the file system work on: the inode cache, the exchanges with
  the server still to come, and a record of the calls made into the rest of the kernel.

  An operation runs as one step. What it cannot know is an argument: the \<open>script\<close> says, for
  each transaction it starts, whether memory was available, what the fresh memory held,
  which serial number was issued and how the exchange ended; \<open>task\<close> is the calling thread
  and \<open>kernel\<close> holds the functions of the kernel whose results the code uses. Calls whose
  results are not used are kept as \<open>events\<close>, in order.
\<close>

section \<open>How an exchange with the server ends\<close>

text \<open>
  The ways out of \<open>uvfs_make_request\<close>: no server has the device open; the last one closed it
  while the request was queued; a reply of these bytes was copied over the request; the
  thread was killed before or after a reply had been copied.
\<close>

datatype outcome = No_server | Server_gone | Replied buf | Interrupted "buf option"

fun make_request_result :: "outcome \<Rightarrow> buf \<Rightarrow> buf" where
  "make_request_result No_server u = set_error (-EIO) u"
| "make_request_result Server_gone u = set_error (-EIO) u"
| "make_request_result (Replied data) u = overlay data u"
| "make_request_result (Interrupted None) u = set_error (-ERESTARTSYS) u"
| "make_request_result (Interrupted (Some data)) u = set_error (-ERESTARTSYS) (overlay data u)"

datatype exchange = No_memory | Exchange buf u32 outcome

section \<open>Inodes\<close>

type_synonym iid = nat \<comment> \<open>address of an inode\<close>
type_synonym sbid = nat \<comment> \<open>address of a super block\<close>
type_synonym u16 = "16 word"

record ktimespec =
  k_sec :: u64
  k_nsec :: u64

datatype inode_ops =
    No_inode_operations | Uvfs_file_inode_operations | Uvfs_dir_inode_operations
  | Uvfs_symlink_inode_operations

datatype file_ops = No_file_operations | Uvfs_file_file_operations | Uvfs_dir_file_operations

datatype address_space_ops = No_aops | Uvfs_file_aops

text \<open>
  \<open>uvfs_inode_info\<close> with the fields of the \<open>vfs_inode\<close> it contains that the module uses.
  \<open>i_hash\<close> is the hash value the inode was entered into the inode cache with.
\<close>

record uvfs_inode_info =
  i_fh :: uvfs_fhandle_s
  attr_uid :: u32
  i_sb :: sbid
  i_hash :: u64
  i_ino :: u64
  i_flags :: u32
  i_mode :: u16
  i_nlink :: u32
  i_uid :: u32
  i_gid :: u32
  i_size :: u64
  i_atime :: ktimespec
  i_mtime :: ktimespec
  i_ctime :: ktimespec
  i_blksize :: u32
  i_blocks :: u64
  i_rdev :: u32
  i_op :: inode_ops
  i_fop :: file_ops
  i_aops :: address_space_ops

type_synonym inode_cache = "(iid \<times> uvfs_inode_info) list"

definition S_IFMT :: u16 where "S_IFMT = 0xF000"
definition S_IFREG :: u16 where "S_IFREG = 0x8000"
definition S_IFDIR :: u16 where "S_IFDIR = 0x4000"
definition S_IFLNK :: u16 where "S_IFLNK = 0xA000"
definition S_ISGID :: u16 where "S_ISGID = 0x400"
definition S_IXUGO :: u16 where "S_IXUGO = 0x49"

definition S_ISREG :: "u16 \<Rightarrow> bool" where "S_ISREG m \<longleftrightarrow> m AND S_IFMT = S_IFREG"
definition S_ISDIR :: "u16 \<Rightarrow> bool" where "S_ISDIR m \<longleftrightarrow> m AND S_IFMT = S_IFDIR"
definition S_ISLNK :: "u16 \<Rightarrow> bool" where "S_ISLNK m \<longleftrightarrow> m AND S_IFMT = S_IFLNK"

record dentry =
  d_id :: nat
  d_name :: buf
  d_inode :: "iid option"
  d_parent :: iid \<comment> \<open>the inode of the parent directory\<close>

section \<open>The calling thread and the kernel\<close>

datatype capability = CAP_DAC_OVERRIDE | CAP_DAC_READ_SEARCH

record task =
  fsuid :: u32
  fsgid :: u32
  in_group_p :: "u32 \<Rightarrow> bool"
  capable :: "capability \<Rightarrow> bool"

definition KERNEL_VERSION :: "nat \<Rightarrow> nat \<Rightarrow> nat \<Rightarrow> nat" where
  "KERNEL_VERSION a b c = a * 65536 + b * 256 + c"

text \<open>
  \<open>iget5_locked\<close> returns the inode and whether it carries \<open>I_NEW\<close>; the arguments are the super
  block, the hash value, the comparison and the initialisation function of the module.
\<close>

record kernel =
  LINUX_VERSION_CODE :: nat
  iget5_locked ::
    "sbid \<Rightarrow> u64 \<Rightarrow> (uvfs_inode_info \<Rightarrow> bool) \<Rightarrow> (uvfs_inode_info \<Rightarrow> uvfs_inode_info)
       \<Rightarrow> inode_cache \<Rightarrow> (iid \<times> bool) option \<times> inode_cache"
  ilookup5 :: "sbid \<Rightarrow> u64 \<Rightarrow> (uvfs_inode_info \<Rightarrow> bool) \<Rightarrow> inode_cache \<Rightarrow> iid option"

section \<open>State\<close>

datatype event =
    T_alloc | T_submit buf | T_free
  | K_d_drop nat | K_d_instantiate nat iid | K_d_splice_alias "iid option" nat | K_set_d_op nat
  | K_invalidate_pages iid | K_unlock_new_inode iid | K_init_special_inode iid u16 u32
  | K_iput iid | K_dput iid | K_shrink_dcache_parent nat | K_mark_inode_dirty iid
  | K_display_fhandle uvfs_fhandle_s

record vfs =
  icache :: inode_cache
  script :: "exchange list"
  events :: "event list"

definition ev :: "event \<Rightarrow> vfs \<Rightarrow> vfs" where
  "ev e s = s\<lparr>events := events s @ [e]\<rparr>"

definition blank_inode :: "sbid \<Rightarrow> u64 \<Rightarrow> uvfs_inode_info" where
  "blank_inode sb h =
     \<lparr>i_fh = dec_fhandle [], attr_uid = 0, i_sb = sb, i_hash = h, i_ino = 0, i_flags = 0, i_mode = 0,
      i_nlink = 1, i_uid = 0, i_gid = 0, i_size = 0, i_atime = \<lparr>k_sec = 0, k_nsec = 0\<rparr>,
      i_mtime = \<lparr>k_sec = 0, k_nsec = 0\<rparr>, i_ctime = \<lparr>k_sec = 0, k_nsec = 0\<rparr>, i_blksize = 0,
      i_blocks = 0, i_rdev = 0, i_op = No_inode_operations, i_fop = No_file_operations,
      i_aops = No_aops\<rparr>"

definition in_cache :: "iid \<Rightarrow> vfs \<Rightarrow> bool" where
  "in_cache i s \<longleftrightarrow> i \<in> fst ` set (icache s)"

text \<open>Reading and writing through a pointer to an inode.\<close>

definition the_inode :: "iid \<Rightarrow> vfs \<Rightarrow> uvfs_inode_info" where
  "the_inode i s = (case map_of (icache s) i of Some n \<Rightarrow> n | None \<Rightarrow> blank_inode 0 0)"

definition upd_cache :: "iid \<Rightarrow> (uvfs_inode_info \<Rightarrow> uvfs_inode_info) \<Rightarrow> inode_cache \<Rightarrow> inode_cache" where
  "upd_cache i f C = map (\<lambda>(j, n). (j, if j = i then f n else n)) C"

definition upd_inode :: "iid \<Rightarrow> (uvfs_inode_info \<Rightarrow> uvfs_inode_info) \<Rightarrow> vfs \<Rightarrow> vfs" where
  "upd_inode i f s = s\<lparr>icache := upd_cache i f (icache s)\<rparr>"

section \<open>Transactions\<close>

record vtrans =
  tr_u :: buf
  tr_serial :: u32
  tr_outcome :: outcome

definition vfs_new_transaction :: "vfs \<Rightarrow> vtrans option \<times> vfs" where
  "vfs_new_transaction s = (case script s of
       Exchange junk n out # xs \<Rightarrow>
         (Some \<lparr>tr_u = junk, tr_serial = n, tr_outcome = out\<rparr>, ev T_alloc (s\<lparr>script := xs\<rparr>))
     | No_memory # xs \<Rightarrow> (None, s\<lparr>script := xs\<rparr>)
     | [] \<Rightarrow> (None, s))"

text \<open>\<open>request\<close> stands for the stores an operation makes into the union, given the serial number.\<close>

definition vfs_make_request :: "(u32 \<Rightarrow> buf \<Rightarrow> buf) \<Rightarrow> vtrans \<Rightarrow> vfs \<Rightarrow> buf \<times> vfs" where
  "vfs_make_request request tr s =
     (let u = request (tr_serial tr) (tr_u tr) in
      (make_request_result (tr_outcome tr) u, ev (T_submit u) s))"

definition kfree :: "vfs \<Rightarrow> vfs" where
  "kfree s = ev T_free s"

text \<open>The error every reply starts with.\<close>

definition reply_error :: "buf \<Rightarrow> int" where
  "reply_error u = sint (get32 (offsetof uvfs_generic_rep_s ''error'') u)"

section \<open>Lemmas\<close>

lemma ev_simps [simp]:
  "icache (ev e s) = icache s" "script (ev e s) = script s" "events (ev e s) = events s @ [e]"
  "the_inode i (ev e s) = the_inode i s" "in_cache i (ev e s) = in_cache i s"
  by (simp_all add: ev_def the_inode_def in_cache_def)

lemma kfree_simps [simp]:
  "icache (kfree s) = icache s" "script (kfree s) = script s" "events (kfree s) = events s @ [T_free]"
  "the_inode i (kfree s) = the_inode i s" "in_cache i (kfree s) = in_cache i s"
  by (simp_all add: kfree_def)

lemma script_simps [simp]:
  "the_inode i (s\<lparr>script := xs\<rparr>) = the_inode i s" "in_cache i (s\<lparr>script := xs\<rparr>) = in_cache i s"
  by (simp_all add: the_inode_def in_cache_def)

lemma map_of_upd_cache: "map_of (upd_cache i f C) j = (if j = i then map_option f (map_of C i) else map_of C j)"
  by (induction C) (auto simp: upd_cache_def)

lemma dom_upd_cache [simp]: "fst ` set (upd_cache i f C) = fst ` set C"
  by (force simp: upd_cache_def)

lemma map_fst_upd_cache [simp]: "map fst (upd_cache i f C) = map fst C"
  by (simp add: upd_cache_def comp_def case_prod_unfold)

lemma upd_inode_simps [simp]:
  "icache (upd_inode i f s) = upd_cache i f (icache s)" "script (upd_inode i f s) = script s"
  "events (upd_inode i f s) = events s" "in_cache j (upd_inode i f s) = in_cache j s"
  by (simp_all add: upd_inode_def in_cache_def)

lemma the_inode_upd:
  "the_inode j (upd_inode i f s) = (if j = i \<and> in_cache i s then f (the_inode i s) else the_inode j s)"
  by (auto simp: the_inode_def in_cache_def map_of_upd_cache map_of_eq_None_iff split: option.split
      dest: map_of_SomeD weak_map_of_SomeI intro: rev_image_eqI)

section \<open>Lemmas: the ends of an exchange\<close>

text \<open>A reply the driver accepts has at least the generic header; one that fits leaves the union whole.\<close>

fun outcome_ok :: "outcome \<Rightarrow> bool" where
  "outcome_ok (Replied data) = (16 \<le> length data \<and> length data \<le> sizeof_u)"
| "outcome_ok (Interrupted (Some data)) = (16 \<le> length data \<and> length data \<le> sizeof_u)"
| "outcome_ok _ = True"

fun exchange_ok :: "exchange \<Rightarrow> bool" where
  "exchange_ok No_memory = True"
| "exchange_ok (Exchange junk n out) = (length junk = sizeof_u \<and> outcome_ok out)"

fun outcome_error :: "outcome \<Rightarrow> int" where
  "outcome_error No_server = - EIO"
| "outcome_error Server_gone = - EIO"
| "outcome_error (Replied data) = sint (get32 12 data)"
| "outcome_error (Interrupted d) = - ERESTARTSYS"

lemma bytes_at_overlay:
  "off + n \<le> length data \<Longrightarrow> bytes_at off n (overlay data u) = bytes_at off n data"
  by (simp add: overlay_def put_bytes_def bytes_at_append_left)

lemma get32_overlay: "off + 4 \<le> length data \<Longrightarrow> get32 off (overlay data u) = get32 off data"
  by (simp add: get32_def bytes_at_overlay)

lemma length_overlay: "length data \<le> length u \<Longrightarrow> length (overlay data u) = length u"
  by (simp add: overlay_def put_bytes_def)

lemma get32_set_error: "16 \<le> length u \<Longrightarrow> get32 12 (set_error e u) = word_of_int e"
  by (simp add: set_error_def layout_simps buffer_simps)

lemma reply_error_result:
  assumes "length u = sizeof_u" and "outcome_ok out"
  shows "reply_error (make_request_result out u) = outcome_error out"
proof -
  have small: "sint (word_of_int (- 5) :: u32) = - 5" "sint (word_of_int (- 512) :: u32) = - 512"
    by (simp_all add: signed_of_int signed_take_bit_eq_if_negative)
  show ?thesis
    using assms small
    by (cases "(out, u)" rule: make_request_result.cases)
      (simp_all add: reply_error_def layout_simps get32_set_error get32_overlay length_overlay)
qed

lemma fld_replied: "off + 4 \<le> length data \<Longrightarrow> get32 off (make_request_result (Replied data) u) = get32 off data"
  by (simp add: get32_overlay)

lemma attr_replied:
  "offsetof st f + 56 \<le> length data \<Longrightarrow>
   fld_attr st f (make_request_result (Replied data) u) = fld_attr st f data"
  by (simp add: fld_attr_def bytes_at_overlay)

lemma fh_replied:
  "offsetof st f + 32 \<le> length data \<Longrightarrow>
   fld_fh st f (make_request_result (Replied data) u) = fld_fh st f data"
  by (simp add: fld_fh_def bytes_at_overlay)

lemma new_transaction_cases:
  obtains (none) s' where "vfs_new_transaction s = (None, s')" "icache s' = icache s"
      "events s' = events s"
  | (some) junk n out xs where "script s = Exchange junk n out # xs"
      "vfs_new_transaction s = (Some \<lparr>tr_u = junk, tr_serial = n, tr_outcome = out\<rparr>,
         ev T_alloc (s\<lparr>script := xs\<rparr>))"
  by (cases "script s"; cases "hd (script s)") (auto simp: vfs_new_transaction_def)

lemma new_transaction_simps [simp]:
  "script s = [] \<Longrightarrow> vfs_new_transaction s = (None, s)"
  "script s = No_memory # xs \<Longrightarrow> vfs_new_transaction s = (None, s\<lparr>script := xs\<rparr>)"
  "script s = Exchange junk n out # xs \<Longrightarrow> vfs_new_transaction s =
     (Some \<lparr>tr_u = junk, tr_serial = n, tr_outcome = out\<rparr>, ev T_alloc (s\<lparr>script := xs\<rparr>))"
  by (simp_all add: vfs_new_transaction_def)

lemma make_request_simps [simp]:
  "vfs_make_request request \<lparr>tr_u = junk, tr_serial = n, tr_outcome = out\<rparr> s =
     (make_request_result out (request n junk), ev (T_submit (request n junk)) s)"
  by (simp add: vfs_make_request_def Let_def)

end
