(* ===== verification/Uvfs_Inode.thy ===== *)
theory Uvfs_Inode
  imports Uvfs_Vfs "HOL-Library.Sublist"
begin

text \<open>
  The inodes of \<open>src/super.c\<close>: finding or creating the inode of a file handle, and keeping
  its attributes in step with the server. The inode cache of the kernel is a parameter
  with its documented contract (\<open>iget5_contract\<close>); on top of it the module keeps one inode
  per file.
\<close>

section \<open>Operations\<close>

text \<open>Only part of a handle identifies a file: archive, file system object, sandbox.\<close>

definition uvfs_compare_inode :: "uvfs_inode_info \<Rightarrow> uvfs_fhandle_s \<Rightarrow> bool" where
  "uvfs_compare_inode n other \<longleftrightarrow>
     na_aruid (no_narid (i_fh n)) = na_aruid (no_narid other)
   \<and> fs_sfuid (no_fspid (i_fh n)) = fs_sfuid (no_fspid other)
   \<and> fs_sbxid (no_fspid (i_fh n)) = fs_sbxid (no_fspid other)"

definition uvfs_init_inode :: "uvfs_fhandle_s \<Rightarrow> uvfs_inode_info \<Rightarrow> uvfs_inode_info" where
  "uvfs_init_inode fh n = n\<lparr>i_fh := fh\<rparr>"

definition ktime :: "uvfs_timespec_s \<Rightarrow> ktimespec" where
  "ktime t = \<lparr>k_sec = ucast (tv_sec t), k_nsec = ucast (tv_nsec t)\<rparr>"

text \<open>The assignments \<open>uvfs_iget\<close> and \<open>uvfs_refresh_inode\<close> have in common.\<close>

definition set_attributes :: "nat \<Rightarrow> task \<Rightarrow> uvfs_attr_s \<Rightarrow> uvfs_inode_info \<Rightarrow> uvfs_inode_info" where
  "set_attributes version cur fattr n =
     (let n = n\<lparr>i_mode := ucast (a_mode fattr), i_nlink := a_nlink fattr, i_uid := a_uid fattr,
                i_gid := a_gid fattr, i_size := ucast (a_size fattr),
                i_atime := ktime (a_atime fattr), i_mtime := ktime (a_mtime fattr),
                i_ctime := ktime (a_ctime fattr)\<rparr>;
          n = (if version < KERNEL_VERSION 2 6 18 then n\<lparr>i_blksize := a_blksize fattr\<rparr> else n)
      in n\<lparr>i_blocks := ucast (a_blocks fattr), i_rdev := a_devno fattr, attr_uid := fsuid cur\<rparr>)"

definition S_NOATIME :: u32 where "S_NOATIME = 2"
definition S_NOCMTIME :: u32 where "S_NOCMTIME = 128"

text \<open>The operations of a new inode, by the type of the file.\<close>

definition set_operations :: "uvfs_inode_info \<Rightarrow> uvfs_inode_info" where
  "set_operations n =
     (if S_ISREG (i_mode n)
      then n\<lparr>i_op := Uvfs_file_inode_operations, i_fop := Uvfs_file_file_operations,
             i_aops := Uvfs_file_aops\<rparr>
      else if S_ISDIR (i_mode n)
      then n\<lparr>i_op := Uvfs_dir_inode_operations, i_fop := Uvfs_dir_file_operations\<rparr>
      else if S_ISLNK (i_mode n)
      then n\<lparr>i_op := Uvfs_symlink_inode_operations\<rparr>
      else n)"

definition uvfs_refresh_inode :: "kernel \<Rightarrow> task \<Rightarrow> iid \<Rightarrow> uvfs_attr_s \<Rightarrow> vfs \<Rightarrow> vfs" where
  "uvfs_refresh_inode k cur i fattr s =
     (let n = the_inode i s;
          s = (if i_size n \<noteq> ucast (a_size fattr)
                 \<or> k_sec (i_mtime n) \<noteq> ucast (tv_sec (a_mtime fattr))
                 \<or> k_nsec (i_mtime n) \<noteq> ucast (tv_nsec (a_mtime fattr))
               then ev (K_invalidate_pages i) s else s)
      in upd_inode i (set_attributes (LINUX_VERSION_CODE k) cur fattr) s)"

definition uvfs_iget ::
  "kernel \<Rightarrow> task \<Rightarrow> sbid \<Rightarrow> uvfs_fhandle_s \<Rightarrow> uvfs_attr_s \<Rightarrow> vfs \<Rightarrow> iid option \<times> vfs" where
  "uvfs_iget k cur sb fh fattr s =
     (let hash = ucast (fs_sfuid (no_fspid fh)) in
      case iget5_locked k sb hash (\<lambda>n. uvfs_compare_inode n fh) (uvfs_init_inode fh) (icache s) of
        (None, C) \<Rightarrow> (None, s\<lparr>icache := C\<rparr>)
      | (Some (i, is_new), C) \<Rightarrow>
          let s = s\<lparr>icache := C\<rparr> in
          if is_new then
            (let s = upd_inode i (\<lambda>n. set_operations (set_attributes (LINUX_VERSION_CODE k) cur fattr
                       (n\<lparr>i_ino := hash, i_flags := i_flags n OR S_NOATIME OR S_NOCMTIME\<rparr>))) s;
                 m = i_mode (the_inode i s);
                 s = (if S_ISREG m \<or> S_ISDIR m \<or> S_ISLNK m then s
                      else ev (K_init_special_inode i m (a_devno fattr)) s)
             in (Some i, ev (K_unlock_new_inode i) s))
          else (Some i, uvfs_refresh_inode k cur i fattr s))"

definition uvfs_revalidate_inode :: "kernel \<Rightarrow> task \<Rightarrow> iid \<Rightarrow> vfs \<Rightarrow> int \<times> vfs" where
  "uvfs_revalidate_inode k cur i s =
     (case vfs_new_transaction s of
        (None, s) \<Rightarrow> (- ENOMEM, s)
      | (Some tr, s) \<Rightarrow>
          let (u, s) = vfs_make_request
                (\<lambda>n. getattr_request n (fsuid cur) (fsgid cur) (i_fh (the_inode i s))) tr s;
              error = reply_error u;
              s = (if error = 0
                   then uvfs_refresh_inode k cur i (fld_attr uvfs_getattr_rep_s ''a'' u) s else s)
          in (error, kfree s))"

section \<open>The inode cache of the kernel\<close>

text \<open>
  The documented behaviour of \<open>iget5_locked\<close>: it fails and changes nothing, or returns an
  inode of the super block that was entered under this hash value and that the comparison
  accepts, or, when there is none, enters a new inode under a fresh address, initialised
  by the module's function.
\<close>

definition cached :: "inode_cache \<Rightarrow> sbid \<Rightarrow> u64 \<Rightarrow> (uvfs_inode_info \<Rightarrow> bool) \<Rightarrow> iid \<Rightarrow> bool" where
  "cached C sb h test i \<longleftrightarrow>
     (\<exists>n. map_of C i = Some n \<and> i_sb n = sb \<and> i_hash n = h \<and> test n)"

fun iget5_allowed ::
  "sbid \<Rightarrow> u64 \<Rightarrow> (uvfs_inode_info \<Rightarrow> bool) \<Rightarrow> (uvfs_inode_info \<Rightarrow> uvfs_inode_info)
     \<Rightarrow> inode_cache \<Rightarrow> (iid \<times> bool) option \<times> inode_cache \<Rightarrow> bool" where
  "iget5_allowed sb h test init C (None, C') = (C' = C)"
| "iget5_allowed sb h test init C (Some (i, False), C') = (C' = C \<and> cached C sb h test i)"
| "iget5_allowed sb h test init C (Some (i, True), C') =
     ((\<forall>j. \<not> cached C sb h test j) \<and> i \<notin> fst ` set C
      \<and> (\<exists>n. i_sb n = sb \<and> i_hash n = h \<and> C' = (i, init n) # C))"

definition iget5_contract ::
  "(sbid \<Rightarrow> u64 \<Rightarrow> (uvfs_inode_info \<Rightarrow> bool) \<Rightarrow> (uvfs_inode_info \<Rightarrow> uvfs_inode_info)
     \<Rightarrow> inode_cache \<Rightarrow> (iid \<times> bool) option \<times> inode_cache) \<Rightarrow> bool" where
  "iget5_contract get \<longleftrightarrow>
     (\<forall>sb h test init C. iget5_allowed sb h test init C (get sb h test init C))"

definition ilookup5_contract ::
  "(sbid \<Rightarrow> u64 \<Rightarrow> (uvfs_inode_info \<Rightarrow> bool) \<Rightarrow> inode_cache \<Rightarrow> iid option) \<Rightarrow> bool" where
  "ilookup5_contract look \<longleftrightarrow>
     (\<forall>sb h test C i. look sb h test C = Some i \<longrightarrow> cached C sb h test i)"

text \<open>A cache that behaves so, with unlimited memory.\<close>

definition find_cached ::
  "sbid \<Rightarrow> u64 \<Rightarrow> (uvfs_inode_info \<Rightarrow> bool) \<Rightarrow> inode_cache \<Rightarrow> iid option" where
  "find_cached sb h test C =
     map_option fst (find (\<lambda>(i, n). map_of C i = Some n \<and> i_sb n = sb \<and> i_hash n = h \<and> test n) C)"

definition plain_iget5 ::
  "sbid \<Rightarrow> u64 \<Rightarrow> (uvfs_inode_info \<Rightarrow> bool) \<Rightarrow> (uvfs_inode_info \<Rightarrow> uvfs_inode_info)
     \<Rightarrow> inode_cache \<Rightarrow> (iid \<times> bool) option \<times> inode_cache" where
  "plain_iget5 sb h test init C = (case find_cached sb h test C of
       Some i \<Rightarrow> (Some (i, False), C)
     | None \<Rightarrow> (let i = Suc (sum_list (map fst C)) in
                 (Some (i, True), (i, init (blank_inode sb h)) # C)))"

definition plain_kernel :: kernel where
  "plain_kernel = \<lparr>LINUX_VERSION_CODE = KERNEL_VERSION 2 6 32, iget5_locked = plain_iget5,
                   ilookup5 = find_cached\<rparr>"

lemma find_cached_Some: "find_cached sb h test C = Some i \<Longrightarrow> cached C sb h test i"
  by (auto simp: find_cached_def cached_def find_Some_iff dest!: nth_mem)

lemma find_cached_None: "find_cached sb h test C = None \<Longrightarrow> \<not> cached C sb h test i"
  by (auto simp: find_cached_def cached_def find_None_iff dest: map_of_SomeD)

lemma fresh_address: "Suc (sum_list (map fst C)) \<notin> fst ` set C" for C :: inode_cache
proof
  assume "Suc (sum_list (map fst C)) \<in> fst ` set C"
  then have "Suc (sum_list (map fst C)) \<in> set (map fst C)" by simp
  from member_le_sum_list [OF this] show False by simp
qed

lemma plain_contract: "iget5_contract (iget5_locked plain_kernel)" "ilookup5_contract (ilookup5 plain_kernel)"
proof -
  have "i_sb (blank_inode sb h) = sb" "i_hash (blank_inode sb h) = h" for sb h
    by (simp_all add: blank_inode_def)
  then show "iget5_contract (iget5_locked plain_kernel)"
    using fresh_address
    by (fastforce simp: iget5_contract_def plain_kernel_def plain_iget5_def Let_def
        dest: find_cached_Some find_cached_None split: option.split)
  show "ilookup5_contract (ilookup5 plain_kernel)"
    by (simp add: ilookup5_contract_def plain_kernel_def find_cached_Some)
qed

definition good_kernel :: "kernel \<Rightarrow> bool" where
  "good_kernel k \<longleftrightarrow> iget5_contract (iget5_locked k) \<and> ilookup5_contract (ilookup5 k)"

lemma plain_good: "good_kernel plain_kernel"
  by (simp add: good_kernel_def plain_contract)

section \<open>One inode per file\<close>

text \<open>
  The invariant the module keeps on the cache: every inode sits under the hash value of its
  own handle and carries it as its number, and no two inodes of a super block stand for
  the same file.
\<close>

definition sfuid_hash :: "uvfs_fhandle_s \<Rightarrow> u64" where
  "sfuid_hash fh = ucast (fs_sfuid (no_fspid fh))"

definition icache_ok :: "inode_cache \<Rightarrow> bool" where
  "icache_ok C \<longleftrightarrow> distinct (map fst C)
   \<and> (\<forall>i n. map_of C i = Some n \<longrightarrow> i_hash n = sfuid_hash (i_fh n) \<and> i_ino n = i_hash n)
   \<and> (\<forall>i j n m. map_of C i = Some n \<longrightarrow> map_of C j = Some m \<longrightarrow> i_sb n = i_sb m
        \<longrightarrow> uvfs_compare_inode n (i_fh m) \<longrightarrow> i = j)"

lemma icache_okD:
  assumes "icache_ok C"
  shows "distinct (map fst C)"
    and "map_of C i = Some n \<Longrightarrow> i_hash n = sfuid_hash (i_fh n)"
    and "map_of C i = Some n \<Longrightarrow> i_ino n = i_hash n"
    and "map_of C i = Some n \<Longrightarrow> map_of C j = Some m \<Longrightarrow> i_sb n = i_sb m
      \<Longrightarrow> uvfs_compare_inode n (i_fh m) \<Longrightarrow> i = j"
  using assms unfolding icache_ok_def by blast+

text \<open>A change that leaves the identity of an inode alone keeps the invariant.\<close>

definition keeps_identity :: "(uvfs_inode_info \<Rightarrow> uvfs_inode_info) \<Rightarrow> bool" where
  "keeps_identity f \<longleftrightarrow> (\<forall>n. i_fh (f n) = i_fh n \<and> i_sb (f n) = i_sb n \<and> i_hash (f n) = i_hash n
     \<and> i_ino (f n) = i_ino n)"

lemma icache_ok_upd:
  assumes "icache_ok C" and "keeps_identity f"
  shows "icache_ok (upd_cache i f C)"
  unfolding icache_ok_def
proof (intro conjI allI impI)
  show "distinct (map fst (upd_cache i f C))" using icache_okD(1) [OF assms(1)] by simp
  fix j l n m
  assume n: "map_of (upd_cache i f C) j = Some n"
  then obtain n' where n': "map_of C j = Some n'"
    "i_fh n = i_fh n'" "i_sb n = i_sb n'" "i_hash n = i_hash n'" "i_ino n = i_ino n'"
    using assms(2) by (auto simp: map_of_upd_cache keeps_identity_def split: if_splits)
  then show "i_hash n = sfuid_hash (i_fh n)" "i_ino n = i_hash n"
    using icache_okD(2,3) [OF assms(1) n'(1)] by simp_all
  assume m: "map_of (upd_cache i f C) l = Some m"
    and same: "i_sb n = i_sb m" "uvfs_compare_inode n (i_fh m)"
  then obtain m' where m': "map_of C l = Some m'" "i_fh m = i_fh m'" "i_sb m = i_sb m'"
    using assms(2) by (auto simp: map_of_upd_cache keeps_identity_def split: if_splits)
  show "j = l"
    using icache_okD(4) [OF assms(1) n'(1) m'(1)] n' m' same by (simp add: uvfs_compare_inode_def)
qed

lemma set_attributes_identity: "keeps_identity (set_attributes v cur fattr)"
  by (simp add: keeps_identity_def set_attributes_def Let_def)

lemma refresh_ok: "icache_ok (icache s) \<Longrightarrow> icache_ok (icache (uvfs_refresh_inode k cur i fattr s))"
  by (simp add: uvfs_refresh_inode_def Let_def icache_ok_upd set_attributes_identity)


text \<open>What it means that an inode shows the attributes of a reply.\<close>

definition shows_attr :: "uvfs_inode_info \<Rightarrow> uvfs_attr_s \<Rightarrow> bool" where
  "shows_attr n a \<longleftrightarrow> i_mode n = ucast (a_mode a) \<and> i_nlink n = a_nlink a \<and> i_uid n = a_uid a
     \<and> i_gid n = a_gid a \<and> i_size n = ucast (a_size a) \<and> i_atime n = ktime (a_atime a)
     \<and> i_mtime n = ktime (a_mtime a) \<and> i_ctime n = ktime (a_ctime a)
     \<and> i_blocks n = ucast (a_blocks a) \<and> i_rdev n = a_devno a"

lemma set_attributes_shows: "shows_attr (set_attributes v cur fattr n) fattr"
  "attr_uid (set_attributes v cur fattr n) = fsuid cur"
  by (simp_all add: shows_attr_def set_attributes_def Let_def)

definition fill_new :: "kernel \<Rightarrow> task \<Rightarrow> u64 \<Rightarrow> uvfs_attr_s \<Rightarrow> uvfs_inode_info \<Rightarrow> uvfs_inode_info" where
  "fill_new k cur hash fattr n =
     set_operations (set_attributes (LINUX_VERSION_CODE k) cur fattr
       (n\<lparr>i_ino := hash, i_flags := i_flags n OR S_NOATIME OR S_NOCMTIME\<rparr>))"

lemma set_operations_simps [simp]:
  "i_fh (set_operations n) = i_fh n" "i_sb (set_operations n) = i_sb n"
  "i_hash (set_operations n) = i_hash n" "i_ino (set_operations n) = i_ino n"
  "shows_attr (set_operations n) a = shows_attr n a" "attr_uid (set_operations n) = attr_uid n"
  by (simp_all add: set_operations_def shows_attr_def)

lemma set_attributes_simps [simp]:
  "i_fh (set_attributes v cur a n) = i_fh n" "i_sb (set_attributes v cur a n) = i_sb n"
  "i_hash (set_attributes v cur a n) = i_hash n" "i_ino (set_attributes v cur a n) = i_ino n"
  by (simp_all add: set_attributes_def Let_def)

lemma fill_new_simps [simp]:
  "i_fh (fill_new k cur h a n) = i_fh n" "i_sb (fill_new k cur h a n) = i_sb n"
  "i_hash (fill_new k cur h a n) = i_hash n" "i_ino (fill_new k cur h a n) = h"
  "shows_attr (fill_new k cur h a n) a" "attr_uid (fill_new k cur h a n) = fsuid cur"
  by (simp_all add: fill_new_def set_attributes_shows)

lemma compare_init [simp]: "uvfs_compare_inode (uvfs_init_inode fh n) fh"
  by (simp add: uvfs_compare_inode_def uvfs_init_inode_def)

lemma compare_hash: "uvfs_compare_inode n fh \<Longrightarrow> sfuid_hash (i_fh n) = sfuid_hash fh"
  by (simp add: uvfs_compare_inode_def sfuid_hash_def)

text \<open>The three ways \<open>uvfs_iget\<close> can go, for a cache that keeps its contract.\<close>

lemma iget_cases:
  assumes "good_kernel k"
  obtains (fail) "uvfs_iget k cur sb fh a s = (None, s)"
  | (hit) i n where "uvfs_iget k cur sb fh a s = (Some i, uvfs_refresh_inode k cur i a s)"
      "map_of (icache s) i = Some n" "i_sb n = sb" "uvfs_compare_inode n fh"
  | (new) i n s' where "uvfs_iget k cur sb fh a s = (Some i, s')" "i \<notin> fst ` set (icache s)"
      "icache s' = (i, n) # icache s" "i_sb n = sb" "i_fh n = fh" "i_hash n = sfuid_hash fh"
      "i_ino n = sfuid_hash fh" "shows_attr n a" "attr_uid n = fsuid cur" "script s' = script s"
      "\<forall>j. \<not> cached (icache s) sb (sfuid_hash fh) (\<lambda>n. uvfs_compare_inode n fh) j"
      "events s' = events s @ [K_unlock_new_inode i] \<or>
       events s' = events s @ [K_init_special_inode i (i_mode n) (a_devno a), K_unlock_new_inode i]"
proof -
  let ?test = "\<lambda>n. uvfs_compare_inode n fh"
  obtain r C where get: "iget5_locked k sb (sfuid_hash fh) ?test (uvfs_init_inode fh) (icache s) = (r, C)"
    by fastforce
  have con: "iget5_allowed sb (sfuid_hash fh) ?test (uvfs_init_inode fh) (icache s) (r, C)"
    using assms unfolding good_kernel_def iget5_contract_def get [symmetric] by blast
  note iget = uvfs_iget_def sfuid_hash_def [symmetric] get Let_def
  consider "r = None" | i where "r = Some (i, False)" | i where "r = Some (i, True)"
    by (cases r) auto
  then show thesis
  proof cases
    case 1
    with con show ?thesis by (intro fail) (simp add: iget)
  next
    case (2 i)
    with con obtain n where "map_of (icache s) i = Some n" "i_sb n = sb" "uvfs_compare_inode n fh"
      by (auto simp: cached_def)
    with 2 con show ?thesis by (intro hit [of i n]) (auto simp: iget)
  next
    case (3 i)
    with con obtain n where n: "i_sb n = sb" "i_hash n = sfuid_hash fh"
      "C = (i, uvfs_init_inode fh n) # icache s" "i \<notin> fst ` set (icache s)"
      "\<forall>j. \<not> cached (icache s) sb (sfuid_hash fh) ?test j"
      by auto
    have same: "upd_cache i f (icache s) = icache s" for f
      using n(4) by (force simp: upd_cache_def intro!: map_idI)
    show ?thesis
      by (rule new [of i "snd (uvfs_iget k cur sb fh a s)"
              "fill_new k cur (sfuid_hash fh) a (uvfs_init_inode fh n)"])
        (use n 3 same in \<open>auto simp: iget fill_new_def uvfs_init_inode_def upd_cache_def the_inode_def
          set_attributes_shows\<close>)
  qed
qed


lemma icache_ok_new:
  assumes ok: "icache_ok C" and fresh: "i \<notin> fst ` set C" and id: "i_hash n = sfuid_hash (i_fh n)" "i_ino n = i_hash n"
    and none: "\<forall>j. \<not> cached C (i_sb n) (i_hash n) (\<lambda>m. uvfs_compare_inode m (i_fh n)) j"
  shows "icache_ok ((i, n) # C)"
proof -
  have "\<not> uvfs_compare_inode m (i_fh n)" if "map_of C j = Some m" "i_sb m = i_sb n" for j m
    using none that icache_okD(2) [OF ok that(1)] id(1) compare_hash [of m "i_fh n"]
    by (auto simp: cached_def)
  moreover have "uvfs_compare_inode n (i_fh m) = uvfs_compare_inode m (i_fh n)" for m
    by (auto simp: uvfs_compare_inode_def)
  ultimately show ?thesis
    using ok fresh id unfolding icache_ok_def by (auto split: if_splits)
qed

lemma iget_ok:
  assumes "good_kernel k" and "icache_ok (icache s)"
  shows "icache_ok (icache (snd (uvfs_iget k cur sb fh a s)))"
  using assms(1)
proof (cases rule: iget_cases [where cur = cur and sb = sb and fh = fh and a = a and s = s])
  case (new i n s')
  then show ?thesis using icache_ok_new [OF assms(2), of i n] by simp
qed (use assms refresh_ok in auto)

lemma refresh_events:
  "\<exists>es. events (uvfs_refresh_inode k cur i a s) = events s @ es \<and> set es \<subseteq> {K_invalidate_pages i}"
  by (simp add: uvfs_refresh_inode_def Let_def)

lemma refresh_simps [simp]:
  "script (uvfs_refresh_inode k cur i a s) = script s"
  by (simp add: uvfs_refresh_inode_def Let_def)

lemma refresh_inode:
  "the_inode j (uvfs_refresh_inode k cur i a s) =
     (if j = i \<and> in_cache i s
      then set_attributes (LINUX_VERSION_CODE k) cur a (the_inode i s) else the_inode j s)"
  by (simp add: uvfs_refresh_inode_def Let_def the_inode_upd)

lemma map_of_cached: "map_of C i = Some n \<Longrightarrow> i \<in> fst ` set C"
  by (metis domI dom_map_of_conv_image_fst)

lemma iget_script [simp]:
  "good_kernel k \<Longrightarrow> script (snd (uvfs_iget k cur sb fh a s)) = script s"
  by (cases rule: iget_cases [of k cur sb fh a s]) auto

section \<open>Life of a transaction\<close>

text \<open>
  The events of an operation seen by an accountant: a transaction is allocated, submitted
  once and freed once, in this order, before the next one is allocated.
\<close>

datatype stage = Idle | Held | Sent

fun audit :: "stage \<Rightarrow> event list \<Rightarrow> stage option" where
  "audit st [] = Some st"
| "audit st (T_alloc # es) = (if st = Idle then audit Held es else None)"
| "audit st (T_submit u # es) = (if st = Held then audit Sent es else None)"
| "audit st (T_free # es) = (if st = Sent then audit Idle es else None)"
| "audit st (e # es) = audit st es"

lemma audit_append [simp]: "audit st (es @ es') = Option.bind (audit st es) (\<lambda>st'. audit st' es')"
  by (induction st es rule: audit.induct) auto

fun kernel_event :: "event \<Rightarrow> bool" where
  "kernel_event T_alloc = False"
| "kernel_event (T_submit u) = False"
| "kernel_event T_free = False"
| "kernel_event e = True"

lemma audit_kernel: "list_all kernel_event es \<Longrightarrow> audit st es = Some st"
  by (induction st es rule: audit.induct) auto

text \<open>A part of an operation that makes no transaction.\<close>

definition quiet :: "vfs \<Rightarrow> vfs \<Rightarrow> bool" where
  "quiet s s' \<longleftrightarrow> script s' = script s \<and> (\<exists>es. events s' = events s @ es \<and> list_all kernel_event es)"

lemma quiet_refl [simp]: "quiet s s"
  by (simp add: quiet_def)

lemma quiet_trans: "quiet s s' \<Longrightarrow> quiet s' s'' \<Longrightarrow> quiet s s''"
  unfolding quiet_def by (metis append_assoc list_all_append)

lemma quiet_ev [simp]: "kernel_event e \<Longrightarrow> quiet s (ev e s)"
  by (simp add: quiet_def)

lemma quiet_upd [simp]: "quiet s (upd_inode i f s)"
  by (simp add: quiet_def)

lemma quiet_refresh [simp]: "quiet s (uvfs_refresh_inode k cur i a s)"
proof -
  obtain es where "events (uvfs_refresh_inode k cur i a s) = events s @ es" "set es \<subseteq> {K_invalidate_pages i}"
    using refresh_events by blast
  then show ?thesis
    by (fastforce simp: quiet_def list_all_iff)
qed

lemma quiet_iget: "good_kernel k \<Longrightarrow> quiet s (snd (uvfs_iget k cur sb fh a s))"
  by (cases rule: iget_cases [of k cur sb fh a s]) (auto, auto simp: quiet_def)


section \<open>Interface: an operation of the file system\<close>

text \<open>
  What every operation owes the rest of the module: it keeps one inode per file, it leaves no
  transaction behind, and what it submits is a request the driver carries. \<open>runs a b s s'\<close>
  states this for a part of an operation that takes the accountant from \<open>a\<close> to \<open>b\<close>.
\<close>

fun sent_ok :: "event \<Rightarrow> bool" where
  "sent_ok (T_submit u) = (\<exists>n. wf_request n u)"
| "sent_ok e = True"

definition runs :: "stage \<Rightarrow> stage \<Rightarrow> vfs \<Rightarrow> vfs \<Rightarrow> bool" where
  "runs a b s s' \<longleftrightarrow>
     (icache_ok (icache s) \<longrightarrow> icache_ok (icache s')) \<and> suffix (script s') (script s)
   \<and> (\<exists>es. events s' = events s @ es \<and> audit a es = Some b
        \<and> (list_all exchange_ok (script s) \<longrightarrow> list_all sent_ok es))"

lemma runs_refl [simp]: "runs a a s s"
  by (simp add: runs_def)

lemma runs_trans:
  assumes "runs a b s s'" and "runs b c s' s''"
  shows "runs a c s s''"
proof -
  obtain es es' where es: "events s' = events s @ es" "audit a es = Some b"
      "list_all exchange_ok (script s) \<longrightarrow> list_all sent_ok es"
    and es': "events s'' = events s' @ es'" "audit b es' = Some c"
      "list_all exchange_ok (script s') \<longrightarrow> list_all sent_ok es'"
    using assms unfolding runs_def by blast
  have suf: "suffix (script s') (script s)" "suffix (script s'') (script s')"
    using assms unfolding runs_def by blast+
  then have "list_all exchange_ok (script s) \<Longrightarrow> list_all exchange_ok (script s')"
    by (auto simp: suffix_def)
  then have "\<exists>es. events s'' = events s @ es \<and> audit a es = Some c
        \<and> (list_all exchange_ok (script s) \<longrightarrow> list_all sent_ok es)"
    using es es' by (intro exI [of _ "es @ es'"]) auto
  with assms suf show ?thesis
    unfolding runs_def by (blast intro: suffix_order.trans)
qed

lemma kernel_sent_ok: "list_all kernel_event es \<Longrightarrow> list_all sent_ok es"
  by (induction es) (auto elim!: kernel_event.elims)

lemma runs_quiet:
  "quiet s s' \<Longrightarrow> (icache_ok (icache s) \<Longrightarrow> icache_ok (icache s')) \<Longrightarrow> runs a a s s'"
  by (auto simp: runs_def quiet_def audit_kernel kernel_sent_ok)

lemma runs_ev [simp]: "kernel_event e \<Longrightarrow> runs a a s (ev e s)"
  by (rule runs_quiet) simp_all

lemma runs_upd: "keeps_identity f \<Longrightarrow> runs a a s (upd_inode i f s)"
  by (rule runs_quiet) (simp_all add: icache_ok_upd)

lemma runs_refresh [simp]: "runs a a s (uvfs_refresh_inode k cur i fattr s)"
  by (rule runs_quiet) (simp_all add: refresh_ok)

lemma runs_iget: "good_kernel k \<Longrightarrow> runs a a s (snd (uvfs_iget k cur sb fh fattr s))"
  by (rule runs_quiet) (simp_all add: quiet_iget iget_ok)

lemma runs_free [simp]: "runs Sent Idle s (kfree s)"
  by (simp add: runs_def)

lemma runs_none: "vfs_new_transaction s = (None, s') \<Longrightarrow> runs Idle Idle s s'"
  by (auto simp: runs_def vfs_new_transaction_def suffix_Cons split: list.splits exchange.splits)

lemma runs_request:
  assumes "vfs_new_transaction s = (Some tr, s1)"
    and "\<And>n junk. length junk = sizeof_u \<Longrightarrow> wf_request n (req n junk)"
  shows "runs Idle Sent s (snd (vfs_make_request req tr s1))"
proof -
  obtain junk n out xs where "script s = Exchange junk n out # xs"
    "tr = \<lparr>tr_u = junk, tr_serial = n, tr_outcome = out\<rparr>" "s1 = ev T_alloc (s\<lparr>script := xs\<rparr>)"
    using assms(1) by (auto simp: vfs_new_transaction_def split: list.splits exchange.splits)
  with assms(2) show ?thesis
    by (auto simp: runs_def suffix_Cons)
qed

named_theorems runs_intros \<open>steps backwards through an operation\<close>

lemma runs_step [runs_intros]:
  "runs a Sent s s' \<Longrightarrow> runs a Idle s (kfree s')"
  "runs a b s s' \<Longrightarrow> kernel_event e \<Longrightarrow> runs a b s (ev e s')"
  "runs a b s s' \<Longrightarrow> keeps_identity f \<Longrightarrow> runs a b s (upd_inode i f s')"
  "runs a b s s' \<Longrightarrow> runs a b s (uvfs_refresh_inode k cur i fattr s')"
  "runs a b s s' \<Longrightarrow> good_kernel k \<Longrightarrow> runs a b s (snd (uvfs_iget k cur sb fh fattr s'))"
  by (auto intro: runs_trans runs_upd runs_iget)

text \<open>The shape most operations have: one transaction, then the work on the reply.\<close>

lemma runs_transaction:
  assumes "\<And>s n junk. length junk = sizeof_u \<Longrightarrow> wf_request n (req s n junk)"
    and "\<And>u s. runs Sent Idle s (snd (body u s))"
  shows "runs Idle Idle s (snd (case vfs_new_transaction s of
       (None, s) \<Rightarrow> (e, s)
     | (Some tr, s) \<Rightarrow> (case vfs_make_request (req s) tr s of (u, s) \<Rightarrow> body u s)))"
proof (cases "vfs_new_transaction s")
  case (Pair r s1)
  show ?thesis
  proof (cases r)
    case None
    with Pair show ?thesis by (simp add: runs_none)
  next
    case (Some tr)
    obtain u s2 where req: "vfs_make_request (req s1) tr s1 = (u, s2)" by fastforce
    have "runs Idle Sent s s2"
      using runs_request [of s tr s1 "req s1"] assms(1) Pair Some req by simp
    with assms(2) show ?thesis
      using Pair Some req by (auto intro: runs_trans)
  qed
qed

locale vfs_operation =
  fixes op :: "kernel \<Rightarrow> vfs \<Rightarrow> 'r \<times> vfs"
  assumes op_runs: "good_kernel k \<Longrightarrow> runs Idle Idle s (snd (op k s))"
begin

lemma op_cache:
  "good_kernel k \<Longrightarrow> icache_ok (icache s) \<Longrightarrow> icache_ok (icache (snd (op k s)))"
  using op_runs by (simp add: runs_def)

lemma op_audit:
  "good_kernel k \<Longrightarrow> audit Idle (events s) = Some Idle \<Longrightarrow> audit Idle (events (snd (op k s))) = Some Idle"
  using op_runs [of k s] by (auto simp: runs_def)

lemma op_sends:
  assumes "good_kernel k" and "list_all exchange_ok (script s)" and "list_all sent_ok (events s)"
  shows "list_all sent_ok (events (snd (op k s)))"
  using op_runs [OF assms(1), of s] assms(2,3) by (auto simp: runs_def)

end

lemma wf_getattr: "length junk = sizeof_u \<Longrightarrow> wf_request n (getattr_request n uid gid fh junk)"
  using build_wf [of junk "Getattr uid gid fh"] by simp

interpretation revalidate: vfs_operation "\<lambda>k. uvfs_revalidate_inode k cur i" for cur i
proof
  fix k s
  show "runs Idle Idle s (snd (uvfs_revalidate_inode k cur i s))"
    unfolding uvfs_revalidate_inode_def Let_def
    by (rule runs_transaction) (auto simp: wf_getattr intro!: runs_intros)
qed


section \<open>Properties\<close>

lemma iget_result:
  assumes "good_kernel k" and "uvfs_iget k cur sb fh a s = (Some i, s')"
  shows "\<exists>n. map_of (icache s') i = Some n \<and> i_sb n = sb \<and> uvfs_compare_inode n fh
           \<and> shows_attr n a \<and> attr_uid n = fsuid cur"
    and "j \<noteq> i \<Longrightarrow> map_of (icache s') j = map_of (icache s) j"
proof -
  have "(\<exists>n. map_of (icache s') i = Some n \<and> i_sb n = sb \<and> uvfs_compare_inode n fh
           \<and> shows_attr n a \<and> attr_uid n = fsuid cur)
      \<and> (\<forall>j. j \<noteq> i \<longrightarrow> map_of (icache s') j = map_of (icache s) j)"
    using assms(1)
  proof (cases rule: iget_cases [where cur = cur and sb = sb and fh = fh and a = a and s = s])
    case (hit i' n)
    with assms(2) show ?thesis
      by (auto simp: uvfs_refresh_inode_def Let_def map_of_upd_cache set_attributes_shows
          uvfs_compare_inode_def)
  qed (use assms(2) in \<open>auto simp: uvfs_compare_inode_def\<close>)
  then show "\<exists>n. map_of (icache s') i = Some n \<and> i_sb n = sb \<and> uvfs_compare_inode n fh
           \<and> shows_attr n a \<and> attr_uid n = fsuid cur"
    "j \<noteq> i \<Longrightarrow> map_of (icache s') j = map_of (icache s) j" by auto
qed

lemma iget_in_cache:
  assumes "good_kernel k" and "uvfs_iget k cur sb fh a s = (r, s')" and "in_cache j s"
  shows "in_cache j s'"
  using assms(1)
proof (cases rule: iget_cases [where cur = cur and sb = sb and fh = fh and a = a and s = s])
  case (hit i n)
  then show ?thesis using assms(2,3) by (auto simp: uvfs_refresh_inode_def Let_def)
qed (use assms(2,3) in \<open>auto simp: in_cache_def\<close>)

text \<open>
  C14. \<open>uvfs_iget\<close> returns the one inode of the super block that stands for the file of the
  handle: it carries the handle's identity, shows exactly the attributes the server sent,
  and is marked as fetched for the calling user; every other inode is as before, and the
  cache still holds one inode per file.
\<close>

theorem iget_correct:
  assumes "good_kernel k" and "icache_ok (icache s)" and "uvfs_iget k cur sb fh a s = (Some i, s')"
  shows "uvfs_compare_inode (the_inode i s') fh \<and> i_sb (the_inode i s') = sb
    \<and> shows_attr (the_inode i s') a \<and> attr_uid (the_inode i s') = fsuid cur
    \<and> icache_ok (icache s') \<and> (\<forall>j. j \<noteq> i \<longrightarrow> map_of (icache s') j = map_of (icache s) j)"
  using iget_result [OF assms(1,3)] iget_ok [OF assms(1,2), of cur sb fh a] assms(3)
  by (auto simp: the_inode_def)

definition empty_vfs :: vfs where
  "empty_vfs = \<lparr>icache = [], script = [], events = []\<rparr>"

definition root_task :: task where
  "root_task = \<lparr>fsuid = 0, fsgid = 0, in_group_p = (\<lambda>_. False), capable = (\<lambda>_. True)\<rparr>"

definition one_inode :: "exchange list \<Rightarrow> vfs" where
  "one_inode xs = \<lparr>icache = [(7, blank_inode 0 0)], script = xs, events = []\<rparr>"

lemma one_inode_simps [simp]:
  "the_inode 7 (one_inode xs) = blank_inode 0 0" "in_cache i (one_inode xs) = (i = 7)"
  "events (one_inode xs) = []" "script (one_inode xs) = xs"
  by (auto simp: one_inode_def the_inode_def in_cache_def)

lemma empty_ok: "icache_ok (icache empty_vfs)"
  by (simp add: empty_vfs_def icache_ok_def)

theorem iget_correct_witness:
  "shows_attr (the_inode 1 (snd (uvfs_iget plain_kernel root_task 0 (dec_fhandle []) (dec_attr []) empty_vfs)))
     (dec_attr [])"
  using iget_correct [OF plain_good empty_ok, of root_task 0 "dec_fhandle []" "dec_attr []" 1
      "snd (uvfs_iget plain_kernel root_task 0 (dec_fhandle []) (dec_attr []) empty_vfs)"]
  by (simp add: uvfs_iget_def plain_kernel_def plain_iget5_def find_cached_def empty_vfs_def Let_def)


lemma plain_iget_Some: "\<exists>j s'. uvfs_iget plain_kernel cur sb fh a s = (Some j, s')"
  by (cases "find_cached sb (ucast (fs_sfuid (no_fspid fh))) (\<lambda>n. uvfs_compare_inode n fh) (icache s)")
    (simp_all add: uvfs_iget_def plain_kernel_def plain_iget5_def Let_def)

lemma iget_demo:
  "uvfs_iget plain_kernel root_task 0 (dec_fhandle []) (dec_attr []) empty_vfs =
     (Some 1, snd (uvfs_iget plain_kernel root_task 0 (dec_fhandle []) (dec_attr []) empty_vfs))"
  by (simp add: uvfs_iget_def plain_kernel_def plain_iget5_def find_cached_def empty_vfs_def Let_def)


text \<open>
  C16. Refreshing an inode drops its cached pages exactly when the size or the modification time
  the server reports differs from what the inode showed, so pages survive a refresh only
  if both agree.
\<close>

theorem refresh_invalidates:
  assumes "in_cache i s"
  shows "events (uvfs_refresh_inode k cur i a s) = events s @
     (if i_size (the_inode i (uvfs_refresh_inode k cur i a s)) = i_size (the_inode i s)
       \<and> i_mtime (the_inode i (uvfs_refresh_inode k cur i a s)) = i_mtime (the_inode i s)
      then [] else [K_invalidate_pages i])"
proof -
  have "i_size (set_attributes v cur a n) = ucast (a_size a)"
    "i_mtime (set_attributes v cur a n) = ktime (a_mtime a)" for v n
    using set_attributes_shows(1) [of v cur a n] by (simp_all add: shows_attr_def)
  then show ?thesis
    unfolding refresh_inode
    using assms by (cases "i_mtime (the_inode i s)") (auto simp: uvfs_refresh_inode_def Let_def ktime_def)
qed

theorem refresh_invalidates_witness:
  "events (uvfs_refresh_inode plain_kernel root_task 7 ((dec_attr [])\<lparr>a_size := 5\<rparr>) (one_inode [])) =
     [K_invalidate_pages 7]"
  using refresh_invalidates [of 7 "one_inode []" plain_kernel root_task "(dec_attr [])\<lparr>a_size := 5\<rparr>"]
  by (simp add: refresh_inode set_attributes_def Let_def blank_inode_def)

lemma revalidate_spec:
  assumes "script s = Exchange junk n out # xs" and "exchange_ok (Exchange junk n out)"
    and "uvfs_revalidate_inode k cur i s = (error, s')"
  shows "error = outcome_error out \<and> (error \<noteq> 0 \<longrightarrow> icache s' = icache s)
    \<and> (\<forall>data. out = Replied data \<longrightarrow> 72 \<le> length data \<longrightarrow> error = 0 \<longrightarrow> in_cache i s \<longrightarrow>
         shows_attr (the_inode i s') (fld_attr uvfs_getattr_rep_s ''a'' data))"
proof -
  let ?u = "getattr_request n (fsuid cur) (fsgid cur) (i_fh (the_inode i s)) junk"
  have len: "length ?u = sizeof_u"
    using build_length [of junk "Getattr (fsuid cur) (fsgid cur) (i_fh (the_inode i s))" n] assms(2) by simp
  have err: "reply_error (make_request_result out ?u) = outcome_error out"
    using reply_error_result [OF len] assms(2) by simp
  show ?thesis
    using assms(1,3)
    by (auto simp: uvfs_revalidate_inode_def Let_def err refresh_inode set_attributes_shows
        attr_replied layout_simps simp del: make_request_result.simps split: if_splits)
qed

text \<open>
  C17. \<open>uvfs_revalidate_inode\<close> returns what the exchange ended with: the server's error, \<open>-EIO\<close>
  without a server, \<open>-ERESTARTSYS\<close> after a kill. Only if that is 0 is the inode touched, and
  then it shows the attributes of the reply.
\<close>

theorem revalidate_correct:
  assumes "script s = Exchange junk n out # xs" and "exchange_ok (Exchange junk n out)"
    and "uvfs_revalidate_inode k cur i s = (error, s')"
  shows "error = outcome_error out \<and> (error \<noteq> 0 \<longrightarrow> icache s' = icache s)
    \<and> (\<forall>data. out = Replied data \<longrightarrow> 72 \<le> length data \<longrightarrow> error = 0 \<longrightarrow> in_cache i s \<longrightarrow>
         shows_attr (the_inode i s') (fld_attr uvfs_getattr_rep_s ''a'' data))"
  using assms by (rule revalidate_spec)

theorem revalidate_correct_witness:
  "fst (uvfs_revalidate_inode plain_kernel root_task 7
      (one_inode [Exchange (replicate sizeof_u 7) 0 Server_gone])) = - EIO"
proof -
  obtain e s' where
    "uvfs_revalidate_inode plain_kernel root_task 7
      (one_inode [Exchange (replicate sizeof_u 7) 0 Server_gone]) = (e, s')" by fastforce
  moreover from revalidate_correct [OF _ _ this, of "replicate sizeof_u 7" 0 Server_gone "[]"]
  have "e = - EIO" by simp
  ultimately show ?thesis by simp
qed

end
