(* ===== verification/Uvfs_Dir.thy ===== *)
theory Uvfs_Dir
  imports Uvfs_Inode
begin

text \<open>
  The directory operations of \<open>src/dir.c\<close>: creating, looking up, removing and renaming
  entries, and the check of a cached entry. An operation sends one request and works on
  the reply; \<open>entry\<close> is the dentry the kernel passes, and what the operation tells the kernel
  about it (\<open>d_drop\<close>, \<open>d_instantiate\<close>, \<open>d_splice_alias\<close>) is recorded as an event.

  The kernel calls \<open>unlink\<close>, \<open>rmdir\<close> and \<open>rename\<close> with dentries that have an inode; where the
  source follows a null pointer, the model leaves the state alone.
\<close>

section \<open>Creating entries\<close>

text \<open>The group of a new entry: a set-group-ID directory passes on its own.\<close>

definition new_gid :: "task \<Rightarrow> uvfs_inode_info \<Rightarrow> u32" where
  "new_gid cur dir = (if i_mode dir AND S_ISGID \<noteq> 0 then i_gid dir else fsgid cur)"

text \<open>
  What \<open>uvfs_create\<close>, \<open>uvfs_symlink\<close> and \<open>uvfs_mkdir\<close> do with the reply up to the inode; \<open>st\<close> is
  the reply structure.
\<close>

definition instantiate_reply ::
  "kernel \<Rightarrow> task \<Rightarrow> members \<Rightarrow> iid \<Rightarrow> dentry \<Rightarrow> buf \<Rightarrow> vfs \<Rightarrow> int \<times> vfs" where
  "instantiate_reply k cur st dir entry u s =
     (if reply_error u < 0 then (reply_error u, ev (K_d_drop (d_id entry)) s)
      else case uvfs_iget k cur (i_sb (the_inode dir s)) (fld_fh st ''fh'' u) (fld_attr st ''a'' u) s of
        (None, s) \<Rightarrow> (- ENOMEM, s)
      | (Some i, s) \<Rightarrow> (0, ev (K_d_instantiate (d_id entry) i) s))"

definition uvfs_create :: "kernel \<Rightarrow> task \<Rightarrow> iid \<Rightarrow> dentry \<Rightarrow> u32 \<Rightarrow> vfs \<Rightarrow> int \<times> vfs" where
  "uvfs_create k cur dir entry mode s =
     (if length (d_name entry) > UVFS_MAX_NAMELEN then (- ENAMETOOLONG, s)
      else case vfs_new_transaction s of
        (None, s) \<Rightarrow> (- ENOMEM, s)
      | (Some tr, s) \<Rightarrow>
          let (u, s) = vfs_make_request (\<lambda>n. create_request n (fsuid cur)
                (new_gid cur (the_inode dir s)) (i_fh (the_inode dir s)) mode (d_name entry)) tr s;
              (retval, s) = instantiate_reply k cur uvfs_create_rep_s dir entry u s
          in (retval, kfree s))"

definition uvfs_symlink :: "kernel \<Rightarrow> task \<Rightarrow> iid \<Rightarrow> dentry \<Rightarrow> buf \<Rightarrow> vfs \<Rightarrow> int \<times> vfs" where
  "uvfs_symlink k cur dir entry path s =
     (if length (d_name entry) > UVFS_MAX_NAMELEN then (- ENAMETOOLONG, s)
      else if length path > UVFS_MAX_PATHLEN then (- ENAMETOOLONG, s)
      else case vfs_new_transaction s of
        (None, s) \<Rightarrow> (- ENOMEM, s)
      | (Some tr, s) \<Rightarrow>
          let (u, s) = vfs_make_request (\<lambda>n. symlink_request n (fsuid cur)
                (new_gid cur (the_inode dir s)) (i_fh (the_inode dir s)) (d_name entry) path) tr s;
              (error, s) = instantiate_reply k cur uvfs_symlink_rep_s dir entry u s
          in (error, kfree s))"

definition mkdir_mode :: "uvfs_inode_info \<Rightarrow> u32 \<Rightarrow> u32" where
  "mkdir_mode dir mode =
     (let m = mode OR ucast S_IFDIR in if i_mode dir AND S_ISGID \<noteq> 0 then m OR ucast S_ISGID else m)"

definition uvfs_mkdir :: "kernel \<Rightarrow> task \<Rightarrow> iid \<Rightarrow> dentry \<Rightarrow> u32 \<Rightarrow> vfs \<Rightarrow> int \<times> vfs" where
  "uvfs_mkdir k cur dir entry mode s =
     (if length (d_name entry) > UVFS_MAX_NAMELEN then (- ENAMETOOLONG, s)
      else case vfs_new_transaction s of
        (None, s) \<Rightarrow> (- ENOMEM, s)
      | (Some tr, s) \<Rightarrow>
          let (u, s) = vfs_make_request (\<lambda>n. mkdir_request n (fsuid cur)
                (new_gid cur (the_inode dir s)) (i_fh (the_inode dir s))
                (mkdir_mode (the_inode dir s) mode) (d_name entry)) tr s;
              (error, s) = instantiate_reply k cur uvfs_mkdir_rep_s dir entry u s;
              s = (if error = 0 then upd_inode dir (\<lambda>n. n\<lparr>i_nlink := i_nlink n + 1\<rparr>) s else s)
          in (error, kfree s))"

section \<open>Looking up entries\<close>

text \<open>The handle and the attributes are only assigned when a request was made.\<close>

definition uvfs_lookup_by_name ::
  "task \<Rightarrow> iid \<Rightarrow> buf \<Rightarrow> vfs \<Rightarrow> int \<times> (uvfs_fhandle_s \<times> uvfs_attr_s) option \<times> vfs" where
  "uvfs_lookup_by_name cur dir filename s =
     (if length filename > UVFS_MAX_NAMELEN then (- ENAMETOOLONG, None, s)
      else case vfs_new_transaction s of
        (None, s) \<Rightarrow> (- ENOMEM, None, s)
      | (Some tr, s) \<Rightarrow>
          let (u, s) = vfs_make_request (\<lambda>n. lookup_request n (fsuid cur) (fsgid cur)
                (i_fh (the_inode dir s)) filename) tr s
          in (reply_error u,
              Some (fld_fh uvfs_lookup_rep_s ''fh'' u, fld_attr uvfs_lookup_rep_s ''a'' u), kfree s))"

text \<open>
  \<open>splice_alias\<close> is \<open>d_splice_alias\<close> of the kernel: its result is the result of the operation. The
  error pointers assigned before that call have no effect.
\<close>

definition uvfs_lookup ::
  "kernel \<Rightarrow> task \<Rightarrow> (iid option \<Rightarrow> nat \<Rightarrow> 'r) \<Rightarrow> iid \<Rightarrow> dentry \<Rightarrow> vfs \<Rightarrow> 'r \<times> vfs" where
  "uvfs_lookup k cur splice_alias dir entry s =
     (let (err, found, s) = uvfs_lookup_by_name cur dir (d_name entry) s;
          (inode, s) = (case found of
              Some (fh, attr) \<Rightarrow>
                if err < 0 then (None, s) else uvfs_iget k cur (i_sb (the_inode dir s)) fh attr s
            | None \<Rightarrow> (None, s));
          s = ev (K_set_d_op (d_id entry)) s
      in (splice_alias inode (d_id entry), ev (K_d_splice_alias inode (d_id entry)) s))"

section \<open>Removing and renaming entries\<close>

definition sub_nlink :: "u32 \<Rightarrow> uvfs_inode_info \<Rightarrow> uvfs_inode_info" where
  "sub_nlink d n = n\<lparr>i_nlink := i_nlink n - d\<rparr>"

definition add_nlink :: "u32 \<Rightarrow> uvfs_inode_info \<Rightarrow> uvfs_inode_info" where
  "add_nlink d n = n\<lparr>i_nlink := i_nlink n + d\<rparr>"

definition upd_opt :: "iid option \<Rightarrow> (uvfs_inode_info \<Rightarrow> uvfs_inode_info) \<Rightarrow> vfs \<Rightarrow> vfs" where
  "upd_opt i f s = (case i of Some i \<Rightarrow> upd_inode i f s | None \<Rightarrow> s)"

definition uvfs_unlink :: "task \<Rightarrow> iid \<Rightarrow> dentry \<Rightarrow> vfs \<Rightarrow> int \<times> vfs" where
  "uvfs_unlink cur dir entry s =
     (if length (d_name entry) > UVFS_MAX_NAMELEN then (- ENAMETOOLONG, s)
      else case vfs_new_transaction s of
        (None, s) \<Rightarrow> (- ENOMEM, s)
      | (Some tr, s) \<Rightarrow>
          let (u, s) = vfs_make_request (\<lambda>n. unlink_request n (fsuid cur) (fsgid cur)
                (i_fh (the_inode dir s)) (d_name entry)) tr s;
              error = reply_error u;
              s = (if error = 0 then upd_opt (d_inode entry) (sub_nlink 1) s else s)
          in (error, kfree s))"

definition uvfs_rmdir :: "task \<Rightarrow> iid \<Rightarrow> dentry \<Rightarrow> vfs \<Rightarrow> int \<times> vfs" where
  "uvfs_rmdir cur dir entry s =
     (if length (d_name entry) > UVFS_MAX_NAMELEN then (- ENAMETOOLONG, s)
      else case vfs_new_transaction s of
        (None, s) \<Rightarrow> (- ENOMEM, s)
      | (Some tr, s) \<Rightarrow>
          let (u, s) = vfs_make_request (\<lambda>n. rmdir_request n (fsuid cur) (fsgid cur)
                (i_fh (the_inode dir s)) (d_name entry)) tr s;
              error = reply_error u;
              s = (if error = 0
                   then upd_inode dir (sub_nlink 1) (upd_opt (d_inode entry) (sub_nlink 2) s) else s);
              error = (if error = - EREMOTE then - ENOTEMPTY else error)
          in (error, kfree s))"

text \<open>The link counts after the server has renamed; the four inodes need not be distinct.\<close>

definition rename_links :: "iid \<Rightarrow> dentry \<Rightarrow> iid \<Rightarrow> dentry \<Rightarrow> vfs \<Rightarrow> vfs" where
  "rename_links srcdir srcentry dstdir dstentry s =
     (let s = (case d_inode dstentry of
            None \<Rightarrow> s
          | Some dnode \<Rightarrow>
              if S_ISDIR (i_mode (the_inode dnode s))
              then upd_inode dstdir (sub_nlink 1) (upd_inode dnode (sub_nlink 2) s)
              else upd_inode dnode (sub_nlink 1) s)
      in case d_inode srcentry of
           None \<Rightarrow> s
         | Some snode \<Rightarrow>
             if S_ISDIR (i_mode (the_inode snode s))
             then upd_inode srcdir (sub_nlink 1) (upd_inode dstdir (add_nlink 1) s)
             else s)"

definition uvfs_rename :: "task \<Rightarrow> iid \<Rightarrow> dentry \<Rightarrow> iid \<Rightarrow> dentry \<Rightarrow> vfs \<Rightarrow> int \<times> vfs" where
  "uvfs_rename cur srcdir srcentry dstdir dstentry s =
     (if length (d_name srcentry) > UVFS_MAX_NAMELEN \<or> length (d_name dstentry) > UVFS_MAX_NAMELEN
      then (- ENAMETOOLONG, s)
      else case vfs_new_transaction s of
        (None, s) \<Rightarrow> (- ENOMEM, s)
      | (Some tr, s) \<Rightarrow>
          let (u, s) = vfs_make_request (\<lambda>n. rename_request n (fsuid cur) (fsgid cur)
                (i_fh (the_inode srcdir s)) (d_name srcentry)
                (i_fh (the_inode dstdir s)) (d_name dstentry)) tr s;
              error = reply_error u;
              s = (if error = 0 then rename_links srcdir srcentry dstdir dstentry s else s)
          in (error, kfree s))"

section \<open>Checking a cached entry\<close>

text \<open>\<open>submounts\<close> is \<open>have_submounts(dentry)\<close>. The two exits are the labels of the source.\<close>

definition revalidate_out :: "dentry \<Rightarrow> vfs \<Rightarrow> int \<times> vfs" where
  "revalidate_out entry s = (1, ev (K_dput (d_parent entry)) s)"

definition revalidate_out_bad :: "bool \<Rightarrow> dentry \<Rightarrow> vfs \<Rightarrow> int \<times> vfs" where
  "revalidate_out_bad submounts entry s =
     (let is_dir = (case d_inode entry of Some i \<Rightarrow> S_ISDIR (i_mode (the_inode i s)) | None \<Rightarrow> False) in
      if is_dir \<and> submounts then revalidate_out entry s
      else (let s = (if is_dir then ev (K_shrink_dcache_parent (d_id entry)) s else s);
                s = ev (K_d_drop (d_id entry)) s
            in (0, ev (K_dput (d_parent entry)) s)))"

definition uvfs_dentry_revalidate :: "task \<Rightarrow> bool \<Rightarrow> dentry \<Rightarrow> vfs \<Rightarrow> int \<times> vfs" where
  "uvfs_dentry_revalidate cur submounts entry s =
     (case d_inode entry of
        None \<Rightarrow> revalidate_out_bad submounts entry s
      | Some i \<Rightarrow>
          let (error, found, s) = uvfs_lookup_by_name cur (d_parent entry) (d_name entry) s in
          if error \<noteq> 0 then
            (if error = - ERESTARTSYS then revalidate_out entry s
             else revalidate_out_bad submounts entry s)
          else case found of
            None \<Rightarrow> revalidate_out_bad submounts entry s
          | Some (fh, attr) \<Rightarrow>
              if \<not> uvfs_compare_inode (the_inode i s) fh then revalidate_out_bad submounts entry s
              else revalidate_out entry s)"


section \<open>Every operation keeps the interface\<close>

lemma wf_build [simp]:
  assumes "length junk = sizeof_u"
  shows "length name \<le> UVFS_MAX_NAMELEN \<Longrightarrow> wf_request n (create_request n uid gid fh mode name junk)"
    and "length name \<le> UVFS_MAX_NAMELEN \<Longrightarrow> wf_request n (lookup_request n uid gid fh name junk)"
    and "length name \<le> UVFS_MAX_NAMELEN \<Longrightarrow> wf_request n (unlink_request n uid gid fh name junk)"
    and "length name \<le> UVFS_MAX_NAMELEN \<Longrightarrow> wf_request n (mkdir_request n uid gid fh mode name junk)"
    and "length name \<le> UVFS_MAX_NAMELEN \<Longrightarrow> wf_request n (rmdir_request n uid gid fh name junk)"
    and "length name \<le> UVFS_MAX_NAMELEN \<Longrightarrow> length path \<le> UVFS_MAX_PATHLEN \<Longrightarrow>
           wf_request n (symlink_request n uid gid fh name path junk)"
    and "length name \<le> UVFS_MAX_NAMELEN \<Longrightarrow> length name' \<le> UVFS_MAX_NAMELEN \<Longrightarrow>
           wf_request n (rename_request n uid gid fh name fh' name' junk)"
  using build_wf [OF assms, of "Create uid gid fh mode name"] build_wf [OF assms, of "Lookup uid gid fh name"]
    build_wf [OF assms, of "Unlink uid gid fh name"] build_wf [OF assms, of "Mkdir uid gid fh mode name"]
    build_wf [OF assms, of "Rmdir uid gid fh name"] build_wf [OF assms, of "Symlink uid gid fh name path"]
    build_wf [OF assms, of "Rename uid gid fh name fh' name'"]
  by simp_all

lemma nlink_identity [simp]:
  "keeps_identity (sub_nlink d)" "keeps_identity (add_nlink d)"
  "keeps_identity (\<lambda>n. n\<lparr>i_nlink := i_nlink n + d\<rparr>)"
  by (simp_all add: keeps_identity_def sub_nlink_def add_nlink_def)

lemma runs_upd_opt [runs_intros]:
  "runs a b s s' \<Longrightarrow> keeps_identity f \<Longrightarrow> runs a b s (upd_opt i f s')"
  by (cases i) (auto simp: upd_opt_def intro: runs_intros)

lemma runs_rename_links [runs_intros]:
  "runs a b s s' \<Longrightarrow> runs a b s (rename_links srcdir srcentry dstdir dstentry s')"
  by (auto simp: rename_links_def Let_def intro!: runs_intros split: option.split)

lemma runs_instantiate [runs_intros]:
  assumes "runs a b s s'" and "good_kernel k"
  shows "runs a b s (snd (instantiate_reply k cur st dir entry u s'))"
  using runs_step(5) [OF assms]
  by (auto simp: instantiate_reply_def assms(1) intro!: runs_intros split: prod.split option.split)
    (metis snd_conv)+


text \<open>An early return before anything has happened.\<close>

lemma runs_guard:
  "(\<not> c \<Longrightarrow> runs a a s (snd r)) \<Longrightarrow> runs a a s (snd (if c then (e, s) else r))"
  by simp

interpretation create: vfs_operation "\<lambda>k. uvfs_create k cur dir entry mode" for cur dir entry mode
  unfolding uvfs_create_def Let_def
  by (unfold_locales, rule runs_guard, rule runs_transaction)
    (auto simp: split_beta not_less intro!: runs_intros)

interpretation mkdir: vfs_operation "\<lambda>k. uvfs_mkdir k cur dir entry mode" for cur dir entry mode
  unfolding uvfs_mkdir_def Let_def
  by (unfold_locales, rule runs_guard, rule runs_transaction)
    (auto simp: split_beta not_less intro!: runs_intros)

interpretation symlink: vfs_operation "\<lambda>k. uvfs_symlink k cur dir entry path" for cur dir entry path
  unfolding uvfs_symlink_def Let_def
  by (unfold_locales, rule runs_guard, rule runs_guard, rule runs_transaction)
    (auto simp: split_beta not_less intro!: runs_intros)

interpretation unlink: vfs_operation "\<lambda>k. uvfs_unlink cur dir entry" for cur dir entry
  unfolding uvfs_unlink_def Let_def
  by (unfold_locales, rule runs_guard, rule runs_transaction)
    (auto simp: split_beta not_less intro!: runs_intros)

interpretation rmdir: vfs_operation "\<lambda>k. uvfs_rmdir cur dir entry" for cur dir entry
  unfolding uvfs_rmdir_def Let_def
  by (unfold_locales, rule runs_guard, rule runs_transaction)
    (auto simp: split_beta not_less intro!: runs_intros)

interpretation rename: vfs_operation "\<lambda>k. uvfs_rename cur srcdir srcentry dstdir dstentry"
  for cur srcdir srcentry dstdir dstentry
  unfolding uvfs_rename_def Let_def
  by (unfold_locales, rule runs_guard, rule runs_transaction)
    (auto simp: split_beta not_less intro!: runs_intros)

lemma runs_lookup_by_name: "runs Idle Idle s (snd (snd (uvfs_lookup_by_name cur dir name s)))"
proof (cases "length name > UVFS_MAX_NAMELEN")
  case False
  then show ?thesis
    using runs_transaction [of "\<lambda>s n. lookup_request n (fsuid cur) (fsgid cur) (i_fh (the_inode dir s)) name"
        "\<lambda>u s. ((), kfree s)" s "()"]
    by (simp add: uvfs_lookup_by_name_def Let_def split_beta split: option.splits)
qed (simp add: uvfs_lookup_by_name_def)

lemma runs_lookup [runs_intros]:
  "runs a Idle s s' \<Longrightarrow> runs a Idle s (snd (snd (uvfs_lookup_by_name cur dir name s')))"
  using runs_lookup_by_name runs_trans by blast

interpretation lookup: vfs_operation "\<lambda>k. uvfs_lookup k cur splice_alias dir entry"
  for cur splice_alias dir entry
  unfolding uvfs_lookup_def Let_def
  by unfold_locales (auto simp: split_beta intro!: runs_intros split: option.split)

lemma runs_revalidate_out [runs_intros]:
  "runs a b s s' \<Longrightarrow> runs a b s (snd (revalidate_out entry s'))"
  "runs a b s s' \<Longrightarrow> runs a b s (snd (revalidate_out_bad submounts entry s'))"
  by (auto simp: revalidate_out_bad_def revalidate_out_def Let_def intro!: runs_intros)

interpretation dentry_revalidate: vfs_operation "\<lambda>k. uvfs_dentry_revalidate cur submounts entry"
  for cur submounts entry
  unfolding uvfs_dentry_revalidate_def Let_def
  by unfold_locales (auto simp: split_beta intro!: runs_intros split: option.split)


section \<open>What the operations do\<close>

declare make_request_result.simps [simp del] reply_error_result [simp]

lemma length_build [simp]:
  assumes "length junk = sizeof_u"
  shows "length name \<le> UVFS_MAX_NAMELEN \<Longrightarrow> length (create_request n uid gid fh mode name junk) = sizeof_u"
    and "length name \<le> UVFS_MAX_NAMELEN \<Longrightarrow> length (lookup_request n uid gid fh name junk) = sizeof_u"
    and "length name \<le> UVFS_MAX_NAMELEN \<Longrightarrow> length (unlink_request n uid gid fh name junk) = sizeof_u"
    and "length name \<le> UVFS_MAX_NAMELEN \<Longrightarrow> length (mkdir_request n uid gid fh mode name junk) = sizeof_u"
    and "length name \<le> UVFS_MAX_NAMELEN \<Longrightarrow> length (rmdir_request n uid gid fh name junk) = sizeof_u"
    and "length name \<le> UVFS_MAX_NAMELEN \<Longrightarrow> length path \<le> UVFS_MAX_PATHLEN \<Longrightarrow>
           length (symlink_request n uid gid fh name path junk) = sizeof_u"
    and "length name \<le> UVFS_MAX_NAMELEN \<Longrightarrow> length name' \<le> UVFS_MAX_NAMELEN \<Longrightarrow>
           length (rename_request n uid gid fh name fh' name' junk) = sizeof_u"
  using wf_build [OF assms] by (auto simp: wf_request_def)

lemma instantiate_reply_cases:
  assumes "good_kernel k" and "instantiate_reply k cur st dir entry u s = (e, s')"
  obtains (error) "reply_error u < 0" "e = reply_error u" "s' = ev (K_d_drop (d_id entry)) s"
  | (memory) "0 \<le> reply_error u" "e = - ENOMEM" "s' = s"
  | (entered) i s1 where "0 \<le> reply_error u" "e = 0" "s' = ev (K_d_instantiate (d_id entry) i) s1"
      "uvfs_iget k cur (i_sb (the_inode dir s)) (fld_fh st ''fh'' u) (fld_attr st ''a'' u) s = (Some i, s1)"
proof (cases "reply_error u < 0")
  case True
  show ?thesis by (rule error) (use True assms(2) in \<open>simp_all add: instantiate_reply_def\<close>)
next
  case False
  from assms(1) show ?thesis
  proof (cases rule: iget_cases [where cur = cur and sb = "i_sb (the_inode dir s)"
        and fh = "fld_fh st ''fh'' u" and a = "fld_attr st ''a'' u" and s = s])
    case fail
    show ?thesis by (rule memory) (use False fail assms(2) in \<open>simp_all add: instantiate_reply_def\<close>)
  next
    case (hit i n)
    show ?thesis by (rule entered) (use False hit assms(2) in \<open>auto simp: instantiate_reply_def\<close>)
  next
    case (new i n s1)
    show ?thesis by (rule entered) (use False new assms(2) in \<open>auto simp: instantiate_reply_def\<close>)
  qed
qed

lemma instantiate_reply_spec:
  assumes "good_kernel k" and "instantiate_reply k cur st dir entry (make_request_result out u) s = (e, s')"
    and "length u = sizeof_u" and "outcome_ok out"
    and "offsetof st ''fh'' = 16" and "offsetof st ''a'' = 48"
  shows "\<exists>es. events s' = events s @ es
    \<and> (outcome_error out < 0 \<longrightarrow>
         e = outcome_error out \<and> es = [K_d_drop (d_id entry)] \<and> icache s' = icache s)
    \<and> (\<forall>data. out = Replied data \<longrightarrow> 104 \<le> length data \<longrightarrow> 0 \<le> sint (get32 12 data) \<longrightarrow>
         e = - ENOMEM \<and> icache s' = icache s
         \<or> e = 0 \<and> (\<exists>i. suffix [K_d_instantiate (d_id entry) i] es \<and> in_cache i s'
              \<and> uvfs_compare_inode (the_inode i s') (fld_fh st ''fh'' data)
              \<and> shows_attr (the_inode i s') (fld_attr st ''a'' data)))"
  using assms(1,2)
proof (cases rule: instantiate_reply_cases)
  case error
  with assms show ?thesis by (auto simp: attr_replied fh_replied)
next
  case memory
  with assms show ?thesis by auto
next
  case (entered i s1)
  obtain es where es: "events s1 = events s @ es"
    using quiet_iget [OF assms(1), of s cur] entered(4) unfolding quiet_def by (metis snd_conv)
  have res: "in_cache i s1 \<and> uvfs_compare_inode (the_inode i s1) (fld_fh st ''fh'' (make_request_result out u))
     \<and> shows_attr (the_inode i s1) (fld_attr st ''a'' (make_request_result out u))"
    using iget_result(1) [OF assms(1) entered(4)] by (auto simp: the_inode_def in_cache_def dest: map_of_cached)
  show ?thesis
    by (rule exI [of _ "es @ [K_d_instantiate (d_id entry) i]"])
      (use assms entered es res in \<open>auto simp: attr_replied fh_replied\<close>)
qed

text \<open>The common course of the three operations that create an entry.\<close>

lemma creation_spec:
  assumes "good_kernel k" and "script s = Exchange junk n out # xs" and "exchange_ok (Exchange junk n out)"
    and "args_ok rq" and "offsetof st ''fh'' = 16" and "offsetof st ''a'' = 48"
    and "instantiate_reply k cur st dir entry (make_request_result out (build n rq junk))
           (ev (T_submit (build n rq junk)) (ev T_alloc (s\<lparr>script := xs\<rparr>))) = (e, s')"
  shows "\<exists>u es. events s' = events s @ [T_alloc, T_submit u] @ es
    \<and> parse_request (delivered u) = Some (n, rq)
    \<and> (outcome_error out < 0 \<longrightarrow>
         e = outcome_error out \<and> es = [K_d_drop (d_id entry)] \<and> icache s' = icache s)
    \<and> (\<forall>data. out = Replied data \<longrightarrow> 104 \<le> length data \<longrightarrow> 0 \<le> sint (get32 12 data) \<longrightarrow>
         e = - ENOMEM \<and> icache s' = icache s
         \<or> e = 0 \<and> (\<exists>i. suffix [K_d_instantiate (d_id entry) i] es \<and> in_cache i s'
              \<and> uvfs_compare_inode (the_inode i s') (fld_fh st ''fh'' data)
              \<and> shows_attr (the_inode i s') (fld_attr st ''a'' data)))"
proof -
  have len: "length (build n rq junk) = sizeof_u" and ok: "outcome_ok out"
    and parse: "parse_request (delivered (build n rq junk)) = Some (n, rq)"
    using assms(3,4) build_length build_parse by simp_all
  show ?thesis
    using instantiate_reply_spec [OF assms(1,7) len ok assms(5,6)] parse by auto
qed



definition demo_entry :: "nat list \<Rightarrow> iid option \<Rightarrow> dentry" where
  "demo_entry name i = \<lparr>d_id = 40, d_name = map word_of_nat name, d_inode = i, d_parent = 7\<rparr>"

definition killed :: "exchange list" where
  "killed = [Exchange (replicate sizeof_u 90) 3 (Interrupted None)]"




text \<open>
  \<open>uvfs_symlink\<close> passes the name and the target path unchanged; its ends are those of
  \<open>uvfs_create\<close>.
\<close>

theorem symlink_correct:
  assumes "good_kernel k" and "script s = Exchange junk n out # xs" and "exchange_ok (Exchange junk n out)"
    and "length (d_name entry) \<le> UVFS_MAX_NAMELEN" and "length path \<le> UVFS_MAX_PATHLEN"
    and "uvfs_symlink k cur dir entry path s = (e, s')"
  shows "\<exists>u es. events s' = events s @ [T_alloc, T_submit u] @ es @ [T_free]
    \<and> parse_request (delivered u) =
        Some (n, Symlink (fsuid cur) (new_gid cur (the_inode dir s)) (i_fh (the_inode dir s)) (d_name entry) path)
    \<and> (outcome_error out < 0 \<longrightarrow>
         e = outcome_error out \<and> es = [K_d_drop (d_id entry)] \<and> icache s' = icache s)
    \<and> (\<forall>data. out = Replied data \<longrightarrow> 104 \<le> length data \<longrightarrow> 0 \<le> sint (get32 12 data) \<longrightarrow>
         e = - ENOMEM \<and> icache s' = icache s
         \<or> e = 0 \<and> (\<exists>i. suffix [K_d_instantiate (d_id entry) i] es
              \<and> uvfs_compare_inode (the_inode i s') (fld_fh uvfs_symlink_rep_s ''fh'' data)
              \<and> shows_attr (the_inode i s') (fld_attr uvfs_symlink_rep_s ''a'' data)))"
proof -
  let ?rq = "Symlink (fsuid cur) (new_gid cur (the_inode dir s)) (i_fh (the_inode dir s)) (d_name entry) path"
  obtain s1 where ir: "instantiate_reply k cur uvfs_symlink_rep_s dir entry
      (make_request_result out (build n ?rq junk)) (ev (T_submit (build n ?rq junk)) (ev T_alloc (s\<lparr>script := xs\<rparr>)))
      = (e, s1)" and s': "s' = kfree s1"
    using assms(2,4,5,6) by (auto simp: uvfs_symlink_def Let_def split: prod.splits)
  from creation_spec [OF assms(1-3) _ _ _ ir] assms(4,5) s' show ?thesis
    by (fastforce simp: layout_simps)
qed

theorem symlink_correct_witness:
  "fst (uvfs_symlink plain_kernel root_task 7 (demo_entry [108] None) [47, 116] (one_inode killed)) = - ERESTARTSYS"
proof -
  obtain e s' where run: "uvfs_symlink plain_kernel root_task 7 (demo_entry [108] None) [47, 116] (one_inode killed) = (e, s')" by fastforce
  from symlink_correct [OF plain_good _ _ _ _ run, of "replicate sizeof_u 90" 3 "Interrupted None" "[]"]
  have "e = - ERESTARTSYS" by (auto simp: killed_def demo_entry_def layout_simps)
  with run show ?thesis by simp
qed

text \<open>
  C20. When the server removes a file, exactly the inode of the entry loses one link; when it
  refuses, or cannot be reached, the caller gets the error and no inode changes.
\<close>

theorem unlink_correct:
  assumes "script s = Exchange junk n out # xs" and "exchange_ok (Exchange junk n out)"
    and "length (d_name entry) \<le> UVFS_MAX_NAMELEN" and "d_inode entry = Some i" and "in_cache i s"
    and "uvfs_unlink cur dir entry s = (e, s')"
  shows "e = outcome_error out
    \<and> (\<forall>j. the_inode j s' = (if j = i \<and> e = 0 then sub_nlink 1 (the_inode j s) else the_inode j s))"
  using assms
  by (auto simp: uvfs_unlink_def Let_def upd_opt_def the_inode_upd split: if_splits)

theorem unlink_correct_witness:
  "fst (uvfs_unlink root_task 7 (demo_entry [102] (Some 7)) (one_inode killed)) = - ERESTARTSYS"
proof -
  obtain e s' where run: "uvfs_unlink root_task 7 (demo_entry [102] (Some 7)) (one_inode killed) = (e, s')" by fastforce
  from unlink_correct [OF _ _ _ _ _ run, of "replicate sizeof_u 90" 3 "Interrupted None" "[]" 7]
  have "e = - ERESTARTSYS" by (auto simp: killed_def demo_entry_def layout_simps)
  with run show ?thesis by simp
qed

text \<open>
  A removed directory loses its two links (its entry and its own dot), its parent loses the
  one the removed directory's dot-dot gave it. The server's \<open>-EREMOTE\<close> is reported as
  \<open>-ENOTEMPTY\<close>, every other error as it is, and an error changes no inode.
\<close>

theorem rmdir_correct:
  assumes "script s = Exchange junk n out # xs" and "exchange_ok (Exchange junk n out)"
    and "length (d_name entry) \<le> UVFS_MAX_NAMELEN" and "d_inode entry = Some i"
    and "in_cache i s" and "in_cache dir s" and "i \<noteq> dir"
    and "uvfs_rmdir cur dir entry s = (e, s')"
  shows "e = (if outcome_error out = - EREMOTE then - ENOTEMPTY else outcome_error out)
    \<and> (\<forall>j. the_inode j s' =
         (if outcome_error out = 0 \<and> j = i then sub_nlink 2 (the_inode j s)
          else if outcome_error out = 0 \<and> j = dir then sub_nlink 1 (the_inode j s) else the_inode j s))"
  using assms
  by (auto simp: uvfs_rmdir_def Let_def upd_opt_def the_inode_upd split: if_splits)



definition two_inodes :: "exchange list \<Rightarrow> vfs" where
  "two_inodes xs = \<lparr>icache = [(7, (blank_inode 0 0)\<lparr>i_mode := 0x41ED, i_nlink := 3\<rparr>),
                              (8, (blank_inode 0 1)\<lparr>i_mode := 0x41ED, i_nlink := 2\<rparr>)],
                   script = xs, events = []\<rparr>"

lemma two_inodes_simps [simp]:
  "the_inode 7 (two_inodes xs) = (blank_inode 0 0)\<lparr>i_mode := 0x41ED, i_nlink := 3\<rparr>"
  "the_inode 8 (two_inodes xs) = (blank_inode 0 1)\<lparr>i_mode := 0x41ED, i_nlink := 2\<rparr>"
  "in_cache i (two_inodes xs) = (i = 7 \<or> i = 8)" "script (two_inodes xs) = xs"
  by (auto simp: two_inodes_def the_inode_def in_cache_def)

text \<open>A reply that only says that the operation succeeded.\<close>

definition success :: "exchange list" where
  "success = [Exchange (replicate sizeof_u 90) 3 (Replied (replicate 16 0))]"

lemma get32_zeroes [simp]: "off + 4 \<le> n \<Longrightarrow> get32 off (replicate n 0) = 0"
  by (simp add: get32_def bytes_at_def of_le32_def numeral_eq_Suc)

theorem rmdir_correct_witness:
  "i_nlink (the_inode 7 (snd (uvfs_rmdir root_task 7 (demo_entry [100] (Some 8)) (two_inodes success)))) = 2
   \<and> i_nlink (the_inode 8 (snd (uvfs_rmdir root_task 7 (demo_entry [100] (Some 8)) (two_inodes success)))) = 0"
proof -
  obtain e s' where run: "uvfs_rmdir root_task 7 (demo_entry [100] (Some 8)) (two_inodes success) = (e, s')"
    by fastforce
  from rmdir_correct [OF _ _ _ _ _ _ _ run, of "replicate sizeof_u 90" 3 "Replied (replicate 16 0)" "[]" 8]
  show ?thesis using run
    by (simp add: success_def demo_entry_def layout_simps sub_nlink_def)
qed

lemma nlink_simps [simp]:
  "i_nlink (sub_nlink d n) = i_nlink n - d" "i_nlink (add_nlink d n) = i_nlink n + d"
  "i_mode (sub_nlink d n) = i_mode n" "i_mode (add_nlink d n) = i_mode n"
  "(sub_nlink d n)\<lparr>i_nlink := x\<rparr> = n\<lparr>i_nlink := x\<rparr>" "(add_nlink d n)\<lparr>i_nlink := x\<rparr> = n\<lparr>i_nlink := x\<rparr>"
  by (simp_all add: sub_nlink_def add_nlink_def)

lemma nlink_upd [simp]:
  "i_nlink (the_inode j (upd_inode i (sub_nlink d) s)) =
     i_nlink (the_inode j s) - (if j = i \<and> in_cache i s then d else 0)"
  "i_nlink (the_inode j (upd_inode i (add_nlink d) s)) =
     i_nlink (the_inode j s) + (if j = i \<and> in_cache i s then d else 0)"
  "i_mode (the_inode j (upd_inode i (sub_nlink d) s)) = i_mode (the_inode j s)"
  "i_mode (the_inode j (upd_inode i (add_nlink d) s)) = i_mode (the_inode j s)"
  "(the_inode j (upd_inode i (sub_nlink d) s))\<lparr>i_nlink := x\<rparr> = (the_inode j s)\<lparr>i_nlink := x\<rparr>"
  "(the_inode j (upd_inode i (add_nlink d) s))\<lparr>i_nlink := x\<rparr> = (the_inode j s)\<lparr>i_nlink := x\<rparr>"
  by (simp_all add: the_inode_upd)

lemma rename_links_frame:
  "(the_inode j (rename_links srcdir srcentry dstdir dstentry s))\<lparr>i_nlink := 0\<rparr> = (the_inode j s)\<lparr>i_nlink := 0\<rparr>"
  by (simp add: rename_links_def Let_def split: option.split)

lemma rename_links_count:
  assumes "d_inode srcentry = Some sn" and "in_cache sn s" and "in_cache srcdir s" and "in_cache dstdir s"
    and "pred_option (\<lambda>i. in_cache i s) (d_inode dstentry)"
    and "replaced_dir = (case d_inode dstentry of Some i \<Rightarrow> S_ISDIR (i_mode (the_inode i s)) | None \<Rightarrow> False)"
    and "moved_dir = S_ISDIR (i_mode (the_inode sn s))"
  shows "i_nlink (the_inode j (rename_links srcdir srcentry dstdir dstentry s)) = i_nlink (the_inode j s)
          - (if d_inode dstentry = Some j then (if replaced_dir then 2 else 1) else 0)
          - (if replaced_dir \<and> j = dstdir then 1 else 0)
          + (if moved_dir \<and> j = dstdir then 1 else 0)
          - (if moved_dir \<and> j = srcdir then 1 else 0)"
  using assms
  by (cases "d_inode dstentry"; cases replaced_dir; cases moved_dir) (simp_all add: rename_links_def Let_def)

text \<open>
  C21. After a successful rename the link counts of all inodes are right whichever of the two
  directories, the moved inode and the replaced inode coincide: a replaced directory loses
  two links and takes one from the target directory, any other replaced inode loses one, and
  a moved directory takes one from its old parent and gives one to its new one. Nothing else
  in any inode changes, and a failed rename changes no inode.
\<close>

theorem rename_correct:
  assumes "script s = Exchange junk n out # xs" and "exchange_ok (Exchange junk n out)"
    and "length (d_name srcentry) \<le> UVFS_MAX_NAMELEN" and "length (d_name dstentry) \<le> UVFS_MAX_NAMELEN"
    and "d_inode srcentry = Some sn" and "in_cache sn s" and "in_cache srcdir s" and "in_cache dstdir s"
    and "pred_option (\<lambda>i. in_cache i s) (d_inode dstentry)"
    and "uvfs_rename cur srcdir srcentry dstdir dstentry s = (e, s')"
    and "replaced_dir = (case d_inode dstentry of Some i \<Rightarrow> S_ISDIR (i_mode (the_inode i s)) | None \<Rightarrow> False)"
    and "moved_dir = S_ISDIR (i_mode (the_inode sn s))"
  shows "e = outcome_error out \<and> (e \<noteq> 0 \<longrightarrow> icache s' = icache s)
    \<and> (\<forall>j. (the_inode j s')\<lparr>i_nlink := 0\<rparr> = (the_inode j s)\<lparr>i_nlink := 0\<rparr>)
    \<and> (e = 0 \<longrightarrow> (\<forall>j. i_nlink (the_inode j s') = i_nlink (the_inode j s)
          - (if d_inode dstentry = Some j then (if replaced_dir then 2 else 1) else 0)
          - (if replaced_dir \<and> j = dstdir then 1 else 0)
          + (if moved_dir \<and> j = dstdir then 1 else 0)
          - (if moved_dir \<and> j = srcdir then 1 else 0)))"
proof -
  define s0 where "s0 = ev (T_submit (rename_request n (fsuid cur) (fsgid cur) (i_fh (the_inode srcdir s))
      (d_name srcentry) (i_fh (the_inode dstdir s)) (d_name dstentry) junk)) (ev T_alloc (s\<lparr>script := xs\<rparr>))"
  have same: "the_inode j s0 = the_inode j s" "in_cache j s0 = in_cache j s" "icache s0 = icache s" for j
    by (simp_all add: s0_def)
  have "e = outcome_error out"
    and s': "s' = kfree (if e = 0 then rename_links srcdir srcentry dstdir dstentry s0 else s0)"
    using assms(1-4,10) by (auto simp: uvfs_rename_def Let_def s0_def split: if_splits)
  moreover note rename_links_count [of srcentry sn s0 srcdir dstdir dstentry replaced_dir moved_dir,
      unfolded same, OF assms(5-9,11,12)]
  ultimately show ?thesis
    by (cases "e = 0") (simp_all add: rename_links_frame same split del: if_split)
qed

text \<open>A directory replaces another one beside it: the parent loses the replaced one's link.\<close>

theorem rename_correct_witness:
  "i_nlink (the_inode 7 (snd (uvfs_rename root_task 7 (demo_entry [97] (Some 8)) 7 (demo_entry [98] None)
       (two_inodes success)))) = 3"
proof -
  obtain e s' where run: "uvfs_rename root_task 7 (demo_entry [97] (Some 8)) 7 (demo_entry [98] None)
      (two_inodes success) = (e, s')" by fastforce
  from rename_correct [OF _ _ _ _ _ _ _ _ _ run refl refl, of "replicate sizeof_u 90" 3
      "Replied (replicate 16 0)" "[]" 8]
  show ?thesis using run
    by (simp add: success_def demo_entry_def layout_simps)
qed

text \<open>
  A lookup that fails, for whatever reason, ends in the same call as one that finds no such
  entry: the error never reaches the caller, who is handed a negative entry.
\<close>

theorem lookup_error_lost:
  assumes "script s = Exchange junk n out # xs" and "exchange_ok (Exchange junk n out)"
    and "length (d_name entry) \<le> UVFS_MAX_NAMELEN" and "outcome_error out < 0"
  shows "fst (uvfs_lookup k cur splice_alias dir entry s) = splice_alias None (d_id entry)"
  using assms by (simp add: uvfs_lookup_def uvfs_lookup_by_name_def Let_def)

theorem lookup_error_lost_witness:
  "fst (uvfs_lookup plain_kernel root_task (\<lambda>i d. i) 7 (demo_entry [102] None) (one_inode killed)) = None"
  using lookup_error_lost [of "one_inode killed" "replicate sizeof_u 90" 3 "Interrupted None" "[]"
      "demo_entry [102] None" plain_kernel root_task "\<lambda>i d. i" 7]
  by (simp add: killed_def demo_entry_def layout_simps)


definition lookup_reply :: buf where
  "lookup_reply = replicate 16 0 @ enc_fhandle (dec_fhandle []) @ enc_attr (dec_attr [])"

lemma lookup_reply_simps [simp]: "length lookup_reply = 104" "get32 12 lookup_reply = 0"
  by (simp_all add: lookup_reply_def get32_def bytes_at_append_left,
      simp add: bytes_at_def of_le32_def numeral_eq_Suc)


text \<open>
  C23. A cached positive entry stays valid exactly if the lookup was interrupted, or the server still
  maps the name to the same file, or the entry is a directory with something mounted below;
  otherwise it is dropped. The inode itself is not touched.
\<close>

theorem dentry_revalidate_correct:
  assumes "script s = Exchange junk n out # xs" and "exchange_ok (Exchange junk n out)"
    and "\<And>data. out = Replied data \<Longrightarrow> 104 \<le> length data"
    and "length (d_name entry) \<le> UVFS_MAX_NAMELEN" and "d_inode entry = Some i"
    and "uvfs_dentry_revalidate cur submounts entry s = (r, s')"
  shows "r = (if outcome_error out = - ERESTARTSYS
        \<or> (\<exists>data. out = Replied data \<and> sint (get32 12 data) = 0
             \<and> uvfs_compare_inode (the_inode i s) (fld_fh uvfs_lookup_rep_s ''fh'' data))
        \<or> S_ISDIR (i_mode (the_inode i s)) \<and> submounts then 1 else 0)
    \<and> icache s' = icache s
    \<and> (\<exists>es. events s' = events s @ es \<and> (K_d_drop (d_id entry) \<in> set es \<longleftrightarrow> r = 0))"
proof -
  have "fld_fh uvfs_lookup_rep_s ''fh'' (make_request_result out u) = fld_fh uvfs_lookup_rep_s ''fh'' data"
    if "out = Replied data" for data u
    using that assms(3) by (simp add: fh_replied layout_simps)
  moreover have "outcome_error out = 0 \<longleftrightarrow> (\<exists>data. out = Replied data \<and> sint (get32 12 data) = 0)"
    by (cases out) auto
  ultimately show ?thesis
    using assms(1,2,4,5,6)
    by (auto simp: uvfs_dentry_revalidate_def uvfs_lookup_by_name_def Let_def revalidate_out_def
        revalidate_out_bad_def split: if_splits)
qed

theorem dentry_revalidate_correct_witness:
  "fst (uvfs_dentry_revalidate root_task False (demo_entry [102] (Some 7)) (one_inode killed)) = 1"
proof -
  obtain r s' where run: "uvfs_dentry_revalidate root_task False (demo_entry [102] (Some 7)) (one_inode killed)
      = (r, s')" by fastforce
  from dentry_revalidate_correct [OF _ _ _ _ _ run, of "replicate sizeof_u 90" 3 "Interrupted None" "[]" 7]
  show ?thesis using run
    by (simp add: killed_def demo_entry_def layout_simps)
qed

text \<open>C22. A cached negative entry is never trusted: it is dropped without asking the server.\<close>

theorem negative_dentry_dropped:
  assumes "d_inode entry = None"
  shows "uvfs_dentry_revalidate cur submounts entry s =
     (0, ev (K_dput (d_parent entry)) (ev (K_d_drop (d_id entry)) s))"
  using assms by (simp add: uvfs_dentry_revalidate_def revalidate_out_bad_def)

theorem negative_dentry_dropped_witness:
  "fst (uvfs_dentry_revalidate root_task True (demo_entry [102] None) empty_vfs) = 0"
  using negative_dentry_dropped [of "demo_entry [102] None" root_task True empty_vfs]
  by (simp add: demo_entry_def)

end
