(* ===== verification/Uvfs_Readdir.thy ===== *)
theory Uvfs_Readdir
  imports Uvfs_Dir
begin

text \<open>
  Reading a directory, \<open>uvfs_readdir\<close> of \<open>src/dir.c\<close>: the loop that asks the server for entries
  from the current position on and hands them to the kernel until the directory ends or the
  kernel's buffer is full. The entries of a reply are found by walking through the union with
  the lengths the server wrote; a read outside the union is the value \<open>None\<close>.

  \<open>filldir\<close> is the function of the kernel; it gets the bytes of the name, its length, the
  position, the inode number, and says whether its buffer is full. Its own state is of type
  \<open>'d\<close>.
\<close>

section \<open>The operation\<close>

type_synonym 'd filldir = "'d \<Rightarrow> buf \<Rightarrow> u32 \<Rightarrow> u64 \<Rightarrow> u32 \<Rightarrow> bool \<times> 'd"

text \<open>
  The address of the next entry: \<open>ent\<close> is the distance from the start of the union, which lies
  at a multiple of 4, so clearing the last two bits of the address clears those of the distance.
\<close>

definition next_entry :: "u64 \<Rightarrow> u32 \<Rightarrow> u64" where
  "next_entry ent len = (ent + word_of_nat (sizeof uvfs_dirent_s) + scast len + 3) AND NOT 3"

text \<open>The \<open>for\<close> loop: whether the kernel's buffer is full, the position, the state of \<open>filldir\<close>.\<close>

fun fill_entries :: "'d filldir \<Rightarrow> nat \<Rightarrow> buf \<Rightarrow> u64 \<Rightarrow> u64 \<Rightarrow> 'd \<Rightarrow> (bool \<times> u64 \<times> 'd) option" where
  "fill_entries filldir 0 u ent f_pos d = Some (False, f_pos, d)"
| "fill_entries filldir (Suc n) u ent f_pos d =
     (if unat ent + sizeof uvfs_dirent_s > length u then None
      else
        let e = drop (unat ent) u;
            len = fld uvfs_dirent_s ''length'' e;
            ino = fld uvfs_dirent_s ''ino'' e;
            index = fld uvfs_dirent_s ''index'' e
        in if sint len < 0 \<or> unat ent + sizeof uvfs_dirent_s + unat len > length u then None
           else
             let (full, d) = filldir d (bytes_at (sizeof uvfs_dirent_s) (unat len) e) len f_pos ino
             in if full then Some (True, f_pos, d)
                else fill_entries filldir n u (next_entry ent len) (scast (index + 1)) d)"

function uvfs_readdir ::
  "task \<Rightarrow> 'd filldir \<Rightarrow> iid \<Rightarrow> u64 \<Rightarrow> 'd \<Rightarrow> vfs \<Rightarrow> (int \<times> u64 \<times> 'd) option \<times> vfs" where
  "uvfs_readdir cur filldir dir f_pos d s =
     (case vfs_new_transaction s of
        (None, s) \<Rightarrow> (Some (- ENOMEM, f_pos, d), s)
      | (Some tr, s) \<Rightarrow>
          let (u, s) = vfs_make_request (\<lambda>n. readdir_request n (fsuid cur) (fsgid cur)
                (i_fh (the_inode dir s)) (ucast f_pos)) tr s;
              error = reply_error u;
              count = fld uvfs_readdir_rep_s ''count'' u
          in if error < 0 then (Some (error, f_pos, d), kfree s)
             else if count = 0 then (Some (0, f_pos, d), kfree s)
             else
               case fill_entries filldir (nat (sint count)) u
                      (word_of_nat (offsetof uvfs_readdir_rep_s ''data'')) f_pos d of
                 None \<Rightarrow> (None, s)
               | Some (full, f_pos, d) \<Rightarrow>
                   if full then (Some (0, f_pos, d), kfree s)
                   else uvfs_readdir cur filldir dir f_pos d (kfree s))"
  by pat_completeness auto

termination
proof (relation "measure (\<lambda>(cur, filldir, dir, f_pos, d, s). length (script s))")
qed (auto simp: vfs_new_transaction_def vfs_make_request_def Let_def split: list.splits exchange.splits)

declare uvfs_readdir.simps [simp del]

section \<open>A server's reply\<close>

text \<open>
  The layout a server has to write: \<open>length\<close>, inode number, index and name of every entry, each
  entry starting at a multiple of 4.
\<close>

record dir_entry =
  e_name :: buf
  e_ino :: u32
  e_index :: u32

definition pad4 :: "nat \<Rightarrow> nat" where
  "pad4 n = (n + 3) div 4 * 4"

definition enc_dirent :: "dir_entry \<Rightarrow> buf" where
  "enc_dirent e = le32 (word_of_nat (length (e_name e))) @ le32 (e_ino e) @ le32 (e_index e) @ e_name e
     @ replicate (pad4 (length (e_name e)) - length (e_name e)) 0"

definition enc_readdir :: "u32 \<Rightarrow> dir_entry list \<Rightarrow> buf" where
  "enc_readdir serial es =
     (let data = concat (map enc_dirent es) in
      le32 UVFS_READDIR @ le32 serial @ le32 (word_of_nat (20 + length data)) @ le32 0
      @ le32 (word_of_nat (length es)) @ data)"

text \<open>What the kernel should be told: name, length, position and inode number, in order.\<close>

fun told :: "u64 \<Rightarrow> dir_entry list \<Rightarrow> (buf \<times> u32 \<times> u64 \<times> u32) list" where
  "told f_pos [] = []"
| "told f_pos (e # es) = (e_name e, word_of_nat (length (e_name e)), f_pos, e_ino e) # told (scast (e_index e + 1)) es"

fun pos_after :: "u64 \<Rightarrow> dir_entry list \<Rightarrow> u64" where
  "pos_after f_pos [] = f_pos"
| "pos_after f_pos (e # es) = pos_after (scast (e_index e + 1)) es"

text \<open>A \<open>filldir\<close> whose buffer has room for \<open>cap\<close> entries.\<close>

definition bounded :: "nat \<Rightarrow> (buf \<times> u32 \<times> u64 \<times> u32) list filldir" where
  "bounded cap d name len pos ino =
     (if cap \<le> length d then (True, d) else (False, d @ [(name, len, pos, ino)]))"

text \<open>The positions the submitted requests ask for.\<close>

fun asked :: "event list \<Rightarrow> u32 list" where
  "asked [] = []"
| "asked (T_submit u # es) = fld uvfs_readdir_req_s ''entry_no'' u # asked es"
| "asked (e # es) = asked es"

section \<open>Walking through a reply\<close>

lemma length_enc_dirent: "length (enc_dirent e) = 12 + pad4 (length (e_name e))"
  by (simp add: enc_dirent_def pad4_def)

lemma pad4_ge: "n \<le> pad4 n" "4 dvd pad4 n"
  by (simp_all add: pad4_def)

lemma clear_low: "w AND NOT (mask k) = push_bit k (drop_bit k w)" for w :: u64
  by (rule bit_word_eqI) (auto simp: bit_simps)

lemma unat_clear2: "unat (w AND NOT 3) = unat w div 4 * 4" for w :: u64
proof -
  have "unat (drop_bit 2 w) = unat w div 4"
    by (simp add: drop_bit_eq_div unat_div)
  moreover have "unat w div 4 * 4 < 2 ^ LENGTH(64)"
    using unsigned_less [of w] by (rule le_less_trans [rotated]) simp
  ultimately have "unat (push_bit 2 (drop_bit 2 w)) = unat w div 4 * 4"
    by (simp add: push_bit_eq_mult unat_mult_lem [THEN iffD1])
  moreover have "(3 :: u64) = mask 2" by (simp add: mask_eq_exp_minus_1)
  ultimately show ?thesis by (simp only: clear_low)
qed

lemma unat_next_entry:
  assumes "unat ent = off" and "4 dvd off" and "off + l < 2 ^ 20"
  shows "unat (next_entry ent (word_of_nat l)) = off + 12 + pad4 l"
proof -
  have "unat (scast (word_of_nat l :: u32) :: u64) = l"
    using assms(3) by (intro unat_signed_widen) simp
  then have "unat (ent + word_of_nat 12 + scast (word_of_nat l :: u32) + 3) = off + 12 + l + 3"
    using assms(1,3) by (simp add: unat_sum)
  moreover have "(off + 12 + l + 3) div 4 * 4 = off + 12 + pad4 l"
  proof -
    obtain k where k: "off = 4 * k" using assms(2) by (elim dvdE)
    have "off + 12 + l + 3 = (l + 3) + 4 * (k + 3)" using k by simp
    then have "(off + 12 + l + 3) div 4 = (k + 3) + (l + 3) div 4"
      by (simp only: div_mult_self2)
    then show ?thesis using k by (simp add: pad4_def)
  qed
  moreover have "sizeof uvfs_dirent_s = 12" by (simp add: layout_simps)
  ultimately show ?thesis
    unfolding next_entry_def unat_clear2 by simp
qed

lemma fill_entries_enc:
  assumes "length (pre @ concat (map enc_dirent es) @ post) < 2 ^ 20" and "unat ent = length pre"
    and "4 dvd length pre" and "length d \<le> cap"
  shows "fill_entries (bounded cap) (length es) (pre @ concat (map enc_dirent es) @ post) ent f_pos d =
     Some (cap - length d < length es, pos_after f_pos (take (cap - length d) es),
           d @ told f_pos (take (cap - length d) es))"
  using assms
proof (induction es arbitrary: pre ent f_pos d)
  case (Cons e es)
  let ?l = "length (e_name e)"
  let ?u = "pre @ concat (map enc_dirent (e # es)) @ post"
  let ?told = "(e_name e, word_of_nat ?l :: u32, f_pos, e_ino e)"
  have l: "?l < 2 ^ 20" using Cons.prems(1) pad4_ge(1) [of ?l] by (simp add: length_enc_dirent)
  have e: "drop (length pre) ?u = enc_dirent e @ concat (map enc_dirent es) @ post" by simp
  have flds: "fld uvfs_dirent_s ''length'' (enc_dirent e @ r) = word_of_nat ?l"
    "fld uvfs_dirent_s ''ino'' (enc_dirent e @ r) = e_ino e"
    "fld uvfs_dirent_s ''index'' (enc_dirent e @ r) = e_index e"
    "bytes_at 12 ?l (enc_dirent e @ r) = e_name e" for r
    by (simp_all add: enc_dirent_def fld_def layout_simps buffer_simps)
  have nxt: "unat (next_entry ent (word_of_nat ?l)) = length (pre @ enc_dirent e)"
    using unat_next_entry [OF Cons.prems(2,3), of ?l] Cons.prems(1) pad4_ge(1) [of ?l]
    by (simp add: length_enc_dirent)
  have step: "bounded cap d (e_name e) (word_of_nat ?l) f_pos (e_ino e)
      = (if cap = length d then (True, d) else (False, d @ [?told]))"
    using Cons.prems(4) by (simp add: bounded_def)
  have IH: "fill_entries (bounded cap) (length es) ((pre @ enc_dirent e) @ concat (map enc_dirent es) @ post)
      (next_entry ent (word_of_nat ?l)) (scast (e_index e + 1)) (d @ [?told])
    = Some (cap - length (d @ [?told]) < length es,
        pos_after (scast (e_index e + 1)) (take (cap - length (d @ [?told])) es),
        (d @ [?told]) @ told (scast (e_index e + 1)) (take (cap - length (d @ [?told])) es))"
    if "cap \<noteq> length d"
    by (rule Cons.IH) (use Cons.prems(1,3,4) nxt pad4_ge(2) that in \<open>auto simp: length_enc_dirent\<close>)
  show ?case
  proof (cases "cap = length d")
    case True
    then show ?thesis
      using Cons.prems(2) l pad4_ge(1) [of ?l] unat_signed_widen(2) [of ?l]
      by (simp add: e flds bounded_def layout_simps Let_def length_enc_dirent)
  next
    case False
    then have room: "cap - length d = Suc (cap - length (d @ [?told]))" using Cons.prems(4) by simp
    from False show ?thesis
      using IH Cons.prems(2) l pad4_ge(1) [of ?l] unat_signed_widen(2) [of ?l]
      unfolding room
      by (simp add: e flds step layout_simps Let_def length_enc_dirent)
  qed
qed simp

lemma told_append:
  "told p (xs @ ys) = told p xs @ told (pos_after p xs) ys"
  "pos_after p (xs @ ys) = pos_after (pos_after p xs) ys"
  "length (told p xs) = length xs"
  by (induction xs arbitrary: p) auto


section \<open>The whole reading\<close>

lemma asked_append [simp]: "asked (xs @ ys) = asked xs @ asked ys"
  by (induction xs rule: asked.induct) auto

lemma asked_request:
  "length junk = sizeof_u \<Longrightarrow> fld uvfs_readdir_req_s ''entry_no'' (readdir_request n uid gid fh p junk) = p"
  by (simp add: readdir_request_def Let_def wire_simps union_length fld_def layout_simps buffer_simps)

lemma length_readdir:
  "length junk = sizeof_u \<Longrightarrow> length (readdir_request n uid gid fh p junk) = sizeof_u"
  using build_length [of junk "Readdir uid gid fh p" n] by simp

lemma readdir_reply:
  assumes "length u = sizeof_u" and "length (enc_readdir n es) \<le> sizeof_u"
  defines "r \<equiv> make_request_result (Replied (enc_readdir n es)) u"
  shows "reply_error r = 0" and "fld uvfs_readdir_rep_s ''count'' r = word_of_nat (length es)"
    and "length d \<le> cap \<Longrightarrow> fill_entries (bounded cap) (length es) r 20 f_pos d =
     Some (cap - length d < length es, pos_after f_pos (take (cap - length d) es),
           d @ told f_pos (take (cap - length d) es))"
    and "sint (word_of_nat (length es) :: u32) = int (length es)"
    and "(word_of_nat (length es) :: u32) = 0 \<longleftrightarrow> es = []"
proof -
  define pre where "pre = take 20 (enc_readdir n es)"
  define post where "post = drop (length (enc_readdir n es)) u"
  have len: "length (enc_readdir n es) = 20 + length (concat (map enc_dirent es))"
    by (simp add: enc_readdir_def Let_def)
  have "enc_readdir n es = pre @ concat (map enc_dirent es)"
    by (simp add: enc_readdir_def pre_def Let_def)
  then have r: "r = pre @ concat (map enc_dirent es) @ post"
    unfolding r_def post_def by (simp add: make_request_result.simps overlay_def put_bytes_def)
  have pre: "length pre = 20" using len by (simp add: pre_def)
  have "get32 12 r = get32 12 (enc_readdir n es)" "get32 16 r = get32 16 (enc_readdir n es)"
    using len unfolding r_def by (simp_all add: make_request_result.simps get32_overlay)
  then show "reply_error r = 0" "fld uvfs_readdir_rep_s ''count'' r = word_of_nat (length es)"
    unfolding reply_error_def fld_def
    by (simp_all add: layout_simps) (simp_all add: enc_readdir_def Let_def buffer_simps)
  show "fill_entries (bounded cap) (length es) r 20 f_pos d =
     Some (cap - length d < length es, pos_after f_pos (take (cap - length d) es),
           d @ told f_pos (take (cap - length d) es))" if "length d \<le> cap"
    unfolding r by (rule fill_entries_enc) (use that assms(1,2) len pre in \<open>auto simp: layout_simps post_def\<close>)
  have "length es \<le> length (concat (map enc_dirent es))"
    by (induction es) (auto simp: length_enc_dirent)
  then have small: "length es < 2 ^ 31" using assms(2) len by (simp add: layout_simps)
  then show sk: "sint (word_of_nat (length es) :: u32) = int (length es)" by (rule unat_signed_widen)
  show "(word_of_nat (length es) :: u32) = 0 \<longleftrightarrow> es = []"
    using sk by auto
qed

text \<open>What a server answers with, chunk by chunk, before the empty chunk that ends the directory.\<close>

definition answer :: "buf \<times> u32 \<times> dir_entry list \<Rightarrow> exchange" where
  "answer = (\<lambda>(junk, n, es). Exchange junk n (Replied (enc_readdir n es)))"

definition answer_ok :: "buf \<times> u32 \<times> dir_entry list \<Rightarrow> bool" where
  "answer_ok = (\<lambda>(junk, n, es). length junk = sizeof_u \<and> length (enc_readdir n es) \<le> sizeof_u)"

definition entries :: "(buf \<times> u32 \<times> dir_entry list) list \<Rightarrow> dir_entry list" where
  "entries cs = concat (map (\<lambda>(junk, n, es). es) cs)"

text \<open>How the reading ends when the kernel's buffer does not fill up.\<close>

fun ending :: "exchange \<Rightarrow> int option" where
  "ending No_memory = Some (- ENOMEM)"
| "ending (Exchange junk n out) =
     (if outcome_error out < 0 then Some (outcome_error out)
      else if out = Replied (enc_readdir n []) then Some 0 else None)"

fun chunk_positions :: "u64 \<Rightarrow> (buf \<times> u32 \<times> dir_entry list) list \<Rightarrow> u32 list" where
  "chunk_positions f_pos [] = []"
| "chunk_positions f_pos ((junk, n, es) # cs) = ucast f_pos # chunk_positions (pos_after f_pos es) cs"

lemma readdir_end:
  assumes "script s = fin # xs" and "exchange_ok fin" and "ending fin = Some code"
  shows "fst (uvfs_readdir cur filldir dir f_pos d s) = Some (code, f_pos, d)"
    and "asked (events (snd (uvfs_readdir cur filldir dir f_pos d s))) =
       asked (events s) @ (if fin = No_memory then [] else [ucast f_pos])"
proof -
  have "fst (uvfs_readdir cur filldir dir f_pos d s) = Some (code, f_pos, d)
     \<and> asked (events (snd (uvfs_readdir cur filldir dir f_pos d s))) =
       asked (events s) @ (if fin = No_memory then [] else [ucast f_pos])"
  proof (cases fin)
    case No_memory
    with assms show ?thesis by (subst (1 2) uvfs_readdir.simps) simp
  next
    case (Exchange junk n out)
    have ok: "length junk = sizeof_u" "outcome_ok out" using assms(2) Exchange by simp_all
    let ?u = "readdir_request n (fsuid cur) (fsgid cur) (i_fh (the_inode dir s)) (ucast f_pos) junk"
    have e: "reply_error (make_request_result out ?u) = outcome_error out"
      by (rule reply_error_result) (use ok length_readdir in auto)
    show ?thesis
    proof (cases "outcome_error out < 0")
      case True
      with assms Exchange e ok show ?thesis
        by (subst (1 2) uvfs_readdir.simps) (simp add: Let_def asked_request)
    next
      case False
      with assms(3) Exchange have out: "out = Replied (enc_readdir n [])" "code = 0"
        by (auto split: if_splits)
      with ok have "length (enc_readdir n []) \<le> sizeof_u" by simp
      from readdir_reply(2) [OF length_readdir [OF ok(1)] this] out assms(1) Exchange False e ok(1)
      show ?thesis
        by (subst (1 2) uvfs_readdir.simps) (simp add: Let_def asked_request)
    qed
  qed
  then show "fst (uvfs_readdir cur filldir dir f_pos d s) = Some (code, f_pos, d)"
    "asked (events (snd (uvfs_readdir cur filldir dir f_pos d s))) =
       asked (events s) @ (if fin = No_memory then [] else [ucast f_pos])" by simp_all
qed

text \<open>One turn of the loop on a reply with entries.\<close>

lemma readdir_turn:
  assumes "script s = answer (junk, n, es) # xs" and "answer_ok (junk, n, es)" and "es \<noteq> []"
    and "length d \<le> cap"
  obtains s' where "script s' = xs" "asked (events s') = asked (events s) @ [ucast f_pos]"
    "uvfs_readdir cur (bounded cap) dir f_pos d s =
      (if cap - length d < length es
       then (Some (0, pos_after f_pos (take (cap - length d) es), d @ told f_pos (take (cap - length d) es)), s')
       else uvfs_readdir cur (bounded cap) dir (pos_after f_pos es) (d @ told f_pos es) s')"
proof -
  have ok: "length junk = sizeof_u" "length (enc_readdir n es) \<le> sizeof_u"
    using assms(2) by (simp_all add: answer_ok_def)
  note rep = readdir_reply [OF length_readdir [OF ok(1)] ok(2)]
  let ?req = "readdir_request n (fsuid cur) (fsgid cur) (i_fh (the_inode dir s)) (ucast f_pos) junk"
  show ?thesis
  proof (rule that [of "kfree (ev (T_submit ?req) (ev T_alloc (s\<lparr>script := xs\<rparr>)))"])
    show "uvfs_readdir cur (bounded cap) dir f_pos d s =
      (if cap - length d < length es
       then (Some (0, pos_after f_pos (take (cap - length d) es), d @ told f_pos (take (cap - length d) es)),
             kfree (ev (T_submit ?req) (ev T_alloc (s\<lparr>script := xs\<rparr>))))
       else uvfs_readdir cur (bounded cap) dir (pos_after f_pos es) (d @ told f_pos es)
             (kfree (ev (T_submit ?req) (ev T_alloc (s\<lparr>script := xs\<rparr>)))))"
      using assms(1,3,4)
      by (subst uvfs_readdir.simps) (simp add: answer_def Let_def rep layout_simps)
  qed (use ok in \<open>simp_all add: asked_request\<close>)
qed

text \<open>
  C24. The loop of \<open>uvfs_readdir\<close> hands the kernel the entries of the server's replies in order,
  each with the position that follows its predecessor, and stops in front of the entry the
  kernel has no room for: the position it leaves behind is the position of that entry, so that
  the next call loses and repeats nothing. When there is room for all of them the result is
  that of the exchange that ended the reading: 0 at the end of the directory, the error of the
  server or of the driver, \<open>-ENOMEM\<close>.
\<close>

theorem readdir_correct:
  assumes "script s = map answer cs @ fin # xs" and "list_all answer_ok cs"
    and "list_all (\<lambda>(junk, n, es). es \<noteq> []) cs" and "exchange_ok fin" and "ending fin = Some code"
    and "length d \<le> cap"
  shows "fst (uvfs_readdir cur (bounded cap) dir f_pos d s) =
     Some (if cap - length d < length (entries cs) then 0 else code,
           pos_after f_pos (take (cap - length d) (entries cs)),
           d @ told f_pos (take (cap - length d) (entries cs)))"
  using assms
proof (induction cs arbitrary: s f_pos d)
  case Nil
  then show ?case using readdir_end(1) [of s fin xs code] by (simp add: entries_def)
next
  case (Cons c cs)
  obtain junk n es where c: "c = (junk, n, es)" by (metis prod_cases3)
  let ?k = "cap - length d"
  have entries: "entries (c # cs) = es @ entries cs" using c by (simp add: entries_def)
  obtain s' where s': "script s' = map answer cs @ fin # xs"
    and turn: "uvfs_readdir cur (bounded cap) dir f_pos d s =
      (if ?k < length es
       then (Some (0, pos_after f_pos (take ?k es), d @ told f_pos (take ?k es)), s')
       else uvfs_readdir cur (bounded cap) dir (pos_after f_pos es) (d @ told f_pos es) s')"
    by (rule readdir_turn [of s junk n es "map answer cs @ fin # xs" d cap f_pos cur dir])
      (use Cons.prems c in auto)
  show ?case
  proof (cases "?k < length es")
    case False
    have "fst (uvfs_readdir cur (bounded cap) dir (pos_after f_pos es) (d @ told f_pos es) s') =
       Some (if cap - length (d @ told f_pos es) < length (entries cs) then 0 else code,
          pos_after (pos_after f_pos es) (take (cap - length (d @ told f_pos es)) (entries cs)),
          (d @ told f_pos es) @ told (pos_after f_pos es) (take (cap - length (d @ told f_pos es)) (entries cs)))"
      by (rule Cons.IH) (use Cons.prems s' False in \<open>auto simp: told_append\<close>)
    with False show ?thesis unfolding turn entries by (auto simp: told_append)
  qed (simp add: turn entries)
qed

definition demo_chunks :: "(buf \<times> u32 \<times> dir_entry list) list" where
  "demo_chunks =
     [(replicate sizeof_u 170, 7, [\<lparr>e_name = [97], e_ino = 21, e_index = 0\<rparr>, \<lparr>e_name = [98, 99], e_ino = 22, e_index = 1\<rparr>]),
      (replicate sizeof_u 170, 8, [\<lparr>e_name = [100], e_ino = 23, e_index = 3\<rparr>])]"

definition demo_listing :: "exchange list" where
  "demo_listing = map answer demo_chunks @ [answer (replicate sizeof_u 170, 9, [])]"

theorem readdir_correct_witness:
  "fst (uvfs_readdir root_task (bounded 1) 7 0 [] (one_inode demo_listing))
     = Some (0, 1, [([97], 1, 0, 21)])
   \<and> fst (uvfs_readdir root_task (bounded 9) 7 0 [] (one_inode demo_listing))
     = Some (0, 4, [([97], 1, 0, 21), ([98, 99], 2, 1, 22), ([100], 1, 2, 23)])"
proof -
  note demo = demo_listing_def demo_chunks_def one_inode_def answer_ok_def enc_readdir_def enc_dirent_def
    answer_def pad4_def layout_simps entries_def
  have script: "script (one_inode demo_listing) = map answer demo_chunks @ answer (replicate sizeof_u 170, 9, []) # []"
    by (simp add: one_inode_def demo_listing_def)
  have pre: "list_all answer_ok demo_chunks" "list_all (\<lambda>(junk, n, es). es \<noteq> []) demo_chunks"
    "exchange_ok (answer (replicate sizeof_u 170, 9, []))"
    by (simp_all add: demo)
  have fin: "ending (answer (replicate sizeof_u 170, 9, [])) = Some 0"
    by (simp add: answer_def enc_readdir_def buffer_simps)
  from readdir_correct [OF script pre fin, of "[]" 1 root_task 7 0]
    readdir_correct [OF script pre fin, of "[]" 9 root_task 7 0]
  show ?thesis by (simp add: demo_chunks_def entries_def)
qed



section \<open>A reply that never ends\<close>

lemma readdir_negative_turn:
  assumes "script s = Exchange junk n (Replied data) # xs" and "length junk = sizeof_u"
    and "20 \<le> length data" and "length data \<le> sizeof_u" and "sint (get32 12 data) \<ge> 0" and "sint (get32 16 data) < 0"
  obtains s' where "script s' = xs" "asked (events s') = asked (events s) @ [ucast f_pos]"
    "uvfs_readdir cur filldir dir f_pos d s = uvfs_readdir cur filldir dir f_pos d s'"
proof -
  let ?req = "readdir_request n (fsuid cur) (fsgid cur) (i_fh (the_inode dir s)) (ucast f_pos) junk"
  let ?u = "make_request_result (Replied data) ?req"
  let ?s = "kfree (ev (T_submit ?req) (ev T_alloc (s\<lparr>script := xs\<rparr>)))"
  have rep: "reply_error ?u = sint (get32 12 data)" "fld uvfs_readdir_rep_s ''count'' ?u = get32 16 data"
    using assms(3) by (simp_all add: reply_error_def fld_def layout_simps make_request_result.simps get32_overlay)
  have nonzero: "get32 16 data \<noteq> 0" using assms(6) by auto
  show ?thesis
  proof (rule that [of ?s])
    show "uvfs_readdir cur filldir dir f_pos d s = uvfs_readdir cur filldir dir f_pos d ?s"
      using assms(1,5,6) nonzero
      by (subst uvfs_readdir.simps) (simp add: Let_def rep)
  qed (use assms(2) in \<open>simp_all add: asked_request\<close>)
qed

text \<open>
  The code does not expect a negative \<open>count\<close>: it is neither 0 nor larger than 0, so the loop
  asks again from the same position, and again, as often as the server answers like that; the
  call ends only when an exchange fails.
\<close>

theorem readdir_negative_count:
  assumes "script s = replicate k (Exchange junk n (Replied data)) @ No_memory # xs" and "length junk = sizeof_u"
    and "20 \<le> length data" and "length data \<le> sizeof_u" and "sint (get32 12 data) \<ge> 0" and "sint (get32 16 data) < 0"
  shows "fst (uvfs_readdir cur filldir dir f_pos d s) = Some (- ENOMEM, f_pos, d)
     \<and> asked (events (snd (uvfs_readdir cur filldir dir f_pos d s))) = asked (events s) @ replicate k (ucast f_pos)"
  using assms(1)
proof (induction k arbitrary: s)
  case 0
  then show ?case
    using readdir_end [of s No_memory xs "- ENOMEM" cur filldir dir f_pos d] by simp
next
  case (Suc k)
  obtain s' where "script s' = replicate k (Exchange junk n (Replied data)) @ No_memory # xs"
      "asked (events s') = asked (events s) @ [ucast f_pos]"
      "uvfs_readdir cur filldir dir f_pos d s = uvfs_readdir cur filldir dir f_pos d s'"
    using readdir_negative_turn [of s junk n data _ f_pos cur filldir dir d] assms(2-6) Suc.prems
    by (metis append_Cons replicate_Suc)
  with Suc.IH show ?case by simp
qed

theorem readdir_negative_count_witness:
  "fst (uvfs_readdir root_task (bounded 9) 7 0 [] (one_inode (replicate 3 (Exchange (replicate sizeof_u 170) 5
       (Replied (le32 UVFS_READDIR @ le32 5 @ le32 20 @ le32 0 @ le32 (- 1)))) @ [No_memory]))) = Some (- ENOMEM, 0, [])"
  using readdir_negative_count [of "one_inode (replicate 3 (Exchange (replicate sizeof_u 170) 5
       (Replied (le32 UVFS_READDIR @ le32 5 @ le32 20 @ le32 0 @ le32 (- 1)))) @ [No_memory])" 3
       "replicate sizeof_u 170" 5 "le32 UVFS_READDIR @ le32 5 @ le32 20 @ le32 0 @ le32 (- 1)" "[]"
       root_task "bounded 9" 7 0 "[]"]
  by (simp add: buffer_simps layout_simps)

section \<open>Transactions of a reading\<close>

lemma readdir_runs:
  "fst (uvfs_readdir cur filldir dir f_pos d s) \<noteq> None \<Longrightarrow>
   runs Idle Idle s (snd (uvfs_readdir cur filldir dir f_pos d s))"
proof (induction cur filldir dir f_pos d s rule: uvfs_readdir.induct)
  case (1 cur filldir dir f_pos d s)
  obtain r s1 where new: "vfs_new_transaction s = (r, s1)" by fastforce
  show ?case
  proof (cases r)
    case None
    with new show ?thesis by (subst uvfs_readdir.simps) (simp add: runs_none)
  next
    case (Some tr)
    let ?req = "\<lambda>n. readdir_request n (fsuid cur) (fsgid cur) (i_fh (the_inode dir s1)) (ucast f_pos)"
    obtain u s2 where req: "vfs_make_request ?req tr s1 = (u, s2)" by fastforce
    have sent: "runs Idle Sent s s2"
      using runs_request [of s tr s1 ?req] new Some req
        build_wf [of _ "Readdir (fsuid cur) (fsgid cur) (i_fh (the_inode dir s1)) (ucast f_pos)"] by simp
    then have freed: "runs Idle Idle s (kfree s2)" by (rule runs_step)
    let ?fill = "fill_entries filldir (nat (sint (fld uvfs_readdir_rep_s ''count'' u))) u
      (word_of_nat (offsetof uvfs_readdir_rep_s ''data'')) f_pos d"
    have once: "uvfs_readdir cur filldir dir f_pos d s =
       (if reply_error u < 0 then (Some (reply_error u, f_pos, d), kfree s2)
        else if fld uvfs_readdir_rep_s ''count'' u = 0 then (Some (0, f_pos, d), kfree s2)
        else case ?fill of None \<Rightarrow> (None, s2)
          | Some (full, f_pos, d) \<Rightarrow> if full then (Some (0, f_pos, d), kfree s2)
              else uvfs_readdir cur filldir dir f_pos d (kfree s2))"
      using new Some req by (subst uvfs_readdir.simps) (simp add: Let_def)
    show ?thesis
    proof (cases "reply_error u < 0 \<or> fld uvfs_readdir_rep_s ''count'' u = 0")
      case True
      with freed show ?thesis by (auto simp: once)
    next
      case loop: False
      with "1.prems" obtain full p d' where fill: "?fill = Some (full, p, d')"
        by (auto simp: once split: option.splits)
      show ?thesis
      proof (cases full)
        case True
        with loop fill freed show ?thesis by (simp add: once)
      next
        case False
        with loop fill have again: "uvfs_readdir cur filldir dir f_pos d s = uvfs_readdir cur filldir dir p d' (kfree s2)"
          by (simp add: once)
        have "runs Idle Idle (kfree s2) (snd (uvfs_readdir cur filldir dir p d' (kfree s2)))"
          by (rule "1.IH") (use new Some req loop fill False "1.prems" again in auto)
        with freed again show ?thesis by (auto intro: runs_trans)
      qed
    qed
  qed
qed

end
