(* ===== verification/Uvfs_Permission.thy ===== *)
theory Uvfs_Permission
  imports Uvfs_Dir
begin

text \<open>
  \<open>uvfs_permission\<close> of \<open>src/dir.c\<close>: who may read, write or execute an inode. The decision on a
  mode is compared with a reference that speaks about single permission bits.
\<close>

section \<open>The operation\<close>

definition MAY_EXEC :: u32 where "MAY_EXEC = 1"
definition MAY_WRITE :: u32 where "MAY_WRITE = 2"
definition MAY_READ :: u32 where "MAY_READ = 4"
definition S_IMMUTABLE :: u32 where "S_IMMUTABLE = 8"

text \<open>The decision once the mode is known; \<open>n\<close> gives the owner and the group.\<close>

definition permission_check :: "task \<Rightarrow> uvfs_inode_info \<Rightarrow> u16 \<Rightarrow> u32 \<Rightarrow> int" where
  "permission_check cur n m msk =
     (let mode = (if fsuid cur = i_uid n then drop_bit 6 m
                  else if in_group_p cur (i_gid n) then drop_bit 3 m else m) in
      if ucast mode AND msk AND (MAY_READ OR MAY_WRITE OR MAY_EXEC) = msk then 0
      else if (msk AND MAY_EXEC = 0 \<or> m AND S_IXUGO \<noteq> 0 \<or> S_ISDIR m)
              \<and> capable cur CAP_DAC_OVERRIDE then 0
      else if (msk = MAY_READ \<or> S_ISDIR m \<and> msk AND MAY_WRITE = 0)
              \<and> capable cur CAP_DAC_READ_SEARCH then 0
      else - EACCES)"

text \<open>\<open>rdonly\<close> is \<open>IS_RDONLY(inode)\<close>, a property of the mount.\<close>

definition uvfs_permission :: "task \<Rightarrow> bool \<Rightarrow> iid \<Rightarrow> u32 \<Rightarrow> vfs \<Rightarrow> int \<times> vfs" where
  "uvfs_permission cur rdonly i msk s =
     (let n = the_inode i s;
          mode = i_mode n;
          msk = msk AND (MAY_READ OR MAY_WRITE OR MAY_EXEC) in
      if msk AND MAY_WRITE \<noteq> 0 \<and> rdonly \<and> (S_ISREG mode \<or> S_ISDIR mode \<or> S_ISLNK mode)
      then (- EROFS, s)
      else if msk AND MAY_WRITE \<noteq> 0 \<and> i_flags n AND S_IMMUTABLE \<noteq> 0 then (- EACCES, s)
      else if fsuid cur \<noteq> attr_uid n then
        (case vfs_new_transaction s of
           (None, s) \<Rightarrow> (- ENOMEM, s)
         | (Some tr, s) \<Rightarrow>
             let (u, s) = vfs_make_request
                   (\<lambda>m. getattr_request m (fsuid cur) (fsgid cur) (i_fh (the_inode i s))) tr s;
                 error = reply_error u
             in if error \<noteq> 0 then (error, kfree s)
                else (let m = ucast (a_mode (fld_attr uvfs_getattr_rep_s ''a'' u))
                      in (permission_check cur n m msk, kfree s)))
      else (permission_check cur n mode msk, s))"

interpretation permission: vfs_operation "\<lambda>k. uvfs_permission cur rdonly i msk" for cur rdonly i msk
proof
  fix k s
  show "runs Idle Idle s (snd (uvfs_permission cur rdonly i msk s))"
    unfolding uvfs_permission_def Let_def
    by (rule runs_guard, rule runs_guard)
      (auto simp: wf_getattr split: if_split intro!: runs_transaction runs_intros)
qed

section \<open>Reference\<close>

text \<open>
  The reference: the class of the caller (owner, group, others) selects three bits of the mode;
  the caller may do what all requested bits allow. The capabilities lift this: one for
  everything except executing what nobody may execute, one for reading and for searching
  directories.
\<close>

definition class_shift :: "task \<Rightarrow> uvfs_inode_info \<Rightarrow> nat" where
  "class_shift cur n = (if fsuid cur = i_uid n then 6 else if in_group_p cur (i_gid n) then 3 else 0)"

definition wants :: "u32 \<Rightarrow> nat \<Rightarrow> bool" where
  "wants msk b \<longleftrightarrow> b < 3 \<and> bit msk b"

definition may_access :: "task \<Rightarrow> uvfs_inode_info \<Rightarrow> u16 \<Rightarrow> u32 \<Rightarrow> bool" where
  "may_access cur n m msk \<longleftrightarrow>
     (\<forall>b. wants msk b \<longrightarrow> bit m (class_shift cur n + b))
   \<or> capable cur CAP_DAC_OVERRIDE \<and> (wants msk 0 \<longrightarrow> bit m 0 \<or> bit m 3 \<or> bit m 6 \<or> S_ISDIR m)
   \<or> capable cur CAP_DAC_READ_SEARCH
       \<and> ({b. wants msk b} = {2} \<or> S_ISDIR m \<and> \<not> wants msk 1)"


lemma all_rights: "MAY_READ OR MAY_WRITE OR MAY_EXEC = mask 3"
  by (simp add: MAY_READ_def MAY_WRITE_def MAY_EXEC_def mask_eq_exp_minus_1)

lemma bits_small: "w AND mask 3 = w \<Longrightarrow> bit w b \<Longrightarrow> b < 3" for w :: u32
  by (metis bit_and_iff bit_mask_iff)

lemma wants_bit: "w AND mask 3 = w \<Longrightarrow> wants w b \<longleftrightarrow> bit w b"
  using bits_small by (auto simp: wants_def)

lemma rights_subset:
  assumes "msk AND mask 3 = (msk :: u32)"
  shows "(ucast (mode :: u16) AND msk AND mask 3 = msk) \<longleftrightarrow> (\<forall>b. wants msk b \<longrightarrow> bit mode b)"
proof -
  have "ucast mode AND msk AND mask 3 = ucast mode AND msk"
    using assms by (simp add: and.assoc)
  moreover have "ucast mode AND msk = msk \<longleftrightarrow> (\<forall>b. bit msk b \<longrightarrow> bit (ucast mode :: u32) b)"
  proof
    assume "ucast mode AND msk = msk"
    then show "\<forall>b. bit msk b \<longrightarrow> bit (ucast mode :: u32) b" by (metis bit_and_iff)
  qed (auto intro!: bit_word_eqI simp: bit_and_iff)
  moreover have "bit (ucast mode :: u32) b \<longleftrightarrow> bit mode b" if "bit msk b" for b
    using bits_small [OF assms that] by (simp add: bit_ucast_iff)
  ultimately show ?thesis
    using wants_bit [OF assms] by auto
qed

lemma and_single: "w AND push_bit k 1 = 0 \<longleftrightarrow> \<not> bit w k" for w :: "'a :: len word"
  using bit_iff_and_push_bit_not_eq_0 [of w k] by simp

lemma single_right:
  "msk AND MAY_EXEC = 0 \<longleftrightarrow> \<not> wants msk 0" "msk AND MAY_WRITE = 0 \<longleftrightarrow> \<not> wants msk 1"
  using and_single [of msk 0] and_single [of msk 1]
  by (simp_all add: MAY_EXEC_def MAY_WRITE_def wants_def)

lemma only_read:
  assumes "msk AND mask 3 = (msk :: u32)"
  shows "msk = MAY_READ \<longleftrightarrow> {b. wants msk b} = {2}"
proof -
  have four: "MAY_READ = 2 ^ 2" by (simp add: MAY_READ_def)
  have "bit MAY_READ b \<longleftrightarrow> b = 2" for b
    unfolding four bit_exp_iff by auto
  then have "msk = MAY_READ \<longleftrightarrow> (\<forall>b. bit msk b \<longleftrightarrow> b = 2)"
    using bits_small [OF assms] by (metis bit_eqI)
  then show ?thesis
    using wants_bit [OF assms] by auto
qed

lemma exec_bits: "m AND S_IXUGO \<noteq> 0 \<longleftrightarrow> bit m 0 \<or> bit m 3 \<or> bit m 6" for m :: u16
proof -
  have eq: "S_IXUGO = push_bit 0 1 OR push_bit 3 1 OR push_bit 6 1"
    by (simp add: S_IXUGO_def)
  show ?thesis
    unfolding eq bit.conj_disj_distrib or_eq_0_iff and_single by blast
qed

lemma permission_check_may_access:
  assumes "msk AND mask 3 = msk"
  shows "permission_check cur n m msk = (if may_access cur n m msk then 0 else - EACCES)"
  using rights_subset [OF assms] only_read [OF assms] exec_bits [of m]
  by (auto simp: permission_check_def may_access_def class_shift_def all_rights single_right Let_def
      bit_drop_bit_eq)


section \<open>Properties\<close>

text \<open>
  C26. The verdict of \<open>uvfs_permission\<close> on an inode whose attributes were fetched for the calling
  user follows the reference, after the read-only and immutable checks; no request is sent.
\<close>

theorem permission_own_attributes:
  assumes "fsuid cur = attr_uid (the_inode i s)" and "\<not> rdonly"
    and "i_flags (the_inode i s) AND S_IMMUTABLE = 0"
  shows "uvfs_permission cur rdonly i msk s =
     (if may_access cur (the_inode i s) (i_mode (the_inode i s)) (msk AND mask 3) then 0 else - EACCES, s)"
  using assms permission_check_may_access [of "msk AND mask 3"]
  by (simp add: uvfs_permission_def Let_def all_rights and.assoc)

theorem permission_own_attributes_witness:
  "fst (uvfs_permission (root_task\<lparr>capable := \<lambda>_. False\<rparr>) False 7 4 (one_inode [])) = - EACCES"
proof -
  have "\<not> may_access (root_task\<lparr>capable := \<lambda>_. False\<rparr>) (blank_inode 0 0) 0 (4 AND mask 3)"
    by (simp add: may_access_def root_task_def mask_eq_exp_minus_1 wants_def exI [of _ 2])
  then show ?thesis
    using permission_own_attributes [of "root_task\<lparr>capable := \<lambda>_. False\<rparr>" 7 "one_inode []" False 4]
    by (simp add: blank_inode_def root_task_def)
qed


text \<open>
  Nobody, with whatever capability, gets write access to a file, directory or symbolic link
  on a read-only mount, or to an immutable inode; nothing is asked of the server.
\<close>

theorem permission_no_write:
  assumes "bit msk 1" and "rdonly \<and> (S_ISREG (i_mode (the_inode i s)) \<or> S_ISDIR (i_mode (the_inode i s))
      \<or> S_ISLNK (i_mode (the_inode i s))) \<or> i_flags (the_inode i s) AND S_IMMUTABLE \<noteq> 0"
  shows "fst (uvfs_permission cur rdonly i msk s) \<in> {- EROFS, - EACCES} \<and> snd (uvfs_permission cur rdonly i msk s) = s"
proof -
  have "(msk AND mask 3) AND MAY_WRITE \<noteq> 0"
    using assms(1) by (simp add: single_right wants_def bit_and_iff bit_mask_iff)
  with assms(2) show ?thesis
    by (auto simp: uvfs_permission_def Let_def all_rights)
qed



theorem permission_no_write_witness:
  "fst (uvfs_permission root_task True 7 2 (two_inodes [])) \<in> {- EROFS, - EACCES}"
  using permission_no_write [of 2 True 7 "two_inodes []" root_task]
  by (simp add: S_ISDIR_def S_IFMT_def S_IFDIR_def)

end
