(* ===== verification/Uvfs_File.thy ===== *)
theory Uvfs_File
  imports Uvfs_Dir
begin

text \<open>
  File contents and attributes, \<open>src/file.c\<close>: pages travel to and from the server, attributes
  are set and fetched. A page is a record of its place in the file, its contents and its
  flags; a copy past the end of a page makes its contents longer.

  Functions of the kernel whose results are returned or whose effect on the inode matters are
  arguments: the generic read, write and mmap, \<open>inode_change_ok\<close>, \<open>inode_setattr\<close>,
  \<open>generic_fillattr\<close> and \<open>grab_cache_page_write_begin\<close>.
\<close>

section \<open>Pages\<close>

record page =
  pg_index :: u64
  pg_data :: buf
  pg_uptodate :: bool
  pg_error :: bool
  pg_locked :: bool
  pg_host :: iid

definition PAGE_CACHE_SHIFT :: nat where [layout_simps]: "PAGE_CACHE_SHIFT = 12"

section \<open>Reading and writing through the page cache\<close>

text \<open>The three entry points only refresh the inode before the generic function runs.\<close>

definition uvfs_file_read :: "kernel \<Rightarrow> task \<Rightarrow> (vfs \<Rightarrow> int \<times> vfs) \<Rightarrow> iid \<Rightarrow> vfs \<Rightarrow> int \<times> vfs" where
  "uvfs_file_read k cur generic_file_read i s =
     (let (ret, s) = uvfs_revalidate_inode k cur i s in
      if ret = 0 then generic_file_read s else (ret, s))"

definition uvfs_file_write :: "kernel \<Rightarrow> task \<Rightarrow> (vfs \<Rightarrow> int \<times> vfs) \<Rightarrow> iid \<Rightarrow> vfs \<Rightarrow> int \<times> vfs" where
  "uvfs_file_write k cur generic_file_write i s =
     (let (ret, s) = uvfs_revalidate_inode k cur i s in
      if ret = 0 then generic_file_write s else (ret, s))"

definition uvfs_file_mmap :: "kernel \<Rightarrow> task \<Rightarrow> (vfs \<Rightarrow> int \<times> vfs) \<Rightarrow> iid \<Rightarrow> vfs \<Rightarrow> int \<times> vfs" where
  "uvfs_file_mmap k cur generic_file_mmap i s =
     (let (ret, s) = uvfs_revalidate_inode k cur i s in
      if ret = 0 then generic_file_mmap s else (ret, s))"

definition uvfs_write :: "task \<Rightarrow> iid \<Rightarrow> buf \<Rightarrow> u32 \<Rightarrow> u32 \<Rightarrow> vfs \<Rightarrow> int \<times> vfs" where
  "uvfs_write cur i buff offset count s =
     (case vfs_new_transaction s of
        (None, s) \<Rightarrow> (- ENOMEM, s)
      | (Some tr, s) \<Rightarrow>
          let (u, s) = vfs_make_request (\<lambda>n. write_request n (fsuid cur) (fsgid cur)
                (i_fh (the_inode i s)) offset (take (unat count) buff)) tr s
          in (reply_error u, kfree s))"

definition uvfs_writepage :: "task \<Rightarrow> page \<Rightarrow> vfs \<Rightarrow> int \<times> page \<times> vfs" where
  "uvfs_writepage cur pg s =
     (let i = pg_host pg;
          size = i_size (the_inode i s);
          end_index = (ucast (signed_drop_bit PAGE_CACHE_SHIFT size) :: u32);
          count = (if pg_index pg < ucast end_index then word_of_nat PAGE_CACHE_SIZE
                   else ucast (size AND (word_of_nat PAGE_CACHE_SIZE - 1))) :: u32
      in
      if \<not> pg_index pg < ucast end_index \<and> (pg_index pg > ucast end_index \<or> count = 0)
      then (0, pg\<lparr>pg_uptodate := True, pg_locked := False\<rparr>, s)
      else
        (let offset = ucast (push_bit PAGE_CACHE_SHIFT (pg_index pg));
             (err, s) = uvfs_write cur i (pg_data pg) offset count s;
             pg = (if err \<noteq> 0 then pg\<lparr>pg_error := True\<rparr> else pg\<lparr>pg_uptodate := True\<rparr>)
         in (err, pg\<lparr>pg_locked := False\<rparr>, s)))"

text \<open>\<open>memcpy\<close> and \<open>memset\<close> into a page, with the lengths the source computes.\<close>

definition fill_page :: "buf \<Rightarrow> buf \<Rightarrow> buf" where
  "fill_page u data =
     (let bytes_read = fld uvfs_file_read_rep_s ''bytes_read'' u;
          n = unat (scast bytes_read :: u64);
          data = put_bytes 0 (bytes_at (offsetof uvfs_file_read_rep_s ''buff'') n u) data
      in if sint bytes_read < int PAGE_CACHE_SIZE
         then put_bytes n (replicate (PAGE_CACHE_SIZE - n) 0) data else data)"

definition uvfs_readpage :: "task \<Rightarrow> page \<Rightarrow> vfs \<Rightarrow> int \<times> page \<times> vfs" where
  "uvfs_readpage cur pg s =
     (case vfs_new_transaction s of
        (None, s) \<Rightarrow> (- ENOMEM, pg, s)
      | (Some tr, s) \<Rightarrow>
          let (u, s) = vfs_make_request (\<lambda>n. read_request n (fsuid cur) (fsgid cur)
                (i_fh (the_inode (pg_host pg) s)) (word_of_nat PAGE_CACHE_SIZE)
                (ucast (push_bit PAGE_CACHE_SHIFT (pg_index pg)))) tr s;
              error = reply_error u
          in if error < 0
             then (error, pg\<lparr>pg_error := True, pg_locked := False\<rparr>, kfree s)
             else (0, pg\<lparr>pg_data := fill_page u (pg_data pg), pg_uptodate := True, pg_locked := False\<rparr>,
                   kfree s))"

section \<open>Writing part of a page\<close>

definition uvfs_prepare_write :: "page \<Rightarrow> u32 \<Rightarrow> u32 \<Rightarrow> int" where
  "uvfs_prepare_write pg offset to = 0"

definition uvfs_commit_write :: "task \<Rightarrow> page \<Rightarrow> u32 \<Rightarrow> u32 \<Rightarrow> vfs \<Rightarrow> int \<times> page \<times> vfs" where
  "uvfs_commit_write cur pg offset to s =
     (let i = pg_host pg;
          count = to - offset;
          off = ucast (push_bit PAGE_CACHE_SHIFT (pg_index pg) + ucast offset);
          (retval, s) = uvfs_write cur i (drop (unat offset) (pg_data pg)) off count s;
          pos = push_bit PAGE_CACHE_SHIFT (pg_index pg) + ucast to;
          s = (if sint pos > sint (i_size (the_inode i s))
               then ev (K_mark_inode_dirty i) (upd_inode i (\<lambda>n. n\<lparr>i_size := pos\<rparr>) s) else s)
      in (retval, pg\<lparr>pg_uptodate := True\<rparr>, s))"

text \<open>From kernel 2.6.32 on, the generic write calls these two around its copy into the page.\<close>

definition uvfs_write_begin :: "(u64 \<Rightarrow> page option) \<Rightarrow> u64 \<Rightarrow> u32 \<Rightarrow> int \<times> page option" where
  "uvfs_write_begin grab_cache_page pos len =
     (let index = signed_drop_bit PAGE_CACHE_SHIFT pos;
          from = ucast (pos AND (word_of_nat PAGE_CACHE_SIZE - 1))
      in case grab_cache_page index of
           None \<Rightarrow> (- ENOMEM, None)
         | Some pg \<Rightarrow> (uvfs_prepare_write pg from (from + len), Some pg))"

definition uvfs_write_end :: "task \<Rightarrow> u64 \<Rightarrow> u32 \<Rightarrow> u32 \<Rightarrow> page \<Rightarrow> vfs \<Rightarrow> int \<times> page \<times> vfs" where
  "uvfs_write_end cur pos len copied pg s =
     (let from = ucast (pos AND (word_of_nat PAGE_CACHE_SIZE - 1));
          pg = (if copied < len
                then pg\<lparr>pg_data := put_bytes (unat from + unat copied)
                                  (replicate (unat (len - copied)) 0) (pg_data pg)\<rparr>
                else pg);
          (_, pg, s) = uvfs_commit_write cur pg from (from + copied) s
      in (sint copied, pg\<lparr>pg_locked := False\<rparr>, s))"

section \<open>Attributes\<close>

record iattr =
  ia_valid :: u32
  ia_mode :: u16
  ia_uid :: u32
  ia_gid :: u32
  ia_size :: u64
  ia_atime :: ktimespec
  ia_mtime :: ktimespec
  ia_ctime :: ktimespec

definition ATTR_ATIME :: u32 where "ATTR_ATIME = 16"
definition ATTR_MTIME :: u32 where "ATTR_MTIME = 32"
definition ATTR_CTIME :: u32 where "ATTR_CTIME = 64"

definition utime :: "ktimespec \<Rightarrow> uvfs_timespec_s" where
  "utime t = \<lparr>tv_sec = ucast (k_sec t), tv_nsec = ucast (k_nsec t)\<rparr>"

definition setattr_args_of :: "iattr \<Rightarrow> setattr_args" where
  "setattr_args_of a =
     \<lparr>sa_valid = ia_valid a, sa_uid = ia_uid a, sa_gid = ia_gid a, sa_size = ucast (ia_size a),
      sa_atime = utime (ia_atime a), sa_mtime = utime (ia_mtime a), sa_ctime = utime (ia_ctime a),
      sa_mode = ucast (ia_mode a)\<rparr>"

text \<open>The second component is what the caller's \<open>iattr\<close> holds afterwards.\<close>

definition uvfs_setattr ::
  "task \<Rightarrow> (uvfs_inode_info \<Rightarrow> iattr \<Rightarrow> int) \<Rightarrow> (iattr \<Rightarrow> uvfs_inode_info \<Rightarrow> int \<times> uvfs_inode_info)
     \<Rightarrow> iid \<Rightarrow> iattr \<Rightarrow> vfs \<Rightarrow> int \<times> iattr \<times> vfs" where
  "uvfs_setattr cur inode_change_ok inode_setattr i attr s =
     (let error = inode_change_ok (the_inode i s) attr in
      if error < 0 then (error, attr, s)
      else
        (let oldflags = ia_valid attr;
             attr = attr\<lparr>ia_valid := ia_valid attr AND NOT (ATTR_ATIME OR ATTR_MTIME OR ATTR_CTIME)\<rparr>;
             (failed, n) = inode_setattr attr (the_inode i s);
             s = upd_inode i (\<lambda>_. n) s
         in if failed \<noteq> 0 then (- EINVAL, attr, s)
            else
              (let attr = attr\<lparr>ia_valid := oldflags\<rparr> in
               case vfs_new_transaction s of
                 (None, s) \<Rightarrow> (- ENOMEM, attr, s)
               | (Some tr, s) \<Rightarrow>
                   let (u, s) = vfs_make_request (\<lambda>n. setattr_request n (fsuid cur) (fsgid cur)
                         (i_fh (the_inode i s)) (setattr_args_of attr)) tr s
                   in (reply_error u, attr, kfree s))))"

definition uvfs_getattr :: "kernel \<Rightarrow> task \<Rightarrow> (uvfs_inode_info \<Rightarrow> 'stat) \<Rightarrow> iid \<Rightarrow> vfs \<Rightarrow> int \<times> 'stat \<times> vfs" where
  "uvfs_getattr k cur generic_fillattr i s =
     (let (error, s) = uvfs_revalidate_inode k cur i s in (error, generic_fillattr (the_inode i s), s))"


section \<open>Word arithmetic of pages\<close>

lemma page_words [simp]:
  "word_of_nat PAGE_CACHE_SIZE - 1 = (mask PAGE_CACHE_SHIFT :: u64)"
  by (simp add: layout_simps mask_eq_exp_minus_1)

lemma signed_shift:
  fixes w :: u64
  assumes "unat w < 2 ^ 63"
  shows "signed_drop_bit k w = drop_bit k w"
proof (rule bit_word_eqI)
  fix n assume "n < LENGTH(64)"
  have "take_bit 63 w = w"
    using assms by (metis take_bit_nat_eq_self_iff unsigned_take_bit_eq word_unat_eq_iff)
  then have "\<not> bit w m" if "63 \<le> m" for m
    using that by (metis bit_take_bit_iff not_le)
  then show "bit (signed_drop_bit k w) n = bit (drop_bit k w) n"
    using \<open>n < LENGTH(64)\<close> by (auto simp: bit_signed_drop_bit_iff bit_drop_bit_eq)
qed

lemma unat_page_index:
  fixes w :: u64
  assumes "unat w < 2 ^ 44"
  shows "unat (ucast (signed_drop_bit PAGE_CACHE_SHIFT w) :: u32) = unat w div 4096"
proof -
  have "unat w div 4096 < 2 ^ 32" using assms by (simp add: less_mult_imp_div_less)
  then show ?thesis
    using assms by (simp add: signed_shift layout_simps unat_div drop_bit_eq_div unsigned_ucast_eq take_bit_eq_mod)
qed

lemma unat_page_rest:
  "unat (ucast (w AND mask PAGE_CACHE_SHIFT) :: u32) = unat w mod 4096" for w :: u64
  by (simp add: layout_simps unsigned_ucast_eq take_bit_eq_mask [symmetric] take_bit_eq_mod unat_mod)

lemma unat_page_offset:
  fixes i :: u64
  assumes "unat i < 2 ^ 20"
  shows "unat (ucast (push_bit PAGE_CACHE_SHIFT i) :: u32) = unat i * 4096"
  using assms unat_mult_lem [of i 4096]
  by (simp add: layout_simps unsigned_ucast_eq push_bit_eq_mult take_bit_eq_mod)


lemma unat_page_place:
  fixes i :: u64 and offset :: u32
  assumes "unat i < 2 ^ 20"
  shows "ucast (push_bit PAGE_CACHE_SHIFT i + ucast offset) = (word_of_nat (unat i * 4096 + unat offset) :: u32)"
proof -
  have "unat (push_bit PAGE_CACHE_SHIFT i) = unat i * 4096"
    using assms unat_mult_lem [of i 4096] by (simp add: layout_simps push_bit_eq_mult)
  moreover have "unat offset < 2 ^ LENGTH(32)" by (rule unsigned_less)
  ultimately have "unat (push_bit PAGE_CACHE_SHIFT i + ucast offset) = unat i * 4096 + unat offset"
    using assms unat_add_lem [of "push_bit PAGE_CACHE_SHIFT i" "ucast offset"] by (simp add: unat_widen)
  then have "unat (ucast (push_bit PAGE_CACHE_SHIFT i + ucast offset) :: u32) =
      unat (word_of_nat (unat i * 4096 + unat offset) :: u32)"
    by (simp add: unsigned_ucast_eq unsigned_of_nat del: of_nat_add of_nat_mult)
  then show ?thesis by (simp only: word_unat_eq_iff)
qed

section \<open>Receiving data\<close>

lemma fill_page_spec:
  assumes "length data = PAGE_CACHE_SIZE" and "get32 16 u = word_of_nat k" and "k \<le> PAGE_CACHE_SIZE"
    and "20 + k \<le> length u"
  shows "fill_page u data = bytes_at 20 k u @ replicate (PAGE_CACHE_SIZE - k) 0"
  using assms unat_signed_widen [of k]
  by (simp add: fill_page_def fld_def layout_simps Let_def put_bytes_def)

section \<open>Sending data\<close>

lemma write_exchange:
  assumes "script s = Exchange junk n out # xs" and "exchange_ok (Exchange junk n out)"
    and "length (take (unat count) buff) \<le> PAGE_CACHE_SIZE"
  obtains u s' where "uvfs_write cur i buff off count s = (outcome_error out, s')"
    "icache s' = icache s" "script s' = xs" "events s' = events s @ [T_alloc, T_submit u, T_free]"
    "parse_request (delivered u) =
       Some (n, Write (fsuid cur) (fsgid cur) (i_fh (the_inode i s)) off (take (unat count) buff))"
proof -
  let ?rq = "Write (fsuid cur) (fsgid cur) (i_fh (the_inode i s)) off (take (unat count) buff)"
  have ok: "length junk = sizeof_u" "args_ok ?rq" "outcome_ok out" using assms(2,3) by simp_all
  have len: "length (build n ?rq junk) = sizeof_u" using build_length [OF ok(1,2)] .
  show ?thesis
    by (rule that [of "snd (uvfs_write cur i buff off count s)" "build n ?rq junk"])
      (use assms(1) len ok build_parse [OF ok(1,2)] in \<open>simp_all add: uvfs_write_def Let_def\<close>)
qed

text \<open>The pages of a file of \<open>eof\<close> bytes: which of them hold data, and how much.\<close>

lemma page_inside:
  fixes i eof :: nat
  shows "i * 4096 < eof \<longleftrightarrow> i < eof div 4096 \<or> i = eof div 4096 \<and> eof mod 4096 \<noteq> 0"
proof -
  have "eof = eof div 4096 * 4096 + eof mod 4096" "eof mod 4096 < 4096" by simp_all
  then show ?thesis by linarith
qed

lemma page_bytes:
  fixes i eof :: nat
  assumes "i * 4096 < eof" and "length data = 4096"
  shows "take (if i < eof div 4096 then 4096 else eof mod 4096) data = take (eof - i * 4096) data"
proof (cases "i < eof div 4096")
  case True
  then have "(i + 1) * 4096 \<le> eof div 4096 * 4096" by (intro mult_le_mono1) simp
  also have "\<dots> \<le> eof" by simp
  finally have "4096 \<le> eof - i * 4096" by simp
  with True assms(2) show ?thesis by simp
next
  case False
  then have "i = eof div 4096" using assms(1) page_inside [of i eof] by simp
  with False show ?thesis by (simp add: minus_div_mult_eq_mod)
qed

text \<open>The two words \<open>uvfs_writepage\<close> computes from the size: the index of the last page and the bytes
  in it.\<close>

lemma last_page_words:
  fixes size index :: u64
  assumes "unat size < 2 ^ 32"
  shows "index < ucast (ucast (signed_drop_bit PAGE_CACHE_SHIFT size) :: u32) \<longleftrightarrow> unat index < unat size div 4096"
    and "ucast (ucast (signed_drop_bit PAGE_CACHE_SHIFT size) :: u32) < index \<longleftrightarrow> unat size div 4096 < unat index"
    and "unat (ucast (size AND mask PAGE_CACHE_SHIFT) :: u32) = unat size mod 4096"
proof -
  have "unat size < 2 ^ 44" using assms by simp
  then have "unat (ucast (ucast (signed_drop_bit PAGE_CACHE_SHIFT size) :: u32) :: u64) = unat size div 4096"
    using unat_page_index [of size] by (simp only: unat_widen)
  then show "index < ucast (ucast (signed_drop_bit PAGE_CACHE_SHIFT size) :: u32) \<longleftrightarrow> unat index < unat size div 4096"
    and "ucast (ucast (signed_drop_bit PAGE_CACHE_SHIFT size) :: u32) < index \<longleftrightarrow> unat size div 4096 < unat index"
    by (simp_all add: word_less_nat_alt)
qed (simp add: unat_page_rest)

section \<open>Properties\<close>

text \<open>
  C28. \<open>uvfs_writepage\<close> writes back exactly the part of the page that lies inside the file: for a
  page beyond the end of the file nothing is sent and the page is clean; otherwise the
  request carries, at the page's place in the file, the bytes of the page up to the end of
  the file. The page is flagged with the server's verdict and unlocked in every case.
\<close>

theorem writepage_correct:
  assumes "script s = Exchange junk n out # xs" and "exchange_ok (Exchange junk n out)"
    and "length (pg_data pg) = PAGE_CACHE_SIZE"
    and "eof = unat (i_size (the_inode (pg_host pg) s))" and "eof < 2 ^ 32"
    and "start = unat (pg_index pg) * PAGE_CACHE_SIZE" and "uvfs_writepage cur pg s = (e, pg', s')"
  shows "(eof \<le> start \<longrightarrow> e = 0 \<and> s' = s \<and> pg' = pg\<lparr>pg_uptodate := True, pg_locked := False\<rparr>)
    \<and> (start < eof \<longrightarrow> e = outcome_error out
        \<and> pg' = (if e = 0 then pg\<lparr>pg_uptodate := True, pg_locked := False\<rparr>
                  else pg\<lparr>pg_error := True, pg_locked := False\<rparr>)
        \<and> (\<exists>u. events s' = events s @ [T_alloc, T_submit u, T_free]
             \<and> parse_request (delivered u) = Some (n, Write (fsuid cur) (fsgid cur)
                  (i_fh (the_inode (pg_host pg) s)) (word_of_nat start)
                  (take (eof - start) (pg_data pg)))))"
proof -
  let ?size = "i_size (the_inode (pg_host pg) s)"
  let ?eix = "ucast (ucast (signed_drop_bit PAGE_CACHE_SHIFT ?size) :: u32) :: u64"
  let ?rest = "ucast (?size AND mask PAGE_CACHE_SHIFT) :: u32"
  let ?count = "if pg_index pg < ?eix then word_of_nat PAGE_CACHE_SIZE else ?rest"
  have small: "unat ?size < 2 ^ 32" using assms(4,5) by simp
  note words = last_page_words(1,2) [OF small, where index = "pg_index pg", folded assms(4)]
    last_page_words(3) [OF small, folded assms(4)]
  have st: "start = unat (pg_index pg) * 4096" using assms(6) by (simp add: layout_simps)
  have early: "(\<not> pg_index pg < ?eix \<and> (?eix < pg_index pg \<or> ?rest = 0)) \<longleftrightarrow> eof \<le> start"
    using st page_inside [of "unat (pg_index pg)" eof] words by (auto simp: unat_eq_zero)
  show ?thesis
  proof (cases "start < eof")
    case False
    with early assms(7) show ?thesis by (simp add: uvfs_writepage_def Let_def)
  next
    case True
    have cnt: "take (unat ?count) (pg_data pg) = take (eof - start) (pg_data pg)"
      using page_bytes [of "unat (pg_index pg)" eof "pg_data pg"] True st words assms(3) by (simp add: layout_simps split: if_splits)
    have off: "ucast (push_bit PAGE_CACHE_SHIFT (pg_index pg)) = (word_of_nat start :: u32)"
      using unat_page_place [of "pg_index pg" 0] True st assms(5) by simp
    have early': "\<not> (\<not> pg_index pg < ?eix \<and> (?eix < pg_index pg \<or> ?count = 0))"
      using early True by auto
    obtain u s1 where w: "uvfs_write cur (pg_host pg) (pg_data pg) (word_of_nat start) ?count s = (outcome_error out, s1)"
      "icache s1 = icache s" "events s1 = events s @ [T_alloc, T_submit u, T_free]"
      "parse_request (delivered u) = Some (n, Write (fsuid cur) (fsgid cur)
         (i_fh (the_inode (pg_host pg) s)) (word_of_nat start) (take (unat ?count) (pg_data pg)))"
      by (rule write_exchange [OF assms(1,2), of ?count "pg_data pg"]) (use assms(3) in auto)
    have "(e, pg', s') = (outcome_error out, (if outcome_error out \<noteq> 0 then pg\<lparr>pg_error := True\<rparr>
        else pg\<lparr>pg_uptodate := True\<rparr>)\<lparr>pg_locked := False\<rparr>, s1)"
      using assms(7) unfolding uvfs_writepage_def Let_def page_words if_not_P [OF early'] off w(1) by auto
    with True w cnt show ?thesis by auto
  qed
qed


definition demo_page :: "byte \<Rightarrow> page" where
  "demo_page b = \<lparr>pg_index = 0, pg_data = replicate PAGE_CACHE_SIZE b, pg_uptodate = False, pg_error = False,
                  pg_locked = True, pg_host = 7\<rparr>"

definition sized_inode :: "u64 \<Rightarrow> exchange list \<Rightarrow> vfs" where
  "sized_inode n xs = \<lparr>icache = [(7, (blank_inode 0 0)\<lparr>i_size := n\<rparr>)], script = xs, events = []\<rparr>"

lemma sized_inode_simps [simp]:
  "the_inode 7 (sized_inode n xs) = (blank_inode 0 0)\<lparr>i_size := n\<rparr>" "script (sized_inode n xs) = xs"
  "in_cache i (sized_inode n xs) = (i = 7)" "events (sized_inode n xs) = []"
  by (auto simp: sized_inode_def the_inode_def in_cache_def)

theorem writepage_correct_witness:
  "fst (uvfs_writepage root_task (demo_page 65) (sized_inode 100 killed)) = - ERESTARTSYS"
proof -
  obtain e pg' s' where run: "uvfs_writepage root_task (demo_page 65) (sized_inode 100 killed) = (e, pg', s')"
    by (metis prod_cases3)
  from writepage_correct [OF _ _ _ refl _ refl run, of "replicate sizeof_u 90" 3 "Interrupted None" "[]"]
  show ?thesis using run
    by (simp add: killed_def demo_page_def layout_simps)
qed



text \<open>
  The length in the reply is not checked against the size of the reply: a reply without any
  data that claims a full page fills the page with what the memory of the transaction held.
\<close>

theorem readpage_trusts_length:
  assumes "length junk = sizeof_u" and "script s = Exchange junk n (Replied data) # xs" and "length data = 20"
    and "get32 12 data = 0" and "get32 16 data = 4096" and "length (pg_data pg) = PAGE_CACHE_SIZE"
    and "uvfs_readpage cur pg s = (e, pg', s')"
  shows "e = 0 \<and> pg_uptodate pg' \<and> bytes_at 40 (4096 - 40) (pg_data pg') = bytes_at 60 (4096 - 40) junk"
proof -
  define off :: u32 where "off = ucast (push_bit PAGE_CACHE_SHIFT (pg_index pg))"
  let ?rq = "Read (fsuid cur) (fsgid cur) (i_fh (the_inode (pg_host pg) s)) (word_of_nat PAGE_CACHE_SIZE) off"
  define u where "u = make_request_result (Replied data) (build n ?rq junk)"
  have len: "length (build n ?rq junk) = sizeof_u" by (rule build_length [OF assms(1)]) simp
  have u: "length u = sizeof_u" "get32 16 u = word_of_nat 4096" "reply_error u = 0"
    using assms(3,4,5) len
    by (simp_all add: u_def make_request_result.simps get32_overlay length_overlay reply_error_def layout_simps)
  have tail: "bytes_at 60 4056 u = bytes_at 60 4056 junk"
    using assms(1,3) len
    by (simp add: u_def make_request_result.simps overlay_def buffer_simps,
        simp add: read_request_def wire_simps union_length)
  have "e = 0" "pg_uptodate pg'" "pg_data pg' = fill_page u (pg_data pg)"
    using assms(2,7) u(3) unfolding uvfs_readpage_def off_def [symmetric] u_def
    by (auto simp: Let_def split: if_splits)
  moreover have "fill_page u (pg_data pg) = bytes_at 20 4096 u"
    using fill_page_spec [OF assms(6) u(2)] u(1) by (simp add: layout_simps)
  ultimately show ?thesis
    using tail by (simp add: bytes_at_bytes_at)
qed

definition claims_page :: buf where
  "claims_page = replicate 16 0 @ le32 4096"

lemma claims_page_simps [simp]:
  "length claims_page = 20" "get32 12 claims_page = 0" "get32 16 claims_page = 4096"
  by (simp_all add: claims_page_def buffer_simps,
      simp add: get32_def bytes_at_def of_le32_def numeral_eq_Suc)

theorem readpage_trusts_length_witness:
  "bytes_at 40 (4096 - 40) (pg_data (fst (snd (uvfs_readpage root_task (demo_page 65)
     (sized_inode 100 [Exchange (replicate sizeof_u 170) 0 (Replied claims_page)]))))) = replicate 4056 170"
proof -
  obtain e pg' s' where run: "uvfs_readpage root_task (demo_page 65)
      (sized_inode 100 [Exchange (replicate sizeof_u 170) 0 (Replied claims_page)]) = (e, pg', s')"
    by (metis prod_cases3)
  from readpage_trusts_length [OF _ _ _ _ _ _ run, of "replicate sizeof_u 170" 0 claims_page "[]"]
  show ?thesis using run
    by (simp add: demo_page_def layout_simps bytes_at_def)
qed

text \<open>
  \<open>uvfs_commit_write\<close> sends exactly the bytes between \<open>offset\<close> and \<open>to\<close> of the page, at their
  place in the file, and returns the server's verdict.
\<close>

theorem commit_write_sends:
  assumes "script s = Exchange junk n out # xs" and "exchange_ok (Exchange junk n out)"
    and "length (pg_data pg) = PAGE_CACHE_SIZE" and "unat (pg_index pg) < 2 ^ 20"
    and "unat offset \<le> unat to" and "unat to \<le> PAGE_CACHE_SIZE"
    and "uvfs_commit_write cur pg offset to s = (e, pg', s')"
  shows "e = outcome_error out \<and> (\<exists>u es. events s' = events s @ [T_alloc, T_submit u, T_free] @ es
     \<and> parse_request (delivered u) = Some (n, Write (fsuid cur) (fsgid cur) (i_fh (the_inode (pg_host pg) s))
          (word_of_nat (unat (pg_index pg) * 4096 + unat offset))
          (bytes_at (unat offset) (unat to - unat offset) (pg_data pg))))"
proof -
  let ?off = "ucast (push_bit PAGE_CACHE_SHIFT (pg_index pg) + ucast offset) :: u32"
  have cnt: "unat (to - offset) = unat to - unat offset"
    using assms(5) by (simp add: unat_sub word_le_nat_alt)
  obtain u s1 where w: "uvfs_write cur (pg_host pg) (drop (unat offset) (pg_data pg)) ?off (to - offset) s
      = (outcome_error out, s1)" "events s1 = events s @ [T_alloc, T_submit u, T_free]"
    "parse_request (delivered u) = Some (n, Write (fsuid cur) (fsgid cur) (i_fh (the_inode (pg_host pg) s)) ?off
       (take (unat (to - offset)) (drop (unat offset) (pg_data pg))))"
    by (rule write_exchange [OF assms(1,2), of "to - offset" "drop (unat offset) (pg_data pg)"])
      (use assms(3,6) cnt in auto)
  have "e = outcome_error out \<and> (\<exists>es. events s' = events s1 @ es)"
    using assms(7) w(1) by (auto simp: uvfs_commit_write_def Let_def split: if_splits)
  with w(2,3) show ?thesis
    unfolding cnt unat_page_place [OF assms(4)] bytes_at_def [symmetric] by auto
qed

theorem commit_write_sends_witness:
  "fst (uvfs_commit_write root_task (demo_page 65) 10 20 (sized_inode 100 killed)) = - ERESTARTSYS"
proof -
  obtain e pg' s' where run: "uvfs_commit_write root_task (demo_page 65) 10 20 (sized_inode 100 killed) = (e, pg', s')"
    by (metis prod_cases3)
  from commit_write_sends [OF _ _ _ _ _ _ run, of "replicate sizeof_u 90" 3 "Interrupted None" "[]"]
  show ?thesis using run
    by (simp add: killed_def demo_page_def layout_simps)
qed

text \<open>
  A failed write is not undone: the file grows and the page counts as up to date even when the
  server refused the data, and \<open>uvfs_write_end\<close> reports all bytes as written.
\<close>

theorem commit_write_ignores_error:
  assumes "in_cache (pg_host pg) s" and "uvfs_commit_write cur pg offset to s = (e, pg', s')"
    and "pos = push_bit PAGE_CACHE_SHIFT (pg_index pg) + ucast to"
    and "sint (i_size (the_inode (pg_host pg) s)) < sint pos"
  shows "pg_uptodate pg' \<and> i_size (the_inode (pg_host pg) s') = pos
    \<and> fst (uvfs_write_end cur p len copied pg s) = sint copied"
proof -
  have "icache (snd (uvfs_write cur i buff off count s)) = icache s" for i buff off count
    by (cases rule: new_transaction_cases [of s]) (auto simp: uvfs_write_def Let_def)
  then have same: "the_inode j (snd (uvfs_write cur i buff off count s)) = the_inode j s"
    "in_cache j (snd (uvfs_write cur i buff off count s)) = in_cache j s" for j i buff off count
    by (simp_all add: the_inode_def in_cache_def)
  have "pg_uptodate pg' \<and> i_size (the_inode (pg_host pg) s') = pos"
    using assms same by (auto simp: uvfs_commit_write_def Let_def split_beta the_inode_upd)
  moreover have "fst (uvfs_write_end cur p len copied pg s) = sint copied"
    by (simp add: uvfs_write_end_def Let_def split_beta)
  ultimately show ?thesis by simp
qed


theorem commit_write_ignores_error_witness:
  "i_size (the_inode 7 (snd (snd (uvfs_commit_write root_task (demo_page 65) 0 200 (sized_inode 100 killed))))) = 200"
proof -
  obtain e pg' s' where run: "uvfs_commit_write root_task (demo_page 65) 0 200 (sized_inode 100 killed) = (e, pg', s')"
    by (metis prod_cases3)
  from commit_write_ignores_error [OF _ run refl]
  show ?thesis using run by (simp add: demo_page_def layout_simps)
qed


definition demo_attr :: iattr where
  "demo_attr = \<lparr>ia_valid = 41, ia_mode = 420, ia_uid = 0, ia_gid = 0, ia_size = 0,
     ia_atime = \<lparr>k_sec = 0, k_nsec = 0\<rparr>, ia_mtime = \<lparr>k_sec = 9, k_nsec = 0\<rparr>, ia_ctime = \<lparr>k_sec = 0, k_nsec = 0\<rparr>\<rparr>"


text \<open>
  Reading, writing and mapping a file start with fresh attributes: the generic function runs
  exactly when the server confirmed the inode, on a state in which the inode shows the
  attributes of the reply; otherwise the caller gets the error of the exchange.
\<close>

theorem file_access_revalidates:
  assumes "script s = Exchange junk n out # xs" and "exchange_ok (Exchange junk n out)" and "in_cache i s"
    and "\<And>data. out = Replied data \<Longrightarrow> 72 \<le> length data"
    and "access \<in> {uvfs_file_read, uvfs_file_write, uvfs_file_mmap}"
  shows "(outcome_error out \<noteq> 0 \<longrightarrow> fst (access k cur generic i s) = outcome_error out
           \<and> icache (snd (access k cur generic i s)) = icache s)
    \<and> (\<forall>data. out = Replied data \<longrightarrow> sint (get32 12 data) = 0 \<longrightarrow>
         (\<exists>s1. access k cur generic i s = generic s1
            \<and> shows_attr (the_inode i s1) (fld_attr uvfs_getattr_rep_s ''a'' data)))"
proof -
  obtain error s1 where rv: "uvfs_revalidate_inode k cur i s = (error, s1)" by fastforce
  have acc: "access k cur generic i s = (if error = 0 then generic s1 else (error, s1))"
    using assms(5) rv by (auto simp: uvfs_file_read_def uvfs_file_write_def uvfs_file_mmap_def)
  note spec = revalidate_spec [OF assms(1,2) rv]
  show ?thesis
    using spec acc assms(3,4) by auto
qed

theorem file_access_revalidates_witness:
  "fst (uvfs_file_read plain_kernel root_task (\<lambda>s. (4096, s)) 7 (sized_inode 100 killed)) = - ERESTARTSYS"
  using file_access_revalidates [of "sized_inode 100 killed" "replicate sizeof_u 90" 3 "Interrupted None" "[]" 7
      uvfs_file_read plain_kernel root_task "\<lambda>s. (4096, s)"]
  by (simp add: killed_def)

text \<open>
  \<open>uvfs_getattr\<close> always reports the attributes of the inode: those of the reply after a
  successful exchange, the ones it had before otherwise, with the error beside them.
\<close>

theorem getattr_correct:
  assumes "script s = Exchange junk n out # xs" and "exchange_ok (Exchange junk n out)" and "in_cache i s"
    and "\<And>data. out = Replied data \<Longrightarrow> 72 \<le> length data"
    and "uvfs_getattr k cur fill i s = (e, st, s')"
  shows "e = outcome_error out \<and> st = fill (the_inode i s') \<and> (e \<noteq> 0 \<longrightarrow> st = fill (the_inode i s))
    \<and> (\<forall>data. out = Replied data \<longrightarrow> e = 0 \<longrightarrow>
         shows_attr (the_inode i s') (fld_attr uvfs_getattr_rep_s ''a'' data))"
proof -
  obtain error s1 where rv: "uvfs_revalidate_inode k cur i s = (error, s1)" by fastforce
  have "(e, st, s') = (error, fill (the_inode i s1), s1)"
    using assms(5) rv by (auto simp: uvfs_getattr_def)
  moreover have "icache s1 = icache s \<Longrightarrow> the_inode i s1 = the_inode i s"
    by (simp add: the_inode_def)
  ultimately show ?thesis
    using revalidate_spec [OF assms(1,2) rv] assms(3,4) by auto
qed

theorem getattr_correct_witness:
  "fst (uvfs_getattr plain_kernel root_task i_size 7 (sized_inode 100 killed)) = - ERESTARTSYS"
proof -
  obtain e st s' where run: "uvfs_getattr plain_kernel root_task i_size 7 (sized_inode 100 killed) = (e, st, s')"
    by (metis prod_cases3)
  from getattr_correct [OF _ _ _ _ run, of "replicate sizeof_u 90" 3 "Interrupted None" "[]"]
  show ?thesis using run by (simp add: killed_def)
qed

end
