(* ===== verification/Uvfs_Symlink.thy ===== *)
theory Uvfs_Symlink
  imports Uvfs_Dir
begin

text \<open>
  Reading a symbolic link, \<open>src/symlink.c\<close>: \<open>uvfs_readlink\<close> and \<open>uvfs_follow_link\<close> ask the server
  for the target, terminate it in place with a zero byte at the index the server names, and
  pass the C string on to \<open>vfs_readlink\<close> and \<open>vfs_follow_link\<close> of the kernel, which are
  arguments here: \<open>'m\<close> is the memory of the user, \<open>'nd\<close> the state of the path walk. The store
  may miss the union; it is then the value \<open>None\<close>, memory of another object being overwritten.
\<close>

section \<open>The operations\<close>

text \<open>The C string at an offset: the bytes before the first zero byte.\<close>

definition c_string :: "nat \<Rightarrow> buf \<Rightarrow> buf" where
  "c_string off u = takeWhile (\<lambda>b. b \<noteq> 0) (drop off u)"

text \<open>\<open>reply->buff[reply->len] = 0\<close>\<close>

definition terminate_target :: "buf \<Rightarrow> buf option" where
  "terminate_target u =
     (let at = int (offsetof uvfs_readlink_rep_s ''buff'') + sint (fld uvfs_readlink_rep_s ''len'' u)
      in if 0 \<le> at \<and> at < int (length u) then Some (u[nat at := 0]) else None)"

definition uvfs_readlink ::
  "(dentry \<Rightarrow> u32 \<Rightarrow> buf \<Rightarrow> 'm \<Rightarrow> int \<times> 'm) \<Rightarrow> task \<Rightarrow> dentry \<Rightarrow> u32 \<Rightarrow> 'm \<Rightarrow> vfs \<Rightarrow> (int \<times> 'm) option \<times> vfs" where
  "uvfs_readlink vfs_readlink cur entry buflen mem s =
     (case vfs_new_transaction s of
        (None, s) \<Rightarrow> (Some (- ENOMEM, mem), s)
      | (Some tr, s) \<Rightarrow>
          let inode = the (d_inode entry);
              (u, s) = vfs_make_request (\<lambda>n. readlink_request n (fsuid cur) (fsgid cur) (i_fh (the_inode inode s))) tr s
          in if reply_error u < 0 then (Some (reply_error u, mem), kfree s)
             else case terminate_target u of
                 None \<Rightarrow> (None, s)
               | Some u \<Rightarrow> (Some (vfs_readlink entry buflen (c_string (offsetof uvfs_readlink_rep_s ''buff'') u) mem), kfree s))"

text \<open>\<open>ERR_PTR(error)\<close> of the newer kernels is the same value as \<open>error\<close>, as a pointer.\<close>

definition uvfs_follow_link ::
  "('nd \<Rightarrow> buf \<Rightarrow> int \<times> 'nd) \<Rightarrow> task \<Rightarrow> dentry \<Rightarrow> 'nd \<Rightarrow> vfs \<Rightarrow> (int \<times> 'nd) option \<times> vfs" where
  "uvfs_follow_link vfs_follow_link cur entry nd s =
     (case vfs_new_transaction s of
        (None, s) \<Rightarrow> (Some (- ENOMEM, nd), s)
      | (Some tr, s) \<Rightarrow>
          let inode = the (d_inode entry);
              (u, s) = vfs_make_request (\<lambda>n. readlink_request n (fsuid cur) (fsgid cur) (i_fh (the_inode inode s))) tr s
          in if reply_error u < 0 then (Some (reply_error u, nd), kfree s)
             else case terminate_target u of
                 None \<Rightarrow> (None, s)
               | Some u \<Rightarrow> (Some (vfs_follow_link nd (c_string (offsetof uvfs_readlink_rep_s ''buff'') u)), kfree s))"

section \<open>The target\<close>

text \<open>The reply a server has to write for the target \<open>path\<close>.\<close>

definition enc_readlink :: "u32 \<Rightarrow> buf \<Rightarrow> buf" where
  "enc_readlink serial path =
     le32 UVFS_READLINK @ le32 serial @ le32 (word_of_nat (20 + length path)) @ le32 0
     @ le32 (word_of_nat (length path)) @ path"

lemma takeWhile_cut: "0 \<notin> set xs \<Longrightarrow> takeWhile (\<lambda>b. b \<noteq> 0) (xs @ 0 # ys) = xs"
  by (induction xs) auto

lemma length_readlink:
  "length junk = sizeof_u \<Longrightarrow> length (readlink_request n uid gid fh junk) = sizeof_u"
  using build_length [of junk "Readlink uid gid fh" n] by simp

lemma target_read:
  fixes u path :: buf and n :: u32
  assumes "length u = sizeof_u" and "length path < UVFS_MAX_PATHLEN" and "0 \<notin> set path"
  defines "r \<equiv> make_request_result (Replied (enc_readlink n path)) u"
  obtains r' where "reply_error r = 0" and "terminate_target r = Some r'" and "c_string 20 r' = path"
proof -
  let ?l = "length path"
  have small: "?l < 1024" using assms(2) by (simp add: layout_simps)
  have len: "length (enc_readlink n path) = 20 + ?l" by (simp add: enc_readlink_def)
  have r: "r = enc_readlink n path @ drop (20 + ?l) u"
    unfolding r_def by (simp add: make_request_result.simps overlay_def put_bytes_def len)
  have "get32 12 r = 0" and l: "get32 16 r = word_of_nat ?l"
    unfolding r by (simp_all add: enc_readlink_def buffer_simps)
  then have e: "reply_error r = 0" by (simp add: reply_error_def layout_simps)
  have sl: "sint (get32 16 r) = int ?l"
    unfolding l using small by (intro unat_signed_widen) simp
  have lr: "length r = sizeof_u" unfolding r using assms(1) small len by (simp add: layout_simps)
  obtain x rest where x: "drop (20 + ?l) u = x # rest"
    using assms(1) small by (cases "drop (20 + ?l) u") (auto simp: layout_simps)
  have "terminate_target r = Some (r[20 + ?l := 0])"
    using small lr sl by (simp add: terminate_target_def fld_def layout_simps nat_add_distrib)
  moreover have "r[20 + ?l := 0] = enc_readlink n path @ 0 # rest"
    unfolding r x using len by (simp add: list_update_append)
  moreover have "c_string 20 (enc_readlink n path @ 0 # rest) = path"
    using assms(3) by (simp add: c_string_def enc_readlink_def takeWhile_cut)
  ultimately show ?thesis using that e by metis
qed

text \<open>
  C31. Reading a link: when the server answers with a path without zero bytes that fits into the
  reply's buffer, \<open>vfs_readlink\<close> is called with exactly that path, whatever was in the memory of
  the transaction before; an error of the server or the driver is returned and the user's
  memory is left alone.
\<close>

theorem readlink_correct:
  assumes "script s = Exchange junk n out # xs" and "length junk = sizeof_u" and "outcome_ok out"
  shows "(out = Replied (enc_readlink n path) \<longrightarrow> length path < UVFS_MAX_PATHLEN \<longrightarrow> 0 \<notin> set path \<longrightarrow>
           fst (uvfs_readlink vfs_readlink cur entry buflen mem s) = Some (vfs_readlink entry buflen path mem))
       \<and> (outcome_error out < 0 \<longrightarrow>
           fst (uvfs_readlink vfs_readlink cur entry buflen mem s) = Some (outcome_error out, mem))"
proof -
  let ?u = "readlink_request n (fsuid cur) (fsgid cur) (i_fh (the_inode (the (d_inode entry)) s)) junk"
  have len: "length ?u = sizeof_u" using assms(2) by (rule length_readlink)
  have e: "reply_error (make_request_result out ?u) = outcome_error out"
    using len assms(3) by (rule reply_error_result)
  show ?thesis
  proof (intro conjI impI)
    assume out: "out = Replied (enc_readlink n path)" and "length path < UVFS_MAX_PATHLEN" "0 \<notin> set path"
    from target_read [OF len this(2,3), of n] obtain r'
      where r': "terminate_target (make_request_result out ?u) = Some r'" "c_string 20 r' = path"
        "reply_error (make_request_result out ?u) = 0"
      unfolding out by blast
    then show "fst (uvfs_readlink vfs_readlink cur entry buflen mem s) = Some (vfs_readlink entry buflen path mem)"
      using assms(1) by (simp add: uvfs_readlink_def Let_def layout_simps)
  qed (use assms(1) e in \<open>simp add: uvfs_readlink_def Let_def\<close>)
qed

definition copies :: "dentry \<Rightarrow> u32 \<Rightarrow> buf \<Rightarrow> buf \<Rightarrow> int \<times> buf" where
  "copies entry buflen path mem = (int (min (length path) (unat buflen)), take (unat buflen) path)"

theorem readlink_correct_witness:
  "fst (uvfs_readlink copies root_task (demo_entry [108] (Some 7)) 2 []
      (one_inode [Exchange (replicate sizeof_u 255) 4 (Replied (enc_readlink 4 [47, 101, 116, 99]))])) = Some (2, [47, 101])"
  using readlink_correct [of "one_inode [Exchange (replicate sizeof_u 255) 4 (Replied (enc_readlink 4 [47, 101, 116, 99]))]"
      "replicate sizeof_u 255" 4 "Replied (enc_readlink 4 [47, 101, 116, 99])" "[]" "[47, 101, 116, 99]" copies
      root_task "demo_entry [108] (Some 7)" 2 "[]"]
  by (simp add: enc_readlink_def layout_simps copies_def)

text \<open>
  Following a link: the path walk continues with exactly the path of the reply, and an error of
  the server or the driver ends the walk.
\<close>

theorem follow_link_correct:
  assumes "script s = Exchange junk n out # xs" and "length junk = sizeof_u" and "outcome_ok out"
  shows "(out = Replied (enc_readlink n path) \<longrightarrow> length path < UVFS_MAX_PATHLEN \<longrightarrow> 0 \<notin> set path \<longrightarrow>
           fst (uvfs_follow_link vfs_follow_link cur entry nd s) = Some (vfs_follow_link nd path))
       \<and> (outcome_error out < 0 \<longrightarrow>
           fst (uvfs_follow_link vfs_follow_link cur entry nd s) = Some (outcome_error out, nd))"
proof -
  let ?u = "readlink_request n (fsuid cur) (fsgid cur) (i_fh (the_inode (the (d_inode entry)) s)) junk"
  have len: "length ?u = sizeof_u" using assms(2) by (rule length_readlink)
  have e: "reply_error (make_request_result out ?u) = outcome_error out"
    using len assms(3) by (rule reply_error_result)
  show ?thesis
  proof (intro conjI impI)
    assume out: "out = Replied (enc_readlink n path)" and "length path < UVFS_MAX_PATHLEN" "0 \<notin> set path"
    from target_read [OF len this(2,3), of n] obtain r'
      where r': "terminate_target (make_request_result out ?u) = Some r'" "c_string 20 r' = path"
        "reply_error (make_request_result out ?u) = 0"
      unfolding out by blast
    then show "fst (uvfs_follow_link vfs_follow_link cur entry nd s) = Some (vfs_follow_link nd path)"
      using assms(1) by (simp add: uvfs_follow_link_def Let_def layout_simps)
  qed (use assms(1) e in \<open>simp add: uvfs_follow_link_def Let_def\<close>)
qed

theorem follow_link_correct_witness:
  "fst (uvfs_follow_link (\<lambda>nd path. (0, path # nd)) root_task (demo_entry [108] (Some 7)) []
      (one_inode [Exchange (replicate sizeof_u 255) 4 (Replied (enc_readlink 4 [47, 101, 116, 99]))])) = Some (0, [[47, 101, 116, 99]])"
  using follow_link_correct [of "one_inode [Exchange (replicate sizeof_u 255) 4 (Replied (enc_readlink 4 [47, 101, 116, 99]))]"
      "replicate sizeof_u 255" 4 "Replied (enc_readlink 4 [47, 101, 116, 99])" "[]" "[47, 101, 116, 99]" "\<lambda>nd path. (0, path # nd)"
      root_task "demo_entry [108] (Some 7)" "[]"]
  by (simp add: enc_readlink_def layout_simps)

text \<open>
  The index is taken from the reply unchecked: a server whose \<open>len\<close> is not an index into the
  rest of the union makes the kernel write a zero byte into memory that does not belong to the
  transaction.
\<close>

theorem readlink_unchecked_length:
  assumes "script s = Exchange junk n (Replied data) # xs" and "length junk = sizeof_u"
    and "20 \<le> length data" and "length data \<le> sizeof_u" and "0 \<le> sint (get32 12 data)"
    and "sint (get32 16 data) < - 20 \<or> int sizeof_u - 20 \<le> sint (get32 16 data)"
  shows "fst (uvfs_readlink vfs_readlink cur entry buflen mem s) = None
       \<and> fst (uvfs_follow_link vfs_follow_link cur entry nd s) = None"
proof -
  let ?u = "make_request_result (Replied data)
     (readlink_request n (fsuid cur) (fsgid cur) (i_fh (the_inode (the (d_inode entry)) s)) junk)"
  have "get32 12 ?u = get32 12 data" "get32 16 ?u = get32 16 data" "length ?u = sizeof_u"
    using assms(2,3,4) by (simp_all add: make_request_result.simps get32_overlay length_overlay length_readlink)
  then have "reply_error ?u = sint (get32 12 data)" "terminate_target ?u = None"
    using assms(6) by (auto simp: reply_error_def terminate_target_def fld_def layout_simps)
  with assms(1,5) show ?thesis
    by (simp add: uvfs_readlink_def uvfs_follow_link_def Let_def)
qed

definition far_target :: exchange where
  "far_target = Exchange (replicate sizeof_u 255) 4
     (Replied (le32 UVFS_READLINK @ le32 4 @ le32 20 @ le32 0 @ le32 70000))"

theorem readlink_unchecked_length_witness:
  "fst (uvfs_readlink copies root_task (demo_entry [108] (Some 7)) 2 [] (one_inode [far_target])) = None"
  using readlink_unchecked_length [of "one_inode [far_target]" "replicate sizeof_u 255" 4
      "le32 UVFS_READLINK @ le32 4 @ le32 20 @ le32 0 @ le32 70000" "[]" copies
      root_task "demo_entry [108] (Some 7)" 2 "[]" "\<lambda>nd path. (0, nd)" "()"]
  by (simp add: far_target_def buffer_simps layout_simps)

section \<open>Transactions\<close>

lemma runs_transaction_option:
  assumes "\<And>s n junk. length junk = sizeof_u \<Longrightarrow> wf_request n (req s n junk)"
    and "\<And>u s. fst (body u s) \<noteq> None \<Longrightarrow> runs Sent Idle s (snd (body u s))"
    and "fst (case vfs_new_transaction s of
       (None, s) \<Rightarrow> (e, s)
     | (Some tr, s) \<Rightarrow> (case vfs_make_request (req s) tr s of (u, s) \<Rightarrow> body u s)) \<noteq> None"
  shows "runs Idle Idle s (snd (case vfs_new_transaction s of
       (None, s) \<Rightarrow> (e, s)
     | (Some tr, s) \<Rightarrow> (case vfs_make_request (req s) tr s of (u, s) \<Rightarrow> body u s)))"
proof (cases "fst (vfs_new_transaction s)")
  case None
  then show ?thesis by (cases "vfs_new_transaction s") (simp add: runs_none)
next
  case (Some tr)
  then obtain s1 where new: "vfs_new_transaction s = (Some tr, s1)" by (metis prod.collapse)
  obtain u s2 where req: "vfs_make_request (req s1) tr s1 = (u, s2)" by fastforce
  have "runs Idle Sent s s2"
    using runs_request [of s tr s1 "req s1"] assms(1) new req by simp
  with assms(2,3) show ?thesis
    using new req by (auto intro: runs_trans)
qed

lemma wf_readlink: "length junk = sizeof_u \<Longrightarrow> wf_request n (readlink_request n uid gid fh junk)"
  using build_wf [of junk "Readlink uid gid fh"] by simp

lemma readlink_runs:
  "fst (uvfs_readlink vfs_readlink cur entry buflen mem s) \<noteq> None \<Longrightarrow>
   runs Idle Idle s (snd (uvfs_readlink vfs_readlink cur entry buflen mem s))"
  unfolding uvfs_readlink_def Let_def
  by (rule runs_transaction_option) (auto simp: wf_readlink split: option.splits intro!: runs_intros)

lemma follow_link_runs:
  "fst (uvfs_follow_link vfs_follow_link cur entry nd s) \<noteq> None \<Longrightarrow>
   runs Idle Idle s (snd (uvfs_follow_link vfs_follow_link cur entry nd s))"
  unfolding uvfs_follow_link_def Let_def
  by (rule runs_transaction_option) (auto simp: wf_readlink split: option.splits intro!: runs_intros)

end
