(* ===== verification/Uvfs_Super.thy ===== *)
theory Uvfs_Super
  imports Uvfs_Dir
begin

text \<open>
  The super block, \<open>src/super.c\<close>: mounting (\<open>uvfs_parse_options\<close>, \<open>uvfs_read_super\<close>,
  \<open>uvfs_get_sb\<close>) and the statistics of the file system (\<open>uvfs_statfs\<close>). \<open>d_alloc_root\<close> and
  \<open>get_sb_nodev\<close> are functions of the kernel and arguments here.
\<close>

section \<open>State\<close>

datatype super_ops = No_super_operations | Uvfs_super_operations
datatype export_ops = No_export_operations | Uvfs_export_operations

record super_block =
  s_maxbytes :: u64
  s_blocksize :: u64
  s_blocksize_bits :: byte
  s_magic :: u64
  s_op :: super_ops
  s_export_op :: export_ops
  s_root :: "nat option"

record kstatfs =
  f_type :: u64
  f_bsize :: u64
  f_blocks :: u64
  f_bfree :: u64
  f_bavail :: u64
  f_files :: u64
  f_ffree :: u64
  f_namelen :: u64

section \<open>Operations\<close>

text \<open>
  The file system statistics. The fields are signed in the reply and 64 bits wide in \<open>kstatfs\<close>.
\<close>

definition uvfs_statfs :: "iid \<Rightarrow> kstatfs \<Rightarrow> vfs \<Rightarrow> int \<times> kstatfs \<times> vfs" where
  "uvfs_statfs inode st s =
     (case vfs_new_transaction s of
        (None, s) \<Rightarrow> (- ENOMEM, st, s)
      | (Some tr, s) \<Rightarrow>
          let (u, s) = vfs_make_request (\<lambda>n. statfs_request n (i_fh (the_inode inode s))) tr s;
              get = (\<lambda>f. scast (fld uvfs_statfs_rep_s f u));
              st = \<lparr>f_type = get ''f_type'', f_bsize = get ''f_bsize'', f_blocks = get ''f_blocks'',
                    f_bfree = get ''f_bfree'', f_bavail = get ''f_bavail'', f_files = get ''f_files'',
                    f_ffree = get ''f_ffree'', f_namelen = get ''f_namelen''\<rparr>
          in (reply_error u, st, kfree s))"

text \<open>The bytes of \<open>"store="\<close>; C strings are the bytes before the terminating zero.\<close>

definition store_option :: buf where
  "store_option = [115, 116, 111, 114, 101, 61]"

definition uvfs_parse_options :: "buf \<Rightarrow> buf option" where
  "uvfs_parse_options options = (if take 6 options = store_option then Some (drop 6 options) else None)"

definition uvfs_read_super ::
  "kernel \<Rightarrow> task \<Rightarrow> (iid \<Rightarrow> nat option) \<Rightarrow> sbid \<Rightarrow> buf option \<Rightarrow> super_block \<Rightarrow> vfs \<Rightarrow> int \<times> super_block \<times> vfs" where
  "uvfs_read_super k cur d_alloc_root sb data sblk s =
     (case Option.bind data uvfs_parse_options of
        None \<Rightarrow> (- EINVAL, sblk, s)
      | Some arg \<Rightarrow>
          let arglength = length arg + 1 in
          if arglength \<ge> UVFS_MAX_PATHLEN then (- ENAMETOOLONG, sblk, s)
          else case vfs_new_transaction s of
            (None, s) \<Rightarrow> (- ENOMEM, sblk, s)
          | (Some tr, s) \<Rightarrow>
              let (u, s) = vfs_make_request (\<lambda>n. read_super_request n (fsuid cur) (fsgid cur) (arg @ [0])) tr s
              in if reply_error u < 0 then (reply_error u, sblk, kfree s)
                 else
                   let sblk = sblk\<lparr>s_maxbytes := 0xFFFFFFFF,
                         s_blocksize := ucast (fld uvfs_read_super_rep_s ''s_blocksize'' u),
                         s_blocksize_bits := ucast (fld uvfs_read_super_rep_s ''s_blocksize_bits'' u),
                         s_magic := ucast (fld uvfs_read_super_rep_s ''s_magic'' u),
                         s_op := Uvfs_super_operations, s_export_op := Uvfs_export_operations\<rparr>;
                       (root, s) = uvfs_iget k cur sb (fld_fh uvfs_read_super_rep_s ''fh'' u)
                         (fld_attr uvfs_read_super_rep_s ''a'' u) s
                   in case root of
                        None \<Rightarrow> (- ENOMEM, sblk, kfree s)
                      | Some root \<Rightarrow> (0, sblk\<lparr>s_root := d_alloc_root root\<rparr>, kfree s))"

text \<open>\<open>get_sb_nodev\<close> sets up a super block and has it filled by the function it is given.\<close>

definition uvfs_get_sb ::
  "((buf option \<Rightarrow> super_block \<Rightarrow> vfs \<Rightarrow> int \<times> super_block \<times> vfs) \<Rightarrow> buf option \<Rightarrow> vfs \<Rightarrow> 'r)
     \<Rightarrow> kernel \<Rightarrow> task \<Rightarrow> (iid \<Rightarrow> nat option) \<Rightarrow> sbid \<Rightarrow> buf option \<Rightarrow> vfs \<Rightarrow> 'r" where
  "uvfs_get_sb get_sb_nodev k cur d_alloc_root sb data s =
     get_sb_nodev (uvfs_read_super k cur d_alloc_root sb) data s"

section \<open>Every operation keeps the interface\<close>

lemma wf_statfs: "length junk = sizeof_u \<Longrightarrow> wf_request n (statfs_request n fh junk)"
  using build_wf [of junk "Statfs fh"] by simp

lemma wf_read_super:
  "length junk = sizeof_u \<Longrightarrow> length arg \<le> UVFS_MAX_PATHLEN \<Longrightarrow>
   wf_request n (read_super_request n uid gid arg junk)"
  using build_wf [of junk "Read_super uid gid arg"] by simp

interpretation statfs: vfs_operation "\<lambda>k s. (case uvfs_statfs inode st s of (e, st, s) \<Rightarrow> ((e, st), s))" for inode st
proof
  fix k s
  have "(snd (case uvfs_statfs inode st s of (e, st, s) \<Rightarrow> ((e, st), s))) = snd (snd (uvfs_statfs inode st s))"
    by (simp add: split_beta)
  moreover have "runs Idle Idle s (snd (snd (uvfs_statfs inode st s)))"
    using runs_none [of s] runs_request [of s _ _ "\<lambda>n. statfs_request n (i_fh (the_inode inode (snd (vfs_new_transaction s))))"]
      wf_statfs
    by (cases "vfs_new_transaction s") (auto simp: uvfs_statfs_def Let_def split_beta split: option.splits intro!: runs_intros)
  ultimately show "runs Idle Idle s (snd (case uvfs_statfs inode st s of (e, st, s) \<Rightarrow> ((e, st), s)))" by simp
qed

lemma read_super_runs:
  assumes "good_kernel k"
  shows "runs Idle Idle s (snd (snd (uvfs_read_super k cur alloc sb data sblk s)))"
proof (cases "Option.bind data uvfs_parse_options")
  case (Some arg)
  show ?thesis
  proof (cases "fst (vfs_new_transaction s)")
    case None
    then show ?thesis
      using Some runs_none [of s]
      by (cases "vfs_new_transaction s") (auto simp: uvfs_read_super_def Let_def)
  next
    case (Some tr)
    then obtain s1 where new: "vfs_new_transaction s = (Some tr, s1)" by (metis prod.collapse)
    let ?req = "\<lambda>n. read_super_request n (fsuid cur) (fsgid cur) (arg @ [0])"
    obtain u s2 where req: "vfs_make_request ?req tr s1 = (u, s2)" by fastforce
    have "runs Idle Sent s s2" if "length arg + 1 < UVFS_MAX_PATHLEN"
      using runs_request [OF new, of ?req] that wf_read_super req by simp
    with assms new req \<open>Option.bind data uvfs_parse_options = Some arg\<close> show ?thesis
      by (auto simp: uvfs_read_super_def Let_def split_beta split: option.splits intro!: runs_intros)
  qed
qed (simp add: uvfs_read_super_def)

interpretation read_super: vfs_operation
  "\<lambda>k s. (case uvfs_read_super k cur alloc sb data sblk s of (e, sblk, s) \<Rightarrow> ((e, sblk), s))" for cur alloc sb data sblk
  by unfold_locales (use read_super_runs in \<open>simp add: split_beta\<close>)

section \<open>Properties\<close>

text \<open>What \<open>uvfs_read_super\<close> does with a reply that is not an error.\<close>

definition mounted ::
  "kernel \<Rightarrow> task \<Rightarrow> (iid \<Rightarrow> nat option) \<Rightarrow> sbid \<Rightarrow> buf \<Rightarrow> super_block \<Rightarrow> vfs \<Rightarrow> int \<times> super_block \<times> vfs" where
  "mounted k cur alloc sb u sblk s =
     (let sblk = sblk\<lparr>s_maxbytes := 0xFFFFFFFF,
            s_blocksize := ucast (fld uvfs_read_super_rep_s ''s_blocksize'' u),
            s_blocksize_bits := ucast (fld uvfs_read_super_rep_s ''s_blocksize_bits'' u),
            s_magic := ucast (fld uvfs_read_super_rep_s ''s_magic'' u),
            s_op := Uvfs_super_operations, s_export_op := Uvfs_export_operations\<rparr>;
          (root, s) = uvfs_iget k cur sb (fld_fh uvfs_read_super_rep_s ''fh'' u)
            (fld_attr uvfs_read_super_rep_s ''a'' u) s
      in case root of
           None \<Rightarrow> (- ENOMEM, sblk, kfree s)
         | Some root \<Rightarrow> (0, sblk\<lparr>s_root := alloc root\<rparr>, kfree s))"

lemma mounted_events:
  assumes "good_kernel k" and "mounted k cur alloc sb u sblk s = (e, sblk', s')"
  obtains es where "events s' = events s @ es @ [T_free]"
proof -
  let ?get = "uvfs_iget k cur sb (fld_fh uvfs_read_super_rep_s ''fh'' u) (fld_attr uvfs_read_super_rep_s ''a'' u) s"
  have "s' = kfree (snd ?get)"
    using assms(2) by (auto simp: mounted_def Let_def split_beta split: option.splits)
  with quiet_iget [OF assms(1), of s] that show ?thesis by (fastforce simp: quiet_def)
qed

lemma mounted_spec:
  assumes "good_kernel k" and "mounted k cur alloc sb u sblk s = (e, sblk', s')"
  shows "e = - ENOMEM \<and> icache s' = icache s
     \<or> e = 0 \<and> s_maxbytes sblk' = 2 ^ 32 - 1 \<and> s_blocksize sblk' = ucast (get32 16 u)
       \<and> s_magic sblk' = ucast (get32 24 u)
       \<and> s_op sblk' = Uvfs_super_operations \<and> s_export_op sblk' = Uvfs_export_operations
       \<and> (\<exists>i. s_root sblk' = alloc i \<and> i_sb (the_inode i s') = sb
            \<and> uvfs_compare_inode (the_inode i s') (fld_fh uvfs_read_super_rep_s ''fh'' u)
            \<and> shows_attr (the_inode i s') (fld_attr uvfs_read_super_rep_s ''a'' u))"
proof -
  obtain root s2 where get: "uvfs_iget k cur sb (fld_fh uvfs_read_super_rep_s ''fh'' u)
      (fld_attr uvfs_read_super_rep_s ''a'' u) s = (root, s2)" by fastforce
  show ?thesis
  proof (cases root)
    case None
    then have "icache s2 = icache s"
      using get by (cases rule: iget_cases [OF assms(1), of cur sb "fld_fh uvfs_read_super_rep_s ''fh'' u"
            "fld_attr uvfs_read_super_rep_s ''a'' u" s]) auto
    with None get assms(2) show ?thesis by (auto simp: mounted_def Let_def)
  next
    case (Some i)
    from iget_result(1) [OF assms(1) get [unfolded Some]] assms(2) get Some show ?thesis
      by (auto simp: mounted_def Let_def fld_def layout_simps the_inode_def)
  qed
qed

lemma parse_options_store: "uvfs_parse_options options = Some arg \<longleftrightarrow> options = store_option @ arg"
proof -
  have len: "length store_option = 6" by (simp add: store_option_def)
  show ?thesis
  proof
    assume "uvfs_parse_options options = Some arg"
    then have "take 6 options = store_option" "drop 6 options = arg"
      by (auto simp: uvfs_parse_options_def split: if_splits)
    then show "options = store_option @ arg" by (metis append_take_drop_id)
  qed (simp add: uvfs_parse_options_def len)
qed

lemma parse_store [simp]: "uvfs_parse_options (store_option @ arg) = Some arg"
  by (simp add: parse_options_store)

lemma read_super_refuses:
  shows "\<nexists>arg. data = Some (store_option @ arg) \<Longrightarrow> uvfs_read_super k cur alloc sb data sblk s = (- EINVAL, sblk, s)"
    and "UVFS_MAX_PATHLEN \<le> length arg + 1 \<Longrightarrow>
      uvfs_read_super k cur alloc sb (Some (store_option @ arg)) sblk s = (- ENAMETOOLONG, sblk, s)"
proof -
  assume "\<nexists>arg. data = Some (store_option @ arg)"
  then have "Option.bind data uvfs_parse_options = None"
    by (cases "Option.bind data uvfs_parse_options") (auto simp: bind_eq_Some_conv parse_options_store)
  then show "uvfs_read_super k cur alloc sb data sblk s = (- EINVAL, sblk, s)"
    by (simp add: uvfs_read_super_def)
qed (simp add: uvfs_read_super_def)

lemma mounted_replied:
  assumes "good_kernel k" and "mounted k cur alloc sb (make_request_result out u) sblk s = (e, sblk', s')"
    and "out = Replied data" and "116 \<le> length data"
  shows "e = - ENOMEM \<and> icache s' = icache s
       \<or> e = 0 \<and> s_maxbytes sblk' = 2 ^ 32 - 1 \<and> s_blocksize sblk' = ucast (get32 16 data)
         \<and> s_magic sblk' = ucast (get32 24 data)
         \<and> s_op sblk' = Uvfs_super_operations \<and> s_export_op sblk' = Uvfs_export_operations
         \<and> (\<exists>i. s_root sblk' = alloc i \<and> i_sb (the_inode i s') = sb
              \<and> uvfs_compare_inode (the_inode i s') (fld_fh uvfs_read_super_rep_s ''fh'' data)
              \<and> shows_attr (the_inode i s') (fld_attr uvfs_read_super_rep_s ''a'' data))"
proof -
  let ?r = "make_request_result out u"
  have "get32 16 ?r = get32 16 data" "get32 24 ?r = get32 24 data"
    "fld_fh uvfs_read_super_rep_s ''fh'' ?r = fld_fh uvfs_read_super_rep_s ''fh'' data"
    "fld_attr uvfs_read_super_rep_s ''a'' ?r = fld_attr uvfs_read_super_rep_s ''a'' data"
    using assms(3,4) by (simp_all add: fld_replied fh_replied attr_replied layout_simps)
  with mounted_spec [OF assms(1,2)] show ?thesis by auto
qed

lemma read_super_spec:
  assumes "good_kernel k" and "script s = Exchange junk n out # xs" and "exchange_ok (Exchange junk n out)"
    and "length arg + 1 < UVFS_MAX_PATHLEN"
    and "uvfs_read_super k cur alloc sb (Some (store_option @ arg)) sblk s = (e, sblk', s')"
  shows "(\<exists>u es. events s' = events s @ T_alloc # T_submit u # es @ [T_free]
        \<and> parse_request (delivered u) = Some (n, Read_super (fsuid cur) (fsgid cur) (arg @ [0])))
    \<and> (outcome_error out < 0 \<longrightarrow> e = outcome_error out \<and> sblk' = sblk \<and> icache s' = icache s)
    \<and> (\<forall>data. out = Replied data \<longrightarrow> 116 \<le> length data \<longrightarrow> 0 \<le> sint (get32 12 data) \<longrightarrow>
         e = - ENOMEM \<and> icache s' = icache s
         \<or> e = 0 \<and> s_maxbytes sblk' = 2 ^ 32 - 1 \<and> s_blocksize sblk' = ucast (get32 16 data)
           \<and> s_magic sblk' = ucast (get32 24 data)
           \<and> s_op sblk' = Uvfs_super_operations \<and> s_export_op sblk' = Uvfs_export_operations
           \<and> (\<exists>i. s_root sblk' = alloc i \<and> i_sb (the_inode i s') = sb
                \<and> uvfs_compare_inode (the_inode i s') (fld_fh uvfs_read_super_rep_s ''fh'' data)
                \<and> shows_attr (the_inode i s') (fld_attr uvfs_read_super_rep_s ''a'' data)))"
proof -
  let ?rq = "Read_super (fsuid cur) (fsgid cur) (arg @ [0])"
  define u where "u = build n ?rq junk"
  define r where "r = make_request_result out u"
  define s1 where "s1 = ev (T_submit u) (ev T_alloc (s\<lparr>script := xs\<rparr>))"
  have junk: "length junk = sizeof_u" "outcome_ok out" using assms(3) by simp_all
  have args: "args_ok ?rq" using assms(4) by simp
  have len: "length u = sizeof_u" unfolding u_def by (rule build_length [OF junk(1) args])
  have parse: "parse_request (delivered u) = Some (n, ?rq)" unfolding u_def by (rule build_parse [OF junk(1) args])
  have err: "reply_error r = outcome_error out" unfolding r_def by (rule reply_error_result [OF len junk(2)])
  have arg: "Option.bind (Some (store_option @ arg)) uvfs_parse_options = Some arg" by simp
  have unfold: "uvfs_read_super k cur alloc sb (Some (store_option @ arg)) sblk s =
     (if reply_error r < 0 then (reply_error r, sblk, kfree s1) else mounted k cur alloc sb r sblk s1)"
    using assms(2,4) unfolding uvfs_read_super_def arg by (simp add: Let_def u_def r_def s1_def mounted_def)
  show ?thesis
  proof (cases "outcome_error out < 0")
    case True
    with assms(5) have "e = outcome_error out" "sblk' = sblk" "s' = kfree s1" unfolding unfold err by simp_all
    with True parse show ?thesis by (auto simp: s1_def)
  next
    case False
    with assms(5) have m: "mounted k cur alloc sb r sblk s1 = (e, sblk', s')" unfolding unfold err by simp
    obtain es where "events s' = events s1 @ es @ [T_free]"
      using mounted_events [OF assms(1) m] by blast
    then have "events s' = events s @ T_alloc # T_submit u # es @ [T_free]" by (simp add: s1_def)
    moreover have "icache s1 = icache s" by (simp add: s1_def)
    ultimately show ?thesis using False parse mounted_replied [OF assms(1) m [unfolded r_def]] by auto
  qed
qed


definition no_super :: super_block where
  "no_super = \<lparr>s_maxbytes = 0, s_blocksize = 0, s_blocksize_bits = 0, s_magic = 0, s_op = No_super_operations,
     s_export_op = No_export_operations, s_root = None\<rparr>"


text \<open>\<open>d_alloc_root\<close> may fail; the code does not look, and reports a mount without a root as a success.\<close>

lemma read_super_without_root:
  assumes "good_kernel k" and "script s = Exchange junk n (Replied data) # xs"
    and "exchange_ok (Exchange junk n (Replied data))" and "116 \<le> length data" and "0 \<le> sint (get32 12 data)"
    and "length arg + 1 < UVFS_MAX_PATHLEN"
    and "uvfs_read_super k cur (\<lambda>i. None) sb (Some (store_option @ arg)) sblk s = (e, sblk', s')"
    and "e \<noteq> - ENOMEM"
  shows "e = 0 \<and> s_root sblk' = None"
  using read_super_spec [OF assms(1-3,6,7)] assms(4,5,8) by auto

text \<open>
  The statistics are those of the reply, each field read as a signed number, and the result is
  how the exchange ended.
\<close>

theorem statfs_correct:
  assumes "script s = Exchange junk n out # xs" and "exchange_ok (Exchange junk n out)"
    and "uvfs_statfs inode st s = (e, st', s')"
  shows "e = outcome_error out
    \<and> (\<exists>u. events s' = events s @ [T_alloc, T_submit u, T_free]
         \<and> parse_request (delivered u) = Some (n, Statfs (i_fh (the_inode inode s))))
    \<and> (\<forall>data. out = Replied data \<longrightarrow> sizeof uvfs_statfs_rep_s \<le> length data \<longrightarrow>
         map sint [f_type st', f_bsize st', f_blocks st', f_bfree st', f_bavail st', f_files st', f_ffree st', f_namelen st']
           = map (\<lambda>off. sint (get32 off data)) [16, 20, 24, 28, 32, 36, 40, 44])"
proof -
  let ?rq = "Statfs (i_fh (the_inode inode s))"
  define u where "u = build n ?rq junk"
  have junk: "length junk = sizeof_u" "outcome_ok out" using assms(2) by simp_all
  have len: "length u = sizeof_u" unfolding u_def by (rule build_length [OF junk(1)]) simp
  have parse: "parse_request (delivered u) = Some (n, ?rq)" unfolding u_def by (rule build_parse [OF junk(1)]) simp
  have err: "reply_error (make_request_result out u) = outcome_error out" by (rule reply_error_result [OF len junk(2)])
  have wide: "sint (scast w :: u64) = sint w" for w :: u32
    using sint_greater_eq [of w] sint_less [of w] by (simp add: signed_scast_eq signed_take_bit_int_eq_self)
  have e: "e = reply_error (make_request_result out u)"
    and ev: "events s' = events s @ [T_alloc, T_submit u, T_free]"
    and st: "map sint [f_type st', f_bsize st', f_blocks st', f_bfree st', f_bavail st', f_files st', f_ffree st', f_namelen st']
       = map (\<lambda>off. sint (get32 off (make_request_result out u))) [16, 20, 24, 28, 32, 36, 40, 44]"
    using assms(1,3)
    by (auto simp: uvfs_statfs_def Let_def u_def fld_def layout_simps wide)
  show ?thesis
    unfolding st using e ev parse by (auto simp: err fld_replied layout_simps)
qed

definition no_stat :: kstatfs where
  "no_stat = \<lparr>f_type = 0, f_bsize = 0, f_blocks = 0, f_bfree = 0, f_bavail = 0, f_files = 0, f_ffree = 0, f_namelen = 0\<rparr>"

theorem statfs_correct_witness:
  "fst (uvfs_statfs 7 no_stat (one_inode [Exchange (replicate sizeof_u 7) 0 Server_gone])) = - EIO"
proof -
  obtain e st' s' where run: "uvfs_statfs 7 no_stat (one_inode [Exchange (replicate sizeof_u 7) 0 Server_gone]) = (e, st', s')"
    by (metis prod_cases3)
  from statfs_correct [OF _ _ run, of "replicate sizeof_u 7" 0 Server_gone "[]"] have "e = - EIO" by simp
  with run show ?thesis by simp
qed

end
