(* ===== verification/Uvfs_Export.thy ===== *)
theory Uvfs_Export
  imports Uvfs_Dir
begin

text \<open>
  The export operations of \<open>src/super.c\<close>, through which an NFS server reaches files by handle:
  \<open>uvfs_encode_fh\<close> writes the identity of a file into an array of 32-bit words,
  \<open>uvfs_fh_to_dentry\<close>, \<open>uvfs_fh_to_parent\<close> and (before 2.6.32) \<open>uvfs_decode_fh\<close> read it back,
  \<open>uvfs_get_dentry\<close> finds the file, \<open>uvfs_get_parent\<close> its directory. The dentry functions of the
  kernel are arguments: \<open>d_obtain_alias\<close> returns a dentry or an error, \<open>d_alloc_anon\<close> a dentry or
  NULL.
\<close>

section \<open>Pointers that carry errors\<close>

text \<open>
  \<open>ERR_PTR\<close> turns a number into a pointer; the kernel takes it for an error only if the number
  lies between \<open>-4095\<close> and \<open>-1\<close>. Any other number is dereferenced as an address.
\<close>

datatype kptr = NULL | ERR int | PTR nat | WILD int

definition ERR_PTR :: "int \<Rightarrow> kptr" where
  "ERR_PTR e = (if e = 0 then NULL else if - 4095 \<le> e \<and> e < 0 then ERR e else WILD e)"

record dcache_ops =
  d_obtain_alias :: "iid \<Rightarrow> int + nat"
  d_alloc_anon :: "iid \<Rightarrow> nat option"

section \<open>Operations\<close>

text \<open>The type of the handle, its length in words, and the array.\<close>

definition uvfs_encode_fh :: "dentry \<Rightarrow> u32 list \<Rightarrow> int \<Rightarrow> bool \<Rightarrow> vfs \<Rightarrow> int \<times> int \<times> u32 list" where
  "uvfs_encode_fh entry fh max_len connectable s =
     (let inode = the_inode (the (d_inode entry)) s in
      if max_len < 3 \<or> connectable \<and> max_len < 5 then (255, max_len, fh)
      else
        let fh = fh[0 := na_aruid (no_narid (i_fh inode))];
            fh = fh[1 := fs_sfuid (no_fspid (i_fh inode))];
            fh = fh[2 := fs_sbxid (no_fspid (i_fh inode))]
        in if connectable \<and> \<not> S_ISDIR (i_mode inode) then
             let parent = the_inode (d_parent entry) s;
                 fh = fh[3 := fs_sfuid (no_fspid (i_fh parent))];
                 fh = fh[4 := fs_sbxid (no_fspid (i_fh parent))]
             in (2, 5, fh)
           else (1, 3, fh))"

text \<open>A handle cleared by \<open>memset\<close> with the three fields that identify a file.\<close>

definition zero_handle :: uvfs_fhandle_s where
  "zero_handle = dec_fhandle (replicate (sizeof fhandle_members) 0)"

definition make_handle :: "u32 \<Rightarrow> u32 \<Rightarrow> u32 \<Rightarrow> uvfs_fhandle_s" where
  "make_handle aruid sfuid sbxid =
     (let h = zero_handle;
          h = h\<lparr>no_narid := (no_narid h)\<lparr>na_aruid := aruid\<rparr>\<rparr>;
          h = h\<lparr>no_fspid := (no_fspid h)\<lparr>fs_sfuid := sfuid\<rparr>\<rparr>;
          h = h\<lparr>no_fspid := (no_fspid h)\<lparr>fs_sbxid := sbxid\<rparr>\<rparr>
      in h)"

text \<open>The end of \<open>uvfs_get_dentry\<close> and \<open>uvfs_get_parent\<close>: a dentry for the inode.\<close>

definition make_dentry :: "kernel \<Rightarrow> dcache_ops \<Rightarrow> iid \<Rightarrow> vfs \<Rightarrow> kptr \<times> vfs" where
  "make_dentry k dc inode s =
     (if LINUX_VERSION_CODE k \<ge> KERNEL_VERSION 2 6 32 then
        (case d_obtain_alias dc inode of
           Inr d \<Rightarrow> (PTR d, ev (K_set_d_op d) s)
         | Inl e \<Rightarrow> (ERR e, s))
      else
        (case d_alloc_anon dc inode of
           Some d \<Rightarrow> (PTR d, ev (K_set_d_op d) s)
         | None \<Rightarrow> (ERR (- ENOMEM), ev (K_iput inode) s)))"

definition uvfs_get_dentry :: "kernel \<Rightarrow> task \<Rightarrow> dcache_ops \<Rightarrow> sbid \<Rightarrow> uvfs_fhandle_s \<Rightarrow> vfs \<Rightarrow> kptr \<times> vfs" where
  "uvfs_get_dentry k cur dc sb fh s =
     (case ilookup5 k sb (ucast (fs_sfuid (no_fspid fh))) (\<lambda>n. uvfs_compare_inode n fh) (icache s) of
        Some inode \<Rightarrow> make_dentry k dc inode s
      | None \<Rightarrow>
          (case vfs_new_transaction s of
             (None, s) \<Rightarrow> (ERR (- ENOMEM), s)
           | (Some tr, s) \<Rightarrow>
               let (u, s) = vfs_make_request (\<lambda>n. getattr_request n (fsuid cur) (fsgid cur) fh) tr s;
                   error = reply_error u
               in if error = 0 then
                    (case uvfs_iget k cur sb fh (fld_attr uvfs_getattr_rep_s ''a'' u) s of
                       (None, s) \<Rightarrow> (ERR (- EACCES), kfree s)
                     | (Some inode, s) \<Rightarrow> make_dentry k dc inode (kfree s))
                  else if error = - ECOMM then (ERR (- ESTALE), kfree (ev (K_display_fhandle fh) s))
                  else (ERR_PTR error, kfree s)))"

definition uvfs_fh_to_dentry ::
  "kernel \<Rightarrow> task \<Rightarrow> dcache_ops \<Rightarrow> sbid \<Rightarrow> u32 list \<Rightarrow> int \<Rightarrow> int \<Rightarrow> vfs \<Rightarrow> kptr \<times> vfs" where
  "uvfs_fh_to_dentry k cur dc sb raw fh_len fh_type s =
     (if fh_len < 3 \<or> fh_type > 2 then (NULL, s)
      else uvfs_get_dentry k cur dc sb (make_handle (raw ! 0) (raw ! 1) (raw ! 2)) s)"

definition uvfs_fh_to_parent ::
  "kernel \<Rightarrow> task \<Rightarrow> dcache_ops \<Rightarrow> sbid \<Rightarrow> u32 list \<Rightarrow> int \<Rightarrow> int \<Rightarrow> vfs \<Rightarrow> kptr \<times> vfs" where
  "uvfs_fh_to_parent k cur dc sb raw fh_len fh_type s =
     (if fh_len < 5 \<or> fh_type \<noteq> 2 then (NULL, s)
      else uvfs_get_dentry k cur dc sb (make_handle (raw ! 0) (raw ! 3) (raw ! 4)) s)"

text \<open>
  Before 2.6.32: \<open>find_exported_dentry\<close> of the kernel gets the handle and, for type 2, the handle
  of the parent. The length is not looked at: \<open>None\<close> is a read beyond the array.
\<close>

definition uvfs_decode_fh ::
  "(uvfs_fhandle_s \<Rightarrow> uvfs_fhandle_s option \<Rightarrow> kptr) \<Rightarrow> u32 list \<Rightarrow> int \<Rightarrow> int \<Rightarrow> kptr option" where
  "uvfs_decode_fh find_exported_dentry fh fh_len fh_type =
     (if fh_type = 2 then
        (if length fh < 5 then None
         else Some (find_exported_dentry (make_handle (fh ! 0) (fh ! 1) (fh ! 2))
                (Some (make_handle (fh ! 0) (fh ! 3) (fh ! 4)))))
      else if fh_type = 1 then
        (if length fh < 3 then None
         else Some (find_exported_dentry (make_handle (fh ! 0) (fh ! 1) (fh ! 2)) None))
      else Some NULL)"

definition uvfs_get_parent :: "kernel \<Rightarrow> task \<Rightarrow> dcache_ops \<Rightarrow> dentry \<Rightarrow> vfs \<Rightarrow> kptr \<times> vfs" where
  "uvfs_get_parent k cur dc child s =
     (let inode = the (d_inode child);
          (err, found, s) = uvfs_lookup_by_name cur inode [46, 46] s
      in if err \<noteq> 0 then (ERR_PTR err, s)
         else case found of
           None \<Rightarrow> (ERR_PTR err, s)
         | Some (fh, attr) \<Rightarrow>
             (case uvfs_iget k cur (i_sb (the_inode inode s)) fh attr s of
                (None, s) \<Rightarrow> (ERR (- EACCES), s)
              | (Some i, s) \<Rightarrow> make_dentry k dc i s))"

section \<open>Every operation keeps the interface\<close>

lemma make_dentry_simps [simp]:
  "icache (snd (make_dentry k dc i s)) = icache s" "script (snd (make_dentry k dc i s)) = script s"
  "the_inode j (snd (make_dentry k dc i s)) = the_inode j s"
  by (auto simp: make_dentry_def split: sum.split option.split)

lemma runs_make_dentry [runs_intros]: "runs a b s s' \<Longrightarrow> runs a b s (snd (make_dentry k dc i s'))"
  by (auto simp: make_dentry_def split: sum.split option.split intro!: runs_intros)

interpretation get_dentry: vfs_operation "\<lambda>k. uvfs_get_dentry k cur dc sb fh" for cur dc sb fh
proof
  fix k s
  assume k: "good_kernel k"
  show "runs Idle Idle s (snd (uvfs_get_dentry k cur dc sb fh s))"
  proof (cases "ilookup5 k sb (ucast (fs_sfuid (no_fspid fh))) (\<lambda>n. uvfs_compare_inode n fh) (icache s)")
    case None
    show ?thesis
      unfolding uvfs_get_dentry_def None Let_def option.case
      by (rule runs_transaction)
        (use k in \<open>auto simp: wf_getattr split_beta split: option.split intro!: runs_intros\<close>)
  qed (auto simp: uvfs_get_dentry_def intro!: runs_intros)
qed

interpretation fh_to_dentry: vfs_operation "\<lambda>k. uvfs_fh_to_dentry k cur dc sb raw len type" for cur dc sb raw len type
  by unfold_locales (auto simp: uvfs_fh_to_dentry_def get_dentry.op_runs)

interpretation fh_to_parent: vfs_operation "\<lambda>k. uvfs_fh_to_parent k cur dc sb raw len type" for cur dc sb raw len type
  by unfold_locales (auto simp: uvfs_fh_to_parent_def get_dentry.op_runs)

interpretation get_parent: vfs_operation "\<lambda>k. uvfs_get_parent k cur dc child" for cur dc child
  unfolding uvfs_get_parent_def Let_def
  by unfold_locales (auto simp: split_beta intro!: runs_intros split: option.split)

section \<open>Handles\<close>

lemma make_handle_fields [simp]:
  "na_aruid (no_narid (make_handle a f b)) = a" "fs_sfuid (no_fspid (make_handle a f b)) = f"
  "fs_sbxid (no_fspid (make_handle a f b)) = b"
  by (simp_all add: make_handle_def Let_def)

text \<open>\<open>ilookup5\<close> finds what is in the cache.\<close>

definition lookup_complete :: "kernel \<Rightarrow> bool" where
  "lookup_complete k \<longleftrightarrow>
     (\<forall>sb h test C. ilookup5 k sb h test C = None \<longrightarrow> (\<forall>i. \<not> cached C sb h test i))"

lemma plain_complete: "lookup_complete plain_kernel"
  by (simp add: lookup_complete_def plain_kernel_def find_cached_None)

text \<open>With one inode per file, looking up the identity of a cached inode finds that inode.\<close>

lemma get_dentry_cached:
  assumes "good_kernel k" and "lookup_complete k" and "icache_ok (icache s)"
    and "map_of (icache s) i = Some n" and "i_sb n = sb" and "uvfs_compare_inode n fh"
  shows "uvfs_get_dentry k cur dc sb fh s = make_dentry k dc i s"
proof -
  let ?look = "ilookup5 k sb (sfuid_hash fh) (\<lambda>n. uvfs_compare_inode n fh) (icache s)"
  have "cached (icache s) sb (sfuid_hash fh) (\<lambda>n. uvfs_compare_inode n fh) i"
    using assms(4-6) icache_okD(2) [OF assms(3,4)] compare_hash by (auto simp: cached_def)
  then have "?look \<noteq> None" using assms(2) unfolding lookup_complete_def by blast
  then obtain j where j: "?look = Some j" by blast
  then have "cached (icache s) sb (sfuid_hash fh) (\<lambda>n. uvfs_compare_inode n fh) j"
    using assms(1) by (auto simp: good_kernel_def ilookup5_contract_def)
  then obtain m where m: "map_of (icache s) j = Some m" "i_sb m = sb" "uvfs_compare_inode m fh"
    by (auto simp: cached_def)
  with icache_okD(4) [OF assms(3,4) m(1)] assms(5,6) have "i = j" by (simp add: uvfs_compare_inode_def)
  with j show ?thesis by (simp add: uvfs_get_dentry_def sfuid_hash_def)
qed

text \<open>A directory and a file in it, in a cache that keeps one inode per file.\<close>

definition demo_inode :: "u32 \<Rightarrow> uvfs_inode_info" where
  "demo_inode sfuid = (blank_inode 0 (ucast sfuid))\<lparr>i_fh := make_handle 1 sfuid 2, i_ino := ucast sfuid\<rparr>"

definition demo_tree :: "exchange list \<Rightarrow> vfs" where
  "demo_tree xs = \<lparr>icache = [(7, demo_inode 4), (8, demo_inode 5)], script = xs, events = []\<rparr>"

definition demo_dcache :: dcache_ops where
  "demo_dcache = \<lparr>d_obtain_alias = (\<lambda>i. Inr (i + 100)), d_alloc_anon = (\<lambda>i. None)\<rparr>"

lemma demo_tree_simps [simp]:
  "the_inode 7 (demo_tree xs) = demo_inode 4" "the_inode 8 (demo_tree xs) = demo_inode 5"
  "map_of (icache (demo_tree xs)) 7 = Some (demo_inode 4)" "map_of (icache (demo_tree xs)) 8 = Some (demo_inode 5)"
  "script (demo_tree xs) = xs" "i_sb (demo_inode f) = 0" "i_fh (demo_inode f) = make_handle 1 f 2"
  by (simp_all add: demo_tree_def the_inode_def demo_inode_def blank_inode_def)

lemma demo_tree_ok: "icache_ok (icache (demo_tree xs))"
  by (auto simp: icache_ok_def demo_tree_def sfuid_hash_def demo_inode_def blank_inode_def uvfs_compare_inode_def
      split: if_splits)

lemma demo_encode:
  "uvfs_encode_fh (demo_entry [102] (Some 8)) [0, 0, 0, 0, 0, 0] 6 True (demo_tree xs) = (2, 5, [1, 5, 2, 4, 2, 0])"
  by (simp add: uvfs_encode_fh_def demo_entry_def S_ISDIR_def S_IFMT_def S_IFDIR_def) (simp add: demo_inode_def blank_inode_def)

text \<open>
  C33. A handle written by \<open>uvfs_encode_fh\<close> leads back to the file: for an inode in the cache,
  \<open>uvfs_fh_to_dentry\<close> makes its dentry from that very inode, without asking the server. The
  encoding stays inside the array it was given and reports a length within \<open>max_len\<close>.
\<close>

theorem handle_roundtrip:
  assumes "good_kernel k" and "lookup_complete k" and "icache_ok (icache s)"
    and "d_inode entry = Some i" and "map_of (icache s) i = Some n"
    and "max_len \<le> int (length fh)"
    and "uvfs_encode_fh entry fh max_len connectable s = (type, len, fh')" and "type \<noteq> 255"
  shows "uvfs_fh_to_dentry k cur dc (i_sb n) fh' len type s = make_dentry k dc i s
    \<and> length fh' = length fh \<and> len \<le> max_len \<and> drop (nat len) fh' = drop (nat len) fh"
proof -
  have n: "the_inode i s = n" using assms(5) by (simp add: the_inode_def)
  have ge: "3 \<le> max_len" "connectable \<Longrightarrow> 5 \<le> max_len"
    using assms(7,8) by (auto simp: uvfs_encode_fh_def Let_def split: if_splits)
  have nonempty: "fh \<noteq> []" using ge(1) assms(6) by auto
  have parts: "length fh' = length fh \<and> len \<le> max_len \<and> drop (nat len) fh' = drop (nat len) fh
      \<and> fh' ! 0 = na_aruid (no_narid (i_fh n)) \<and> fh' ! 1 = fs_sfuid (no_fspid (i_fh n))
      \<and> fh' ! 2 = fs_sbxid (no_fspid (i_fh n)) \<and> 3 \<le> len \<and> type \<le> 2"
    using assms(4,6,7,8) ge n nonempty by (auto simp: uvfs_encode_fh_def Let_def split: if_splits)
  have "uvfs_compare_inode n (make_handle (fh' ! 0) (fh' ! 1) (fh' ! 2))"
    using parts by (simp add: uvfs_compare_inode_def)
  from get_dentry_cached [OF assms(1-3,5) refl this] parts show ?thesis
    by (simp add: uvfs_fh_to_dentry_def)
qed

theorem handle_roundtrip_witness:
  "fst (uvfs_fh_to_dentry plain_kernel root_task demo_dcache 0 [1, 5, 2, 4, 2, 0] 5 2 (demo_tree [])) = PTR 108"
  using handle_roundtrip [OF plain_good plain_complete demo_tree_ok _ _ _ demo_encode [of "[]"], where i = 8 and n = "demo_inode 5" and cur = root_task and dc = demo_dcache]
  by (simp add: demo_entry_def make_dentry_def demo_dcache_def plain_kernel_def)

text \<open>
  A connectable handle of a file also leads back to its directory, as long as both are in the
  same archive: the handle holds the archive of the file only.
\<close>

theorem parent_roundtrip:
  assumes "good_kernel k" and "lookup_complete k" and "icache_ok (icache s)"
    and "map_of (icache s) (d_parent entry) = Some p" and "max_len \<le> int (length fh)"
    and "uvfs_encode_fh entry fh max_len connectable s = (2, len, fh')"
    and "na_aruid (no_narid (i_fh p)) = na_aruid (no_narid (i_fh (the_inode (the (d_inode entry)) s)))"
  shows "uvfs_fh_to_parent k cur dc (i_sb p) fh' len 2 s = make_dentry k dc (d_parent entry) s"
proof -
  have p: "the_inode (d_parent entry) s = p" using assms(4) by (simp add: the_inode_def)
  have nonempty: "fh \<noteq> []" using assms(5,6) by (auto simp: uvfs_encode_fh_def split: if_splits)
  have parts: "fh' ! 0 = na_aruid (no_narid (i_fh p)) \<and> fh' ! 3 = fs_sfuid (no_fspid (i_fh p))
      \<and> fh' ! 4 = fs_sbxid (no_fspid (i_fh p)) \<and> len = 5"
    using assms(5,6,7) p nonempty by (auto simp: uvfs_encode_fh_def Let_def split: if_splits)
  have "uvfs_compare_inode p (make_handle (fh' ! 0) (fh' ! 3) (fh' ! 4))"
    using parts by (simp add: uvfs_compare_inode_def)
  from get_dentry_cached [OF assms(1-4) refl this] parts show ?thesis
    by (simp add: uvfs_fh_to_parent_def)
qed

theorem parent_roundtrip_witness:
  "fst (uvfs_fh_to_parent plain_kernel root_task demo_dcache 0 [1, 5, 2, 4, 2, 0] 5 2 (demo_tree [])) = PTR 107"
  using parent_roundtrip [OF plain_good plain_complete demo_tree_ok _ _ demo_encode [of "[]"], where p = "demo_inode 4" and cur = root_task and dc = demo_dcache]
  by (simp add: demo_entry_def make_dentry_def demo_dcache_def plain_kernel_def)

lemma get_dentry_uncached:
  assumes "good_kernel k" and "script s = Exchange junk n out # xs"
    and "\<forall>i. \<not> cached (icache s) sb (sfuid_hash fh) (\<lambda>n. uvfs_compare_inode n fh) i"
    and "u = build n (Getattr (fsuid cur) (fsgid cur) fh) junk"
    and "s1 = ev (T_submit u) (ev T_alloc (s\<lparr>script := xs\<rparr>))" and "v = make_request_result out u"
  shows "uvfs_get_dentry k cur dc sb fh s = (if reply_error v = 0 then
       (case uvfs_iget k cur sb fh (fld_attr uvfs_getattr_rep_s ''a'' v) s1 of
          (None, s) \<Rightarrow> (ERR (- EACCES), kfree s)
        | (Some inode, s) \<Rightarrow> make_dentry k dc inode (kfree s))
     else if reply_error v = - ECOMM then (ERR (- ESTALE), kfree (ev (K_display_fhandle fh) s1))
     else (ERR_PTR (reply_error v), kfree s1))"
proof -
  have "ilookup5 k sb (sfuid_hash fh) (\<lambda>n. uvfs_compare_inode n fh) (icache s) = None"
    using assms(1,3) by (fastforce simp: good_kernel_def ilookup5_contract_def
        intro: ccontr [where P = "_ = None"])
  then show ?thesis
    using assms(2)
    by (simp add: uvfs_get_dentry_def sfuid_hash_def [symmetric] Let_def assms(4-6) del: reply_error_result)
qed

text \<open>
  A handle whose file is not in the cache: the server is asked for its attributes. An error of
  the server or the driver becomes the corresponding error pointer, \<open>-ECOMM\<close> becomes \<open>-ESTALE\<close>,
  and the inode cache is untouched; otherwise the dentry is made from the inode of the handle,
  which shows the attributes of the reply. But an error is expected to be negative: a positive
  number in the reply becomes a pointer the kernel takes for the address of a dentry.
\<close>

theorem get_dentry_correct:
  assumes "good_kernel k" and "script s = Exchange junk n out # xs" and "exchange_ok (Exchange junk n out)"
    and "\<forall>i. \<not> cached (icache s) sb (sfuid_hash fh) (\<lambda>n. uvfs_compare_inode n fh) i"
    and "uvfs_get_dentry k cur dc sb fh s = (r, s')"
  shows "(- 4095 \<le> outcome_error out \<longrightarrow> outcome_error out < 0 \<longrightarrow> icache s' = icache s
        \<and> r = ERR (if outcome_error out = - ECOMM then - ESTALE else outcome_error out))
    \<and> (0 < outcome_error out \<longrightarrow> r = WILD (outcome_error out))
    \<and> (\<forall>data. out = Replied data \<longrightarrow> 72 \<le> length data \<longrightarrow> get32 12 data = 0 \<longrightarrow>
        r = ERR (- EACCES) \<and> icache s' = icache s
        \<or> (\<exists>i s1. make_dentry k dc i s1 = (r, s') \<and> uvfs_compare_inode (the_inode i s') fh
            \<and> i_sb (the_inode i s') = sb \<and> shows_attr (the_inode i s') (fld_attr uvfs_getattr_rep_s ''a'' data)))"
proof -
  let ?rq = "Getattr (fsuid cur) (fsgid cur) fh"
  define u where "u = build n ?rq junk"
  define s1 where "s1 = ev (T_submit u) (ev T_alloc (s\<lparr>script := xs\<rparr>))"
  have junk: "length junk = sizeof_u" "outcome_ok out" using assms(3) by simp_all
  have len: "length u = sizeof_u" unfolding u_def by (rule build_length [OF junk(1)]) simp
  have err: "reply_error (make_request_result out u) = outcome_error out" by (rule reply_error_result [OF len junk(2)])
  note run = get_dentry_uncached [OF assms(1,2,4) u_def s1_def refl]
  show ?thesis
  proof (cases "outcome_error out = 0")
    case False
    then show ?thesis
      using assms(5) unfolding run err by (auto simp: ERR_PTR_def s1_def split: if_splits)
  next
    case True
    obtain g s2 where get: "uvfs_iget k cur sb fh (fld_attr uvfs_getattr_rep_s ''a'' (make_request_result out u)) s1 = (g, s2)"
      by fastforce
    have res: "(case g of None \<Rightarrow> (ERR (- EACCES), kfree s2) | Some i \<Rightarrow> make_dentry k dc i (kfree s2)) = (r, s')"
      using True assms(5) unfolding run err get by simp
    show ?thesis
    proof (cases g)
      case None
      then have "icache s2 = icache s1"
        using get by (cases rule: iget_cases [OF assms(1), of cur sb fh
            "fld_attr uvfs_getattr_rep_s ''a'' (make_request_result out u)" s1]) auto
      with None res True show ?thesis by (auto simp: s1_def)
    next
      case (Some i)
      with res have made: "make_dentry k dc i (kfree s2) = (r, s')" by simp
      then have "the_inode i s' = the_inode i s2" by (metis make_dentry_simps(3) kfree_simps(4) snd_conv)
      moreover have "uvfs_compare_inode (the_inode i s2) fh \<and> i_sb (the_inode i s2) = sb
          \<and> shows_attr (the_inode i s2) (fld_attr uvfs_getattr_rep_s ''a'' (make_request_result out u))"
        using iget_result(1) [OF assms(1) get [unfolded Some]] by (auto simp: the_inode_def)
      moreover have "fld_attr uvfs_getattr_rep_s ''a'' (make_request_result out u) = fld_attr uvfs_getattr_rep_s ''a'' data"
        if "out = Replied data" "72 \<le> length data" for data
        using that by (simp add: attr_replied layout_simps)
      ultimately show ?thesis using made True by auto
    qed
  qed
qed

theorem get_dentry_correct_witness:
  "fst (uvfs_get_dentry plain_kernel root_task demo_dcache 0 (make_handle 1 9 2)
     (demo_tree [Exchange (replicate sizeof_u 7) 0 Server_gone])) = ERR (- EIO)"
proof -
  obtain r s' where run: "uvfs_get_dentry plain_kernel root_task demo_dcache 0 (make_handle 1 9 2)
     (demo_tree [Exchange (replicate sizeof_u 7) 0 Server_gone]) = (r, s')" by fastforce
  have "\<forall>i. \<not> cached (icache (demo_tree xs)) 0 (sfuid_hash (make_handle 1 9 2)) (\<lambda>n. uvfs_compare_inode n (make_handle 1 9 2)) i" for xs
    by (auto simp: cached_def demo_tree_def demo_inode_def uvfs_compare_inode_def split: if_splits)
  from get_dentry_correct [OF plain_good _ _ this run, of "replicate sizeof_u 7" 0 Server_gone "[]"]
  have "r = ERR (- EIO)" by simp
  with run show ?thesis by simp
qed

end
