(* ===== verification/Uvfs_Safety.thy ===== *)
theory Uvfs_Safety
  imports Uvfs_Machine
begin

text \<open>
  Memory safety of the driver: when a transaction can be touched after it was freed. A
  disciplined environment sends no \<open>SIGKILL\<close> to a file system thread in a request, answers
  only requests it has completely read, and sends replies that fit the union. Under this
  discipline no step of any thread touches a freed transaction.
\<close>

section \<open>Discipline\<close>

definition reading :: "sys \<Rightarrow> tid \<Rightarrow> bool" where
  "reading s t \<longleftrightarrow> (\<exists>r f. spc s r = S_read f t \<or> spc s r = S_ret f t)"

text \<open>
  The server answers only what it has read: no thread is still inside \<open>uvfsd_read\<close> with a
  transaction of the serial number the reply names.
\<close>

fun polite :: "sys \<Rightarrow> label \<Rightarrow> bool" where
  "polite s (L_write r f count h) =
     (\<forall>t. reading s t \<longrightarrow>
        t_serial (the_trans (drv s) t) \<noteq> get32 (offsetof uvfs_generic_rep_s ''serial'') h)"
| "polite s (L_written r data) = (length data \<le> sizeof_u)"
| "polite s l = True"

fun unsignalled :: "sys \<Rightarrow> label \<Rightarrow> bool" where
  "unsignalled s (L_signal c) = False"
| "unsignalled s l = True"

definition disciplined :: "sys \<Rightarrow> label \<Rightarrow> bool" where
  "disciplined s l \<longleftrightarrow> polite s l \<and> unsignalled s l"

section \<open>Invariant\<close>

lemma read_pcD: "read_pc f n = S_read f' t \<Longrightarrow> n = Read_take t"
  by (cases n) simp_all

lemma pc_simps [simp]:
  "read_pc f n \<noteq> S_ret f' t" "write_pc f k found \<noteq> S_ret f' t" "write_pc f k found \<noteq> S_read f' t"
  by (cases n; simp) (cases found; simp)+

definition use_inv :: "sys \<Rightarrow> bool" where
  "use_inv s \<longleftrightarrow> queue_inv s
   \<and> (\<forall>c. \<not> csig s c)
   \<and> (\<forall>r f t. spc s r = S_read f t \<or> spc s r = S_ret f t \<longrightarrow> t \<in> set (Uvfs_replies (drv s)))
   \<and> (\<forall>r f t n. spc s r = S_write f t n \<longrightarrow>
        cpc s (owner s t) = C_waiting t \<and> \<not> t_answered (the_trans (drv s) t))
   \<and> (\<forall>r r' f f' t n n'. spc s r = S_write f t n \<longrightarrow> spc s r' = S_write f' t n' \<longrightarrow> r = r')
   \<and> (\<forall>c t. cpc s c \<noteq> C_drain t \<and> cpc s c \<noteq> C_drained t)
   \<and> \<not> fault (drv s)"

lemma use_invD:
  assumes "use_inv s"
  shows "queue_inv s" "\<not> csig s c" "\<not> fault (drv s)"
    and "spc s r = S_read f t \<Longrightarrow> t \<in> set (Uvfs_replies (drv s))"
    and "spc s r = S_ret f t \<Longrightarrow> t \<in> set (Uvfs_replies (drv s))"
    and "spc s r = S_write f t n \<Longrightarrow> cpc s (owner s t) = C_waiting t"
    and "spc s r = S_write f t n \<Longrightarrow> \<not> t_answered (the_trans (drv s) t)"
    and "spc s r = S_write f t n \<Longrightarrow> spc s r' = S_write f' t n' \<Longrightarrow> r = r'"
    and "cpc s c \<noteq> C_drain t" "cpc s c \<noteq> C_drained t"
  using assms unfolding use_inv_def by blast+

lemma use_invI:
  assumes "queue_inv s" "\<And>c. \<not> csig s c" "\<not> fault (drv s)"
    and "\<And>r f t. spc s r = S_read f t \<or> spc s r = S_ret f t \<Longrightarrow> t \<in> set (Uvfs_replies (drv s))"
    and "\<And>r f t n. spc s r = S_write f t n \<Longrightarrow> cpc s (owner s t) = C_waiting t"
    and "\<And>r f t n. spc s r = S_write f t n \<Longrightarrow> \<not> t_answered (the_trans (drv s) t)"
    and "\<And>r r' f f' t n n'. spc s r = S_write f t n \<Longrightarrow> spc s r' = S_write f' t n' \<Longrightarrow> r = r'"
    and "\<And>c t. cpc s c \<noteq> C_drain t \<and> cpc s c \<noteq> C_drained t"
  shows "use_inv s"
  using assms unfolding use_inv_def by blast

lemma use_inv_init: "init_sys s \<Longrightarrow> use_inv s"
  by (intro use_invI) (auto simp: queue_inv_init, auto simp: init_sys_def init_driver_def)

lemma owner_live:
  "queue_inv s \<Longrightarrow> ctid (cpc s c) = Some t \<Longrightarrow> live (drv s) t"
  "queue_inv s \<Longrightarrow> ctid (cpc s c) = Some t \<Longrightarrow> owner s t = c"
  by (auto simp: queue_inv_def intro: own_invD)

lemma writing_live:
  assumes "use_inv s" "spc s r = S_write f t n" shows "live (drv s) t"
  using owner_live(1) [OF use_invD(1) [OF assms(1)], of "owner s t" t] use_invD(6) [OF assms] by simp

lemma reading_live:
  assumes "use_inv s" "spc s r = S_read f t \<or> spc s r = S_ret f t" shows "live (drv s) t"
  using assms use_invD(4,5) [OF assms(1), of r f t]
  by (intro listed_live) (auto simp: use_invD(1) listed_def)

text \<open>Closing the last file of the device leaves no server thread inside the driver.\<close>

lemma last_close_idle:
  assumes "file_inv s" "f \<in> open_files s" "\<And>r. sfile (spc s r) \<noteq> Some f"
    and "uvfs_use_count (drv s) = 1"
  shows "spc s r = S_user"
proof -
  from assms(1,4) have "card (open_files s) = 1" by (simp add: file_inv_def)
  with assms(2) have "open_files s = {f}" by (auto simp: card_1_singleton_iff)
  with assms(1,3) have "sfile (spc s r) = None"
    using file_invD by (metis not_None_eq singletonD)
  then show ?thesis by (cases "spc s r") auto
qed

lemma queue_listed_live: "queue_inv s \<Longrightarrow> \<forall>t \<in> set (Uvfs_requests (drv s) @ Uvfs_replies (drv s)). live (drv s) t"
  using listed_live unfolding listed_def by auto

lemma queue_distinct: "queue_inv s \<Longrightarrow> distinct (Uvfs_requests (drv s) @ Uvfs_replies (drv s))"
  by (simp add: queue_inv_def list_inv_def)

text \<open>A queued transaction of an undisturbed thread is still being waited for.\<close>

lemma listed_waiting:
  assumes "use_inv s" and "t \<in> listed (drv s)"
  shows "cpc s (owner s t) = C_waiting t"
proof -
  note inv = use_invD [OF assms(1)]
  have li: "list_inv s" using inv(1) by (simp add: queue_inv_def)
  have "pending (cpc s (owner s t)) = Some t" and na: "\<not> t_answered (the_trans (drv s) t)"
    using list_invD(4,5) [OF li assms(2)] by simp_all
  moreover have "cpc s (owner s t) \<noteq> C_check t"
    using list_invD(6) [OF li] inv(2) na by blast
  ultimately show ?thesis
    using inv(9,10) [of "owner s t" t] by (cases "cpc s (owner s t)") auto
qed

lemma use_inv_read:
  assumes ui: "use_inv s" and d: "Uvfs_requests d = Uvfs_requests (drv s)"
    "Uvfs_replies d = Uvfs_replies (drv s)" "\<And>t. the_trans d t = the_trans (drv s) t"
    "\<And>t. live d t = live (drv s) t" "fault d = fault (drv s)"
    and qi: "queue_inv (s\<lparr>drv := snd (uvfsd_read_loop r d),
                     spc := (spc s)(r := read_pc f (fst (uvfsd_read_loop r d)))\<rparr>)"
    (is "queue_inv ?s'")
  shows "use_inv ?s'"
proof (rule use_invI [OF qi])
  note inv = use_invD [OF ui]
  have live: "t \<in> set (Uvfs_requests d) \<Longrightarrow> live d t" for t
    using queue_listed_live [OF inv(1)] d(1,4) by auto
  have "\<not> fault (snd (uvfsd_read_loop r d))"
    using inv(3) d(5) live by (cases rule: read_loop_cases [of d r]) auto
  then show "\<not> fault (drv ?s')" by simp
  have reps: "set (Uvfs_replies (snd (uvfsd_read_loop r d))) =
      set (Uvfs_replies (drv s)) \<union> {t. fst (uvfsd_read_loop r d) = Read_take t}"
    using d(2) by (cases rule: read_loop_cases [of d r]) auto
  fix r1 r2 f1 f2 t n1 n2 c
  show "spc ?s' r1 = S_read f1 t \<or> spc ?s' r1 = S_ret f1 t \<Longrightarrow> t \<in> set (Uvfs_replies (drv ?s'))"
    using inv(4,5) [of r1 f1 t] by (auto simp: reps dest: read_pcD split: if_splits)
  show "spc ?s' r1 = S_write f1 t n1 \<Longrightarrow> cpc ?s' (owner ?s' t) = C_waiting t"
    "spc ?s' r1 = S_write f1 t n1 \<Longrightarrow> \<not> t_answered (the_trans (drv ?s') t)"
    using inv(6,7) [of r1 f1 t n1] d(3) by (auto split: if_splits)
  show "spc ?s' r1 = S_write f1 t n1 \<Longrightarrow> spc ?s' r2 = S_write f2 t n2 \<Longrightarrow> r1 = r2"
    using inv(8) by (auto split: if_splits)
  show "\<not> csig ?s' c" "cpc ?s' c \<noteq> C_drain t \<and> cpc ?s' c \<noteq> C_drained t"
    using inv(2,9,10) by auto
qed

lemma use_inv_write:
  assumes ui: "use_inv s" and pol: "\<And>t. reading s t \<Longrightarrow> t_serial (the_trans (drv s) t) \<noteq> n"
    and qi: "queue_inv (s\<lparr>drv := snd (uvfsd_write_lookup n (drv s)),
                     spc := (spc s)(r := write_pc f k (fst (uvfsd_write_lookup n (drv s))))\<rparr>)"
    (is "queue_inv ?s'")
  shows "use_inv ?s'"
proof (rule use_invI [OF qi])
  note inv = use_invD [OF ui]
  have li: "list_inv s" using inv(1) by (simp add: queue_inv_def)
  have "\<not> fault (snd (uvfsd_write_lookup n (drv s)))"
    using inv(3) queue_listed_live [OF inv(1)]
    by (cases rule: write_lookup_cases [of n "drv s"]) auto
  then show "\<not> fault (drv ?s')" by simp
  have reps: "set (Uvfs_replies (snd (uvfsd_write_lookup n (drv s)))) =
      set (Uvfs_replies (drv s)) - set_option (fst (uvfsd_write_lookup n (drv s)))"
    using list_invD(2) [OF li] by (cases rule: write_lookup_cases [of n "drv s"]) auto
  have hit: "t \<in> listed (drv s) \<and> \<not> reading s t" if "fst (uvfsd_write_lookup n (drv s)) = Some t" for t
    using that pol by (cases rule: write_lookup_cases [of n "drv s"]) (auto simp: listed_def)
  then have nr: "spc s r' \<noteq> S_read f' t" "spc s r' \<noteq> S_ret f' t"
    if "fst (uvfsd_write_lookup n (drv s)) = Some t" for t r' f'
    using that unfolding reading_def by blast+
  fix r1 r2 f1 f2 t n1 n2 c
  show "spc ?s' r1 = S_read f1 t \<or> spc ?s' r1 = S_ret f1 t \<Longrightarrow> t \<in> set (Uvfs_replies (drv ?s'))"
    using inv(4,5) [of r1 f1 t] nr [of t] by (auto simp: reps split: if_splits)
  show "spc ?s' r1 = S_write f1 t n1 \<Longrightarrow> cpc ?s' (owner ?s' t) = C_waiting t"
    using inv(6) [of r1 f1 t n1] hit [of t] listed_waiting [OF ui, of t]
    by (auto dest!: write_pc_S_write split: if_splits)
  show "spc ?s' r1 = S_write f1 t n1 \<Longrightarrow> \<not> t_answered (the_trans (drv ?s') t)"
    using inv(7) [of r1 f1 t n1] hit [of t] list_invD(4) [OF li, of t]
    by (auto dest!: write_pc_S_write split: if_splits)
  show "spc ?s' r1 = S_write f1 t n1 \<Longrightarrow> spc ?s' r2 = S_write f2 t n2 \<Longrightarrow> r1 = r2"
    using inv(8) hit [of t] list_invD(9) [OF li]
    by (auto dest!: write_pc_S_write split: if_splits)
  show "\<not> csig ?s' c" "cpc ?s' c \<noteq> C_drain t \<and> cpc ?s' c \<noteq> C_drained t"
    using inv(2,9,10) by auto
qed

text \<open>The steps one by one; \<open>disciplined\<close> rules out a signal, an oversized reply and a reply to a request that is
  still being copied out.\<close>

lemma use_inv_release:
  assumes "step s (L_release f) s'" and "use_inv s" and "queue_inv s'"
  shows "use_inv s'"
  using assms(1)
proof (rule step_releaseE)
  assume s': "s' = s\<lparr>drv := snd (uvfsd_release (drv s)), open_files := open_files s - {f}\<rparr>"
    and f: "f \<in> open_files s" "\<And>r. sfile (spc s r) \<noteq> Some f"
  note inv = use_invD [OF assms(2)]
  have idle: "spc s r = S_user" if "uvfs_use_count (drv s) = 1" for r
    using last_close_idle [OF _ f that] inv(1) by (simp add: queue_inv_def)
  show ?thesis
    using assms(3) inv idle release_fault [OF queue_listed_live [OF inv(1)]] unfolding s'
    by (intro use_invI) (auto simp: release_trans [OF queue_distinct [OF inv(1)]])
qed

lemma use_inv_wake:
  assumes "step s (L_wake c) s'" and "use_inv s" and "queue_inv s'"
  shows "use_inv s'"
proof -
  note inv = use_invD [OF assms(2)]
  obtain t where s': "s' = s\<lparr>drv := touch t (drv s), cpc := (cpc s)(c := C_check t)\<rparr>"
    and pc: "cpc s c = C_waiting t" and "t_answered (the_trans (drv s) t) \<or> csig s c"
    using assms(1) by (auto elim: step_wakeE)
  then have "spc s r \<noteq> S_write f t n" for r f n
    using inv(2,7) by blast
  moreover have "owner s t' = c \<Longrightarrow> spc s r = S_write f t' n \<Longrightarrow> t' = t" for r f t' n
    using inv(6) [of r f t' n] pc by auto
  ultimately show ?thesis
    using assms(3) pc inv owner_live(1) [OF inv(1), of c t] unfolding s'
    by (intro use_invI) (auto split: if_splits)
qed

lemma use_inv_new:
  assumes "step s (L_new c junk) s'" and "use_inv s" and "queue_inv s'"
  shows "use_inv s'"
proof -
  note inv = use_invD [OF assms(2)]
  have idle: "cpc s c = C_idle" using assms(1) by (auto elim: step_newE)
  have "spc s r \<noteq> S_write f (next_tid (drv s)) n" for r f n
    using srv_invD(1) [of s r "next_tid (drv s)"] inv(1) by (auto simp: queue_inv_def)
  moreover have "spc s r = S_write f t' n \<Longrightarrow> owner s t' \<noteq> c" for r f t' n
    using inv(6) [of r f t' n] idle by auto
  ultimately show ?thesis
    using assms(1,3) inv by (elim step_newE, intro use_invI) (auto split: if_splits)
qed

lemma use_inv_client:
  assumes ui: "use_inv s" and qi: "queue_inv s'"
  shows "step s (L_fill c u) s' \<Longrightarrow> use_inv s'" and "step s (L_submit c) s' \<Longrightarrow> use_inv s'"
    and "step s (L_check c) s' \<Longrightarrow> use_inv s'" and "step s (L_free c u) s' \<Longrightarrow> use_inv s'"
proof -
  note inv = use_invD [OF ui]
  note live = owner_live(1) [OF inv(1), of c]
  show "step s (L_fill c u) s' \<Longrightarrow> use_inv s'"
    using qi inv live by (elim step_fillE, intro use_invI) (auto simp: trans_upd_trans split: if_splits)
  show "step s (L_submit c) s' \<Longrightarrow> use_inv s'"
    using qi inv live by (elim step_submitE, intro use_invI) (auto split: if_splits)
  show "step s (L_check c) s' \<Longrightarrow> use_inv s'"
    using qi inv live by (elim step_checkE, intro use_invI) (auto simp: check_cases split: if_splits)
  show "step s (L_free c u) s' \<Longrightarrow> use_inv s'"
    using qi inv live by (elim step_freeE, intro use_invI) (auto simp: kfree_trans_other split: if_splits)
qed

lemma use_inv_undrained:
  assumes "use_inv s"
  shows "\<not> step s (L_unused c) s'" and "\<not> step s (L_cancel c) s'"
  using use_invD(9,10) [OF assms] by (auto elim!: step_unusedE step_cancelE)

lemma use_inv_written:
  assumes "step s (L_written r data) s'" and "use_inv s" and "queue_inv s'"
    and "disciplined s (L_written r data)"
  shows "use_inv s'"
proof -
  note inv = use_invD [OF assms(2)]
  obtain f t where pc: "spc s r = S_write f t (length data)"
    and s': "s' = s\<lparr>drv := uvfsd_write_done t data (drv s), spc := (spc s)(r := S_user)\<rparr>"
    using assms(1) by (auto elim: step_writtenE)
  have "spc s r' = S_write f' t n' \<Longrightarrow> r' = r" for r' f' n'
    using inv(8) pc by blast
  then show ?thesis
    using assms(3,4) pc inv writing_live [OF assms(2) pc] unfolding s'
    by (intro use_invI) (auto simp: disciplined_def split: if_splits)
qed

lemma use_inv_copy:
  assumes "use_inv s" and "queue_inv s'"
  shows "step s (L_copied r bs) s' \<Longrightarrow> use_inv s'" and "step s (L_return r n) s' \<Longrightarrow> use_inv s'"
  using assms(2) use_invD [OF assms(1)] reading_live [OF assms(1), of r]
  by ((elim step_copiedE step_returnE, intro use_invI); auto split: if_splits)+

lemma use_inv_server:
  assumes "use_inv s" and "queue_inv s'"
  shows "step s (L_read r f) s' \<Longrightarrow> use_inv s'" and "step s (L_resume r) s' \<Longrightarrow> use_inv s'"
    and "step s (L_write r f count h) s' \<Longrightarrow> disciplined s (L_write r f count h) \<Longrightarrow> use_inv s'"
proof -
  show "step s (L_read r f) s' \<Longrightarrow> use_inv s'"
    using assms by (auto elim!: step_readE intro!: use_inv_read)
  show "step s (L_resume r) s' \<Longrightarrow> use_inv s'"
    using assms by (auto elim!: step_resumeE intro!: use_inv_read)
  show "step s (L_write r f count h) s' \<Longrightarrow> disciplined s (L_write r f count h) \<Longrightarrow> use_inv s'"
    using assms by (elim step_writeE) (auto simp: disciplined_def reading_def intro!: use_inv_write)
qed

lemma use_inv_device:
  assumes "use_inv s" and "queue_inv s'"
  shows "step s (L_open f) s' \<Longrightarrow> use_inv s'" and "step s L_shutdown s' \<Longrightarrow> use_inv s'"
    and "step s (L_interrupt r) s' \<Longrightarrow> use_inv s'" and "step s (L_shut r) s' \<Longrightarrow> use_inv s'"
  using assms(2) use_invD [OF assms(1)]
  by ((elim step_openE step_shutdownE step_interruptE step_shutE, intro use_invI); auto split: if_splits)+

lemmas use_inv_steps = use_inv_release use_inv_wake use_inv_new use_inv_client use_inv_written use_inv_copy
  use_inv_server use_inv_device

lemma use_inv_step:
  assumes "step s l s'" and "use_inv s" and "disciplined s l"
  shows "use_inv s'"
proof -
  have "queue_inv s'"
    using assms queue_inv_step use_invD(1) by blast
  with assms show ?thesis
    using use_inv_undrained [OF assms(2)] by (cases l) (auto intro: use_inv_steps simp: disciplined_def)
qed

interpretation safe: invariant_system init_sys step disciplined use_inv
  by unfold_locales (auto intro: use_inv_init use_inv_step)

end
