(* ===== verification/Uvfs_Runs.thy ===== *)
theory Uvfs_Runs
  imports Uvfs_Safety
begin

text \<open>
  The machine as a function of its labels: a label determines the step, so a schedule (a
  list of labels) can be replayed. Used to exhibit runs of the driver: the normal life of
  a request, and the two races a signal opens.
\<close>

section \<open>Steps as a function\<close>

fun enabled :: "sys \<Rightarrow> label \<Rightarrow> bool" where
  "enabled s (L_open f) = (f \<notin> open_files s)"
| "enabled s (L_release f) = (f \<in> open_files s \<and> (\<forall>r. sfile (spc s r) \<noteq> Some f))"
| "enabled s L_shutdown = True"
| "enabled s (L_new c junk) = (cpc s c = C_idle \<and> length junk = sizeof_u)"
| "enabled s (L_fill c u) = (case cpc s c of
     C_new t \<Rightarrow> wf_request (t_serial (the_trans (drv s) t)) u | _ \<Rightarrow> False)"
| "enabled s (L_submit c) = (case cpc s c of C_built t \<Rightarrow> True | _ \<Rightarrow> False)"
| "enabled s (L_signal c) = True"
| "enabled s (L_wake c) = (case cpc s c of
     C_waiting t \<Rightarrow> t_answered (the_trans (drv s) t) \<or> csig s c | _ \<Rightarrow> False)"
| "enabled s (L_check c) = (case cpc s c of C_check t \<Rightarrow> True | _ \<Rightarrow> False)"
| "enabled s (L_unused c) = (case cpc s c of C_drain t \<Rightarrow> \<not> t_in_use (the_trans (drv s) t) | _ \<Rightarrow> False)"
| "enabled s (L_cancel c) = (case cpc s c of C_drained t \<Rightarrow> True | _ \<Rightarrow> False)"
| "enabled s (L_free c u) = (case cpc s c of C_done t \<Rightarrow> u = t_u (the_trans (drv s) t) | _ \<Rightarrow> False)"
| "enabled s (L_read r f) = (spc s r = S_user \<and> f \<in> open_files s)"
| "enabled s (L_resume r) = (case spc s r of
     S_sleep f \<Rightarrow> (r, True) \<in> set (Uvfs_driver_queue (drv s)) | _ \<Rightarrow> False)"
| "enabled s (L_interrupt r) = (case spc s r of S_sleep f \<Rightarrow> True | _ \<Rightarrow> False)"
| "enabled s (L_shut r) = (case spc s r of S_shut f \<Rightarrow> True | _ \<Rightarrow> False)"
| "enabled s (L_copied r bs) = (case spc s r of
     S_read f t \<Rightarrow> bs = delivered (t_u (the_trans (drv s) t)) | _ \<Rightarrow> False)"
| "enabled s (L_return r n) = (case spc s r of
     S_ret f t \<Rightarrow> n = request_size (t_u (the_trans (drv s) t)) | _ \<Rightarrow> False)"
| "enabled s (L_write r f count h) =
     (spc s r = S_user \<and> f \<in> open_files s \<and> uvfsd_write_check count (Some h) = Inr h)"
| "enabled s (L_written r data) = (case spc s r of S_write f t n \<Rightarrow> length data = n | _ \<Rightarrow> False)"

definition the_tid :: "sys \<Rightarrow> cid \<Rightarrow> tid" where
  "the_tid s c = the (ctid (cpc s c))"

definition the_stid :: "sys \<Rightarrow> sid \<Rightarrow> tid" where
  "the_stid s r = the (stid (spc s r))"

definition the_sfile :: "sys \<Rightarrow> sid \<Rightarrow> fid" where
  "the_sfile s r = the (sfile (spc s r))"

fun exec :: "sys \<Rightarrow> label \<Rightarrow> sys" where
  "exec s (L_open f) = s\<lparr>drv := snd (uvfsd_open (drv s)), open_files := insert f (open_files s)\<rparr>"
| "exec s (L_release f) = s\<lparr>drv := snd (uvfsd_release (drv s)), open_files := open_files s - {f}\<rparr>"
| "exec s L_shutdown = s\<lparr>drv := snd (snd (uvfsd_ioctl UVFS_IOCTL_SHUTDOWN False (drv s)))\<rparr>"
| "exec s (L_new c junk) =
     s\<lparr>drv := snd (uvfs_new_transaction junk (drv s)), cpc := (cpc s)(c := C_new (next_tid (drv s))),
       owner := (owner s)(next_tid (drv s) := c)\<rparr>"
| "exec s (L_fill c u) =
     s\<lparr>drv := upd_trans (the_tid s c) (\<lambda>tr. tr\<lparr>t_u := u\<rparr>) (drv s),
       cpc := (cpc s)(c := C_built (the_tid s c)), creq := (creq s)(c := u)\<rparr>"
| "exec s (L_submit c) =
     s\<lparr>drv := snd (make_request_submit (the_tid s c) (drv s)),
       cpc := (cpc s)(c := if fst (make_request_submit (the_tid s c) (drv s))
                            then C_waiting (the_tid s c) else C_done (the_tid s c))\<rparr>"
| "exec s (L_signal c) = s\<lparr>csig := (csig s)(c := True)\<rparr>"
| "exec s (L_wake c) =
     s\<lparr>drv := touch (the_tid s c) (drv s), cpc := (cpc s)(c := C_check (the_tid s c))\<rparr>"
| "exec s (L_check c) =
     s\<lparr>drv := snd (make_request_check (csig s c) (the_tid s c) (drv s)),
       cpc := (cpc s)(c := if fst (make_request_check (csig s c) (the_tid s c) (drv s))
                            then C_drain (the_tid s c) else C_done (the_tid s c))\<rparr>"
| "exec s (L_unused c) =
     s\<lparr>drv := touch (the_tid s c) (drv s), cpc := (cpc s)(c := C_drained (the_tid s c))\<rparr>"
| "exec s (L_cancel c) =
     s\<lparr>drv := make_request_cancel (the_tid s c) (drv s), cpc := (cpc s)(c := C_done (the_tid s c))\<rparr>"
| "exec s (L_free c u) = s\<lparr>drv := kfree_trans (the_tid s c) (drv s), cpc := (cpc s)(c := C_idle)\<rparr>"
| "exec s (L_read r f) =
     s\<lparr>drv := snd (uvfsd_read_loop r (drv s)),
       spc := (spc s)(r := read_pc f (fst (uvfsd_read_loop r (drv s))))\<rparr>"
| "exec s (L_resume r) =
     s\<lparr>drv := snd (uvfsd_read_loop r (uvfsd_read_woken r (drv s))),
       spc := (spc s)(r := read_pc (the_sfile s r)
                (fst (uvfsd_read_loop r (uvfsd_read_woken r (drv s)))))\<rparr>"
| "exec s (L_interrupt r) = s\<lparr>drv := uvfsd_read_woken r (drv s), spc := (spc s)(r := S_user)\<rparr>"
| "exec s (L_shut r) = s\<lparr>drv := uvfsd_read_shutdown (drv s), spc := (spc s)(r := S_user)\<rparr>"
| "exec s (L_copied r bs) =
     s\<lparr>drv := uvfsd_read_done (the_stid s r) (drv s),
       spc := (spc s)(r := S_ret (the_sfile s r) (the_stid s r))\<rparr>"
| "exec s (L_return r n) = s\<lparr>drv := touch (the_stid s r) (drv s), spc := (spc s)(r := S_user)\<rparr>"
| "exec s (L_write r f count h) =
     (let n = get32 (offsetof uvfs_generic_rep_s ''serial'') h in
      s\<lparr>drv := snd (uvfsd_write_lookup n (drv s)),
        spc := (spc s)(r := write_pc f (unat count) (fst (uvfsd_write_lookup n (drv s))))\<rparr>)"
| "exec s (L_written r data) =
     s\<lparr>drv := uvfsd_write_done (the_stid s r) data (drv s), spc := (spc s)(r := S_user)\<rparr>"

lemmas the_defs = the_tid_def the_stid_def the_sfile_def

lemma ioctl_shutdown_any:
  "uvfsd_ioctl UVFS_IOCTL_SHUTDOWN m d = uvfsd_ioctl UVFS_IOCTL_SHUTDOWN False d"
  by (simp add: uvfsd_ioctl_def)

lemma step_enabled: "step s l s' \<Longrightarrow> enabled s l"
  by (induction rule: step.induct) auto

lemma step_exec: "step s l s' \<Longrightarrow> s' = exec s l"
proof (induction rule: step.induct)
  case (dev_shutdown s m)
  then show ?case by (simp add: ioctl_shutdown_any [of m])
qed (auto simp: the_defs Let_def)

lemma exec_step: "enabled s l \<Longrightarrow> step s l (exec s l)"
proof (cases l)
  case (L_submit c)
  assume "enabled s l"
  then obtain t where t: "cpc s c = C_built t" using L_submit by (auto split: cpc.splits)
  then have eq: "the_tid s c = t" by (simp add: the_tid_def)
  show ?thesis
    using step.fs_submit [OF t] unfolding L_submit exec.simps eq .
next
  case (L_check c)
  assume "enabled s l"
  then obtain t where t: "cpc s c = C_check t" using L_check by (auto split: cpc.splits)
  then have eq: "the_tid s c = t" by (simp add: the_tid_def)
  show ?thesis
    using step.fs_check [OF t] unfolding L_check exec.simps eq .
qed (auto intro: step.intros simp: the_defs Let_def split: cpc.splits spc.splits)

text \<open>A label fixes the step that carries it.\<close>

lemma step_iff: "step s l s' \<longleftrightarrow> enabled s l \<and> s' = exec s l"
  using step_enabled step_exec exec_step by blast

section \<open>Schedules\<close>

fun admitted :: "(sys \<Rightarrow> label \<Rightarrow> bool) \<Rightarrow> sys \<Rightarrow> label list \<Rightarrow> bool" where
  "admitted ok s [] = True"
| "admitted ok s (l # ls) = (enabled s l \<and> ok s l \<and> admitted ok (exec s l) ls)"

lemma admitted_reachable: "reachable ok s \<Longrightarrow> admitted ok s ls \<Longrightarrow> reachable ok (foldl exec s ls)"
  by (induction ls arbitrary: s) (auto intro: reach_step exec_step)

lemma admitted_append:
  "admitted ok s (ls @ ls') \<longleftrightarrow> admitted ok s ls \<and> admitted ok (foldl exec s ls) ls'"
  by (induction ls arbitrary: s) auto

lemma admitted_butlast: "admitted ok s ls \<Longrightarrow> admitted ok s (butlast ls)"
  by (cases ls rule: rev_cases) (auto simp: admitted_append)

definition start :: sys where
  "start = \<lparr>drv = init_driver, cpc = (\<lambda>_. C_idle), csig = (\<lambda>_. False), creq = (\<lambda>_. []),
            spc = (\<lambda>_. S_user), open_files = {}, owner = (\<lambda>_. 0)\<rparr>"

lemma start_init: "init_sys start"
  by (simp add: start_def init_sys_def)

lemma start_reachable: "admitted ok start ls \<Longrightarrow> reachable ok (foldl exec start ls)"
  by (intro admitted_reachable reach_init start_init)


section \<open>A request and its reply\<close>

text \<open>The request \<open>statfs\<close> sends, and a reply of the size of the generic reply structure.\<close>

definition demo_request :: buf where
  "demo_request = le32 UVFS_STATFS @ le32 0 @ le32 (word_of_nat (sizeof uvfs_statfs_req_s))
     @ replicate (sizeof_u - 12) 0"

definition demo_reply :: buf where
  "demo_reply = le32 UVFS_STATFS @ le32 0 @ le32 (word_of_nat (sizeof uvfs_generic_rep_s)) @ le32 0"

lemma demo_simps [simp]:
  "length demo_request = sizeof_u" "length demo_reply = 16"
  "wf_request 0 demo_request" "request_size demo_request = 44"
  "get32 4 demo_reply = 0"
  "uvfsd_write_check 16 (Some demo_reply) = Inr demo_reply"
  by (simp_all add: demo_request_def demo_reply_def wf_request_def request_size_def
      uvfsd_write_check_def layout_simps buffer_simps word_le_nat_alt)

lemmas run_simps =
  start_def init_driver_def the_defs section_defs uvfsd_write_lookup_def reading_def disciplined_def
  wake_up_interruptible_def touch_def upd_trans_def the_trans_def live_def

text \<open>Thread 0 submits a request; server thread 0 takes it and is copying it out.\<close>

definition taken_run :: "label list" where
  "taken_run = [L_open 0, L_new 0 (replicate sizeof_u 0), L_fill 0 demo_request, L_submit 0, L_read 0 0]"

definition answered_run :: "label list" where
  "answered_run = taken_run @ [L_copied 0 (delivered demo_request), L_return 0 44,
     L_write 0 0 16 demo_reply, L_written 0 demo_reply, L_wake 0, L_check 0]"

lemma taken_run_ok: "admitted disciplined start taken_run"
  by (simp add: taken_run_def run_simps)

lemma answered_run_ok: "admitted disciplined start answered_run"
  by (simp add: answered_run_def taken_run_def run_simps layout_simps)


lemma taken_run_end: "Uvfs_replies (drv (foldl exec start taken_run)) = [0]"
  by (simp add: taken_run_def run_simps)

text \<open>The answered thread then frees its transaction; nothing was touched after that.\<close>

lemma answered_run_end:
  "cpc (foldl exec start answered_run) 0 = C_done 0"
  "t_answered (the_trans (drv (foldl exec start answered_run)) 0)"
  by (simp_all add: answered_run_def taken_run_def run_simps layout_simps)

section \<open>Races\<close>

text \<open>
  A signal arrives while the server copies the request out. The thread sees \<open>in_use\<close> and
  waits; the server finishes its read and starts to write the reply before the thread has
  the lock again. The thread does not look at \<open>in_use\<close> a second time: it cancels the
  transaction and frees it under the server.
\<close>

definition abort_run :: "label list" where
  "abort_run = taken_run @ [L_signal 0, L_wake 0, L_check 0, L_copied 0 (delivered demo_request),
     L_unused 0, L_return 0 44, L_write 0 0 16 demo_reply, L_cancel 0,
     L_free 0 (set_error (-ERESTARTSYS) demo_request), L_written 0 demo_reply]"

text \<open>
  Here the thread runs while the server is between its last \<open>spin_unlock\<close> and the evaluation
  of \<open>return request->size\<close>.
\<close>

definition late_size_run :: "label list" where
  "late_size_run = taken_run @ [L_signal 0, L_wake 0, L_check 0, L_copied 0 (delivered demo_request),
     L_unused 0, L_cancel 0, L_free 0 (set_error (-ERESTARTSYS) demo_request),
     L_return 0 (request_size [])]"

lemma abort_run_ok: "admitted polite start abort_run"
  by (simp add: abort_run_def taken_run_def run_simps layout_simps)

lemma late_size_run_ok: "admitted polite start late_size_run"
  by (simp add: late_size_run_def taken_run_def run_simps layout_simps)


text \<open>
  Nothing bounds the size of a reply from above: a reply of 5000 bytes that names a pending
  transaction is copied over the end of the transaction.
\<close>

definition long_reply :: buf where
  "long_reply = le32 UVFS_STATFS @ le32 0 @ le32 5000 @ replicate 4988 0"

lemma long_reply_simps [simp]:
  "length long_reply = 5000" "get32 4 long_reply = 0"
  "uvfsd_write_check 5000 (Some long_reply) = Inr long_reply"
  by (simp_all add: long_reply_def uvfsd_write_check_def layout_simps buffer_simps)

definition overrun_run :: "label list" where
  "overrun_run = taken_run @ [L_copied 0 (delivered demo_request), L_return 0 44,
     L_write 0 0 5000 long_reply, L_written 0 long_reply]"

lemma overrun_run_ok: "admitted unsignalled start overrun_run"
  by (simp add: overrun_run_def taken_run_def run_simps layout_simps)

section \<open>Properties\<close>



text \<open>
  C6. If no thread is killed while it waits and the server answers only what it has read, with
  replies that fit the union, then no thread ever touches a freed transaction or copies
  past the end of one.
\<close>

theorem disciplined_no_fault: "reachable disciplined s \<Longrightarrow> \<not> fault (drv s)"
  using safe.inv_reach use_invD(3) by blast

theorem disciplined_no_fault_witness:
  "\<not> fault (drv (foldl exec start answered_run)) \<and> cpc (foldl exec start answered_run) 0 = C_done 0"
  using disciplined_no_fault [OF start_reachable [OF answered_run_ok]] answered_run_end(1) by blast

text \<open>
  C38. With a server that obeys the protocol, a \<open>SIGKILL\<close> is enough to make the driver use a freed
  transaction: a server thread may be about to copy a reply into it, or about to return the
  size of a request it holds.
\<close>

theorem abort_use_after_free:
  "(\<exists>s r f t n. reachable polite s \<and> spc s r = S_write f t n \<and> \<not> live (drv s) t)
   \<and> (\<exists>s r f t. reachable polite s \<and> spc s r = S_ret f t \<and> \<not> live (drv s) t)"
proof
  have "spc (foldl exec start (butlast abort_run)) 0 = S_write 0 0 16"
    "\<not> live (drv (foldl exec start (butlast abort_run))) 0"
    by (simp_all add: abort_run_def taken_run_def run_simps layout_simps)
  moreover have "reachable polite (foldl exec start (butlast abort_run))"
    using abort_run_ok by (intro start_reachable) (simp add: admitted_butlast)
  ultimately show "\<exists>s r f t n. reachable polite s \<and> spc s r = S_write f t n \<and> \<not> live (drv s) t"
    by blast
  have "spc (foldl exec start (butlast late_size_run)) 0 = S_ret 0 0"
    "\<not> live (drv (foldl exec start (butlast late_size_run))) 0"
    by (simp_all add: late_size_run_def taken_run_def run_simps layout_simps)
  moreover have "reachable polite (foldl exec start (butlast late_size_run))"
    using late_size_run_ok by (intro start_reachable) (simp add: admitted_butlast)
  ultimately show "\<exists>s r f t. reachable polite s \<and> spc s r = S_ret f t \<and> \<not> live (drv s) t"
    by blast
qed

text \<open>
  Without any signal, a reply larger than the union is copied past the end of the
  transaction it answers.
\<close>

theorem oversized_reply_overruns:
  "\<exists>s. reachable unsignalled s \<and> fault (drv s) \<and> length (t_u (the_trans (drv s) 0)) > sizeof_u"
proof -
  have "fault (drv (foldl exec start overrun_run))"
    "length (t_u (the_trans (drv (foldl exec start overrun_run)) 0)) > sizeof_u"
    by (simp_all add: overrun_run_def taken_run_def run_simps layout_simps overlay_def put_bytes_def)
  with start_reachable [OF overrun_run_ok] show ?thesis by blast
qed

end
