(* ===== verification/Uvfs_Conduit.thy ===== *)
theory Uvfs_Conduit
  imports Uvfs_Runs Uvfs_Vfs
begin

text \<open>
  What a file system thread gets back from \<open>uvfs_make_request\<close>. The operations of the file
  system are modelled over the ways an exchange can end (\<open>outcome\<close> of \<open>Uvfs_Vfs\<close>); here the
  interleaved driver is shown to end every exchange in one of these ways, so that the two
  levels fit together.
\<close>

section \<open>Results of an exchange\<close>

fun interrupted :: "outcome \<Rightarrow> bool" where
  "interrupted (Interrupted d) = True"
| "interrupted _ = False"

text \<open>The union \<open>u\<close> is what an exchange that started with the request \<open>req\<close> can leave.\<close>

definition ended :: "(outcome \<Rightarrow> bool) \<Rightarrow> buf \<Rightarrow> buf \<Rightarrow> bool" where
  "ended ok req u \<longleftrightarrow> (\<exists>out. ok out \<and> outcome_ok out \<and> u = make_request_result out req)"

lemma set_error_twice: "16 \<le> length u \<Longrightarrow> set_error e (set_error e' u) = set_error e u"
  by (simp add: set_error_def put32_def put_bytes_def layout_simps)

lemma overlay_set_error: "16 \<le> length data \<Longrightarrow> 16 \<le> length u \<Longrightarrow> overlay data (set_error e u) = overlay data u"
  by (simp add: set_error_def put32_def overlay_def put_bytes_def layout_simps)

lemma ended_eio: "ended (\<lambda>out. \<not> interrupted out) req (set_error (-EIO) req)"
  unfolding ended_def by (rule exI [of _ No_server]) simp

lemma ended_reply:
  "16 \<le> length data \<Longrightarrow> length data \<le> sizeof_u \<Longrightarrow> ended (\<lambda>out. \<not> interrupted out) req (overlay data req)"
  unfolding ended_def by (rule exI [of _ "Replied data"]) simp

lemma ended_cancel:
  assumes "length req = sizeof_u" and "u = req \<or> ended (\<lambda>out. \<not> interrupted out) req u"
  shows "ended (\<lambda>out. True) req (set_error (-ERESTARTSYS) u)"
  using assms(2)
proof
  assume "ended (\<lambda>out. \<not> interrupted out) req u"
  then obtain out where out: "\<not> interrupted out" "outcome_ok out" "u = make_request_result out req"
    by (auto simp: ended_def)
  have "16 \<le> length req" using assms(1) by (simp add: layout_simps)
  then have "set_error (-ERESTARTSYS) u = make_request_result
      (Interrupted (case out of Replied data \<Rightarrow> Some data | _ \<Rightarrow> None)) req"
    using out by (cases out) (simp_all add: set_error_twice)
  moreover have "outcome_ok (Interrupted (case out of Replied data \<Rightarrow> Some data | _ \<Rightarrow> None))"
    using out by (cases out) simp_all
  ultimately show ?thesis unfolding ended_def by blast
next
  assume "u = req"
  then show ?thesis unfolding ended_def by (intro exI [of _ "Interrupted None"]) simp
qed

lemma ended_mono: "ended ok req u \<Longrightarrow> (\<And>out. ok out \<Longrightarrow> ok' out) \<Longrightarrow> ended ok' req u"
  unfolding ended_def by blast

section \<open>Invariant\<close>

text \<open>The only discipline: replies fit the union.\<close>

fun fits :: "sys \<Rightarrow> label \<Rightarrow> bool" where
  "fits s (L_written r data) = (length data \<le> sizeof_u)"
| "fits s l = True"

fun draining :: "cpc \<Rightarrow> bool" where
  "draining (C_drain t) = True"
| "draining (C_drained t) = True"
| "draining _ = False"

text \<open>While a reply is copied in, the union holds the request, or the request of a killed thread.\<close>

definition asks :: "bool \<Rightarrow> buf \<Rightarrow> buf \<Rightarrow> bool" where
  "asks killed req u \<longleftrightarrow> u = req \<or> killed \<and> u = set_error (-ERESTARTSYS) req"

lemma asks_refl [simp]: "asks killed req req"
  by (simp add: asks_def)

lemma asks_mono: "asks killed req u \<Longrightarrow> (killed \<Longrightarrow> killed') \<Longrightarrow> asks killed' req u"
  by (auto simp: asks_def)

definition conduit_inv :: "sys \<Rightarrow> bool" where
  "conduit_inv s \<longleftrightarrow> queue_inv s
   \<and> (\<forall>c t. ctid (cpc s c) = Some t \<longrightarrow> cpc s c \<noteq> C_new t \<longrightarrow> length (creq s c) = sizeof_u)
   \<and> (\<forall>c t. cpc s c = C_built t \<longrightarrow> t_u (the_trans (drv s) t) = creq s c)
   \<and> (\<forall>c t. pending (cpc s c) = Some t \<longrightarrow> \<not> t_answered (the_trans (drv s) t) \<longrightarrow>
        t_u (the_trans (drv s) t) = creq s c)
   \<and> (\<forall>c t. pending (cpc s c) = Some t \<longrightarrow> t_answered (the_trans (drv s) t) \<longrightarrow>
        ended (\<lambda>out. \<not> interrupted out) (creq s c) (t_u (the_trans (drv s) t)))
   \<and> (\<forall>c t. cpc s c = C_done t \<longrightarrow>
        ended (\<lambda>out. csig s c \<or> \<not> interrupted out) (creq s c) (t_u (the_trans (drv s) t)))
   \<and> (\<forall>r f t n. spc s r = S_write f t n \<longrightarrow> 16 \<le> n \<and> \<not> t_answered (the_trans (drv s) t))
   \<and> (\<forall>r f t n. spc s r = S_write f t n \<longrightarrow> live (drv s) t \<longrightarrow>
        asks (csig s (owner s t)) (creq s (owner s t)) (t_u (the_trans (drv s) t)))
   \<and> (\<forall>r r' f f' t n n'. spc s r = S_write f t n \<longrightarrow> spc s r' = S_write f' t n' \<longrightarrow> r = r')
   \<and> (\<forall>c. draining (cpc s c) \<longrightarrow> csig s c)"

lemma conduit_invD:
  assumes "conduit_inv s"
  shows "queue_inv s"
    and "ctid (cpc s c) = Some t \<Longrightarrow> cpc s c \<noteq> C_new t \<Longrightarrow> length (creq s c) = sizeof_u"
    and "cpc s c = C_built t \<Longrightarrow> t_u (the_trans (drv s) t) = creq s c"
    and "pending (cpc s c) = Some t \<Longrightarrow> \<not> t_answered (the_trans (drv s) t) \<Longrightarrow> t_u (the_trans (drv s) t) = creq s c"
    and "pending (cpc s c) = Some t \<Longrightarrow> t_answered (the_trans (drv s) t) \<Longrightarrow>
        ended (\<lambda>out. \<not> interrupted out) (creq s c) (t_u (the_trans (drv s) t))"
    and "cpc s c = C_done t \<Longrightarrow>
        ended (\<lambda>out. csig s c \<or> \<not> interrupted out) (creq s c) (t_u (the_trans (drv s) t))"
    and "spc s r = S_write f t n \<Longrightarrow> 16 \<le> n"
    and "spc s r = S_write f t n \<Longrightarrow> \<not> t_answered (the_trans (drv s) t)"
    and "spc s r = S_write f t n \<Longrightarrow> live (drv s) t \<Longrightarrow>
        asks (csig s (owner s t)) (creq s (owner s t)) (t_u (the_trans (drv s) t))"
    and "spc s r = S_write f t n \<Longrightarrow> spc s r' = S_write f' t n' \<Longrightarrow> r = r'"
    and "draining (cpc s c) \<Longrightarrow> csig s c"
  using assms unfolding conduit_inv_def by (elim conjE; (simp; fail | blast))+

lemma conduit_invI:
  assumes "queue_inv s"
    and "\<And>c t. ctid (cpc s c) = Some t \<Longrightarrow> cpc s c \<noteq> C_new t \<Longrightarrow> length (creq s c) = sizeof_u"
    and "\<And>c t. cpc s c = C_built t \<Longrightarrow> t_u (the_trans (drv s) t) = creq s c"
    and "\<And>c t. pending (cpc s c) = Some t \<Longrightarrow> \<not> t_answered (the_trans (drv s) t) \<Longrightarrow> t_u (the_trans (drv s) t) = creq s c"
    and "\<And>c t. pending (cpc s c) = Some t \<Longrightarrow> t_answered (the_trans (drv s) t) \<Longrightarrow>
        ended (\<lambda>out. \<not> interrupted out) (creq s c) (t_u (the_trans (drv s) t))"
    and "\<And>c t. cpc s c = C_done t \<Longrightarrow>
        ended (\<lambda>out. csig s c \<or> \<not> interrupted out) (creq s c) (t_u (the_trans (drv s) t))"
    and "\<And>r f t n. spc s r = S_write f t n \<Longrightarrow> 16 \<le> n"
    and "\<And>r f t n. spc s r = S_write f t n \<Longrightarrow> \<not> t_answered (the_trans (drv s) t)"
    and "\<And>r f t n. spc s r = S_write f t n \<Longrightarrow> live (drv s) t \<Longrightarrow>
        asks (csig s (owner s t)) (creq s (owner s t)) (t_u (the_trans (drv s) t))"
    and "\<And>r r' f f' t n n'. spc s r = S_write f t n \<Longrightarrow> spc s r' = S_write f' t n' \<Longrightarrow> r = r'"
    and "\<And>c. draining (cpc s c) \<Longrightarrow> csig s c"
  shows "conduit_inv s"
  unfolding conduit_inv_def
  by (intro conjI allI impI) (rule assms(1) | (rule assms(2-), assumption+))+

lemma conduit_inv_init: "init_sys s \<Longrightarrow> conduit_inv s"
  by (intro conduit_invI) (auto simp: queue_inv_init, auto simp: init_sys_def init_driver_def)

lemma write_check_size: "uvfsd_write_check count (Some h) = Inr h \<Longrightarrow> 16 \<le> unat count"
  by (auto simp: uvfsd_write_check_def layout_simps split: if_splits)

text \<open>Server steps that neither write into a transaction nor answer it.\<close>

lemma conduit_inv_server:
  assumes ci: "conduit_inv s" and qi: "queue_inv s'"
    and same: "cpc s' = cpc s" "creq s' = creq s" "csig s' = csig s" "owner s' = owner s"
    and trans: "\<And>t. t_u (the_trans (drv s') t) = t_u (the_trans (drv s) t)"
      "\<And>t. t_answered (the_trans (drv s') t) = t_answered (the_trans (drv s) t)"
      "\<And>t. live (drv s') t = live (drv s) t"
    and wr: "\<And>r f t n. spc s' r = S_write f t n \<Longrightarrow> spc s r = S_write f t n"
  shows "conduit_inv s'"
proof (rule conduit_invI [OF qi])
  note inv = conduit_invD [OF ci]
  fix c t r f n r' f' n'
  show "ctid (cpc s' c) = Some t \<Longrightarrow> cpc s' c \<noteq> C_new t \<Longrightarrow> length (creq s' c) = sizeof_u"
    "cpc s' c = C_built t \<Longrightarrow> t_u (the_trans (drv s') t) = creq s' c"
    "pending (cpc s' c) = Some t \<Longrightarrow> \<not> t_answered (the_trans (drv s') t) \<Longrightarrow> t_u (the_trans (drv s') t) = creq s' c"
    "pending (cpc s' c) = Some t \<Longrightarrow> t_answered (the_trans (drv s') t) \<Longrightarrow>
        ended (\<lambda>out. \<not> interrupted out) (creq s' c) (t_u (the_trans (drv s') t))"
    "cpc s' c = C_done t \<Longrightarrow>
        ended (\<lambda>out. csig s' c \<or> \<not> interrupted out) (creq s' c) (t_u (the_trans (drv s') t))"
    using inv(2-6) [of c t] by (simp_all add: same trans)
  show "spc s' r = S_write f t n \<Longrightarrow> 16 \<le> n" "spc s' r = S_write f t n \<Longrightarrow> \<not> t_answered (the_trans (drv s') t)"
    "spc s' r = S_write f t n \<Longrightarrow> live (drv s') t \<Longrightarrow>
        asks (csig s' (owner s' t)) (creq s' (owner s' t)) (t_u (the_trans (drv s') t))"
    using inv(7-9) [of r f t n] wr by (auto simp: same trans)
  show "spc s' r = S_write f t n \<Longrightarrow> spc s' r' = S_write f' t n' \<Longrightarrow> r = r'"
    using inv(10) wr by blast
  show "draining (cpc s' c) \<Longrightarrow> csig s' c" using inv(11) by (simp add: same)
qed

text \<open>A file system thread moves on with its own transaction; no other transaction changes.\<close>

lemma conduit_inv_client:
  assumes ci: "conduit_inv s" and qi: "queue_inv s'" and own: "ctid (cpc s c) = Some t"
    and same: "creq s' = creq s" "csig s' = csig s" "owner s' = owner s" "spc s' = spc s"
      "cpc s' = (cpc s)(c := pc)"
    and pcs: "cpc s c \<noteq> C_new t" "pc \<noteq> C_new t" "pc \<noteq> C_built t" "ctid pc = Some t"
    and trans: "\<And>t'. t' \<noteq> t \<Longrightarrow> the_trans (drv s') t' = the_trans (drv s) t'"
      "t_answered (the_trans (drv s') t) = t_answered (the_trans (drv s) t)"
      "\<And>t'. live (drv s') t' = live (drv s) t'"
    and pend: "pending pc = Some t \<Longrightarrow> pending (cpc s c) = Some t \<or> cpc s c = C_built t \<and> \<not> t_answered (the_trans (drv s) t)"
      "pending pc = Some t \<Longrightarrow> t_u (the_trans (drv s') t) = t_u (the_trans (drv s) t)"
    and drain: "draining pc \<Longrightarrow> csig s c"
    and cdone: "pc = C_done t \<Longrightarrow> ended (\<lambda>out. csig s c \<or> \<not> interrupted out) (creq s c) (t_u (the_trans (drv s') t))"
    and wr: "\<And>r f n. spc s r = S_write f t n \<Longrightarrow> t_u (the_trans (drv s') t) = t_u (the_trans (drv s) t)
        \<or> csig s c \<and> t_u (the_trans (drv s') t) = set_error (-ERESTARTSYS) (creq s c)"
  shows "conduit_inv s'"
proof (rule conduit_invI [OF qi])
  note inv = conduit_invD [OF ci]
  have ow: "owner s t = c" using owner_live(2) [OF inv(1) own] .
  have other: "t' \<noteq> t" if "ctid (cpc s c') = Some t'" "c' \<noteq> c" for c' t'
    using owner_live(2) [OF inv(1) that(1)] ow that(2) by auto
  fix c' t' r f n r' f' n'
  show "ctid (cpc s' c') = Some t' \<Longrightarrow> cpc s' c' \<noteq> C_new t' \<Longrightarrow> length (creq s' c') = sizeof_u"
    using inv(2) [of c' t'] inv(2) [OF own] pcs by (auto simp: same split: if_splits)
  show "cpc s' c' = C_built t' \<Longrightarrow> t_u (the_trans (drv s') t') = creq s' c'"
    using inv(3) [of c' t'] other [of c' t'] pcs(3,4) trans(1) [of t'] by (auto simp: same split: if_splits)
  show "pending (cpc s' c') = Some t' \<Longrightarrow> \<not> t_answered (the_trans (drv s') t') \<Longrightarrow> t_u (the_trans (drv s') t') = creq s' c'"
    using inv(3,4) [of c t] inv(4) [of c' t'] other [of c' t'] pcs(4) trans(1) [of t'] trans(2) pend pending_ctid [of _ t']
    by (auto simp: same split: if_splits)
  show "pending (cpc s' c') = Some t' \<Longrightarrow> t_answered (the_trans (drv s') t') \<Longrightarrow>
        ended (\<lambda>out. \<not> interrupted out) (creq s' c') (t_u (the_trans (drv s') t'))"
    using inv(5) [of c t] inv(5) [of c' t'] other [of c' t'] pcs(4) trans(1) [of t'] trans(2) pend pending_ctid [of _ t']
    by (auto simp: same split: if_splits)
  show "cpc s' c' = C_done t' \<Longrightarrow>
        ended (\<lambda>out. csig s' c' \<or> \<not> interrupted out) (creq s' c') (t_u (the_trans (drv s') t'))"
    using inv(6) [of c' t'] other [of c' t'] pcs(4) trans(1) [of t'] cdone by (auto simp: same split: if_splits)
  show "spc s' r = S_write f t' n \<Longrightarrow> 16 \<le> n" "spc s' r = S_write f t' n \<Longrightarrow> spc s' r' = S_write f' t' n' \<Longrightarrow> r = r'"
    using inv(7,10) by (auto simp: same)
  show "draining (cpc s' c') \<Longrightarrow> csig s' c'" using inv(11) drain by (auto simp: same split: if_splits)
  show "spc s' r = S_write f t' n \<Longrightarrow> \<not> t_answered (the_trans (drv s') t')"
    using inv(8) [of r f t' n] trans(1) [of t'] trans(2) by (cases "t' = t") (auto simp: same)
  show "spc s' r = S_write f t' n \<Longrightarrow> live (drv s') t' \<Longrightarrow>
        asks (csig s' (owner s' t')) (creq s' (owner s' t')) (t_u (the_trans (drv s') t'))"
    using inv(9) [of r f t' n] trans(1) [of t'] trans(3) wr [of r f n] ow by (cases "t' = t") (auto simp: same asks_def)
qed

lemma conduit_inv_release:
  assumes ci: "conduit_inv s" and f: "f \<in> open_files s" "\<And>r. sfile (spc s r) \<noteq> Some f"
    and qi: "queue_inv (s\<lparr>drv := snd (uvfsd_release (drv s)), open_files := open_files s - {f}\<rparr>)" (is "queue_inv ?s'")
  shows "conduit_inv ?s'"
proof -
  note inv = conduit_invD [OF ci]
  have idle: "spc s r = S_user" if "uvfs_use_count (drv s) = 1" for r
    using last_close_idle [OF _ f that] inv(1) by (simp add: queue_inv_def)
  have li: "list_inv s" using inv(1) by (simp add: queue_inv_def)
  let ?hit = "\<lambda>t. uvfs_use_count (drv s) = 1 \<and> t \<in> listed (drv s) \<and> live (drv s) t"
  have tr: "the_trans (drv ?s') t = (if ?hit t then eio_answer (the_trans (drv s) t) else the_trans (drv s) t)" for t
    by (simp add: release_trans [OF queue_distinct [OF inv(1)]] listed_def)
  have hit: "pending (cpc s (owner s t)) = Some t" "\<not> t_answered (the_trans (drv s) t)" if "?hit t" for t
    using list_invD(4,5) [OF li] that by auto
  have own: "owner s t = c" if "ctid (cpc s c) = Some t" for c t using owner_live(2) [OF inv(1) that] .
  show ?thesis
  proof (rule conduit_invI [OF qi])
    fix c t r f n r' f' n'
    show "ctid (cpc ?s' c) = Some t \<Longrightarrow> cpc ?s' c \<noteq> C_new t \<Longrightarrow> length (creq ?s' c) = sizeof_u"
      using inv(2) by simp
    show "cpc ?s' c = C_built t \<Longrightarrow> t_u (the_trans (drv ?s') t) = creq ?s' c"
      using inv(3) [of c t] hit(1) [of t] own [of c t] unfolding tr by auto
    show "pending (cpc ?s' c) = Some t \<Longrightarrow> \<not> t_answered (the_trans (drv ?s') t) \<Longrightarrow> t_u (the_trans (drv ?s') t) = creq ?s' c"
      using inv(4) [of c t] unfolding tr by (auto simp: eio_answer_def split: if_splits)
    show "pending (cpc ?s' c) = Some t \<Longrightarrow> t_answered (the_trans (drv ?s') t) \<Longrightarrow>
        ended (\<lambda>out. \<not> interrupted out) (creq ?s' c) (t_u (the_trans (drv ?s') t))"
      using inv(4,5) [of c t] hit(2) [of t] ended_eio unfolding tr by (auto simp: eio_answer_def split: if_splits)
    show "cpc ?s' c = C_done t \<Longrightarrow>
        ended (\<lambda>out. csig ?s' c \<or> \<not> interrupted out) (creq ?s' c) (t_u (the_trans (drv ?s') t))"
      using inv(6) [of c t] hit(1) [of t] own [of c t] unfolding tr by auto
    show "spc ?s' r = S_write f t n \<Longrightarrow> 16 \<le> n" "spc ?s' r = S_write f t n \<Longrightarrow> spc ?s' r' = S_write f' t n' \<Longrightarrow> r = r'"
      using inv(7,10) by auto
    show "draining (cpc ?s' c) \<Longrightarrow> csig ?s' c" using inv(11) by simp
    show "spc ?s' r = S_write f t n \<Longrightarrow> \<not> t_answered (the_trans (drv ?s') t)"
      "spc ?s' r = S_write f t n \<Longrightarrow> live (drv ?s') t \<Longrightarrow>
        asks (csig ?s' (owner ?s' t)) (creq ?s' (owner ?s' t)) (t_u (the_trans (drv ?s') t))"
      using inv(8,9) [of r f t n] idle [of r] unfolding tr by auto
  qed
qed

lemma conduit_inv_written:
  assumes ci: "conduit_inv s" and pc: "spc s r = S_write f t n" and data: "length data = n" "length data \<le> sizeof_u"
    and qi: "queue_inv (s\<lparr>drv := uvfsd_write_done t data (drv s), spc := (spc s)(r := S_user)\<rparr>)" (is "queue_inv ?s'")
  shows "conduit_inv ?s'"
proof (rule conduit_invI [OF qi])
  note inv = conduit_invD [OF ci]
  have n: "16 \<le> length data" using inv(7) [OF pc] data(1) by simp
  have own: "owner s t' = c" "live (drv s) t'" if "ctid (cpc s c) = Some t'" for c t'
    using owner_live [OF inv(1) that] by simp_all
  have not_new: "cpc s (owner s t) \<noteq> C_new t" "cpc s (owner s t) \<noteq> C_built t"
    using srv_invD [of s r t] inv(1) pc by (auto simp: queue_inv_def)
  have written: "overlay data (t_u (the_trans (drv s) t)) = overlay data (creq s (owner s t))" if "live (drv s) t"
  proof -
    have "ctid (cpc s (owner s t)) = Some t" using own_invD(4) [of s t] inv(1) that by (simp add: queue_inv_def)
    then have "length (creq s (owner s t)) = sizeof_u" using inv(2) not_new(1) by blast
    then show ?thesis using inv(9) [OF pc that] n by (auto simp: asks_def overlay_set_error layout_simps)
  qed
  have reply: "ended (\<lambda>out. \<not> interrupted out) (creq s c) (overlay data (t_u (the_trans (drv s) t)))"
    if "ctid (cpc s c) = Some t" for c
    using written own [OF that] ended_reply [OF n data(2)] by simp
  fix c t' r1 r2 f1 f2 n1 n2
  show "ctid (cpc ?s' c) = Some t' \<Longrightarrow> cpc ?s' c \<noteq> C_new t' \<Longrightarrow> length (creq ?s' c) = sizeof_u"
    using inv(2) by simp
  show "cpc ?s' c = C_built t' \<Longrightarrow> t_u (the_trans (drv ?s') t') = creq ?s' c"
    using inv(3) [of c t'] not_new own [of c t'] by auto
  show "pending (cpc ?s' c) = Some t' \<Longrightarrow> \<not> t_answered (the_trans (drv ?s') t') \<Longrightarrow> t_u (the_trans (drv ?s') t') = creq ?s' c"
    using inv(4) [of c t'] by (auto split: if_splits)
  show "pending (cpc ?s' c) = Some t' \<Longrightarrow> t_answered (the_trans (drv ?s') t') \<Longrightarrow>
        ended (\<lambda>out. \<not> interrupted out) (creq ?s' c) (t_u (the_trans (drv ?s') t'))"
    using inv(5) [of c t'] reply [of c] pending_ctid [of _ t'] by (auto split: if_splits)
  show "cpc ?s' c = C_done t' \<Longrightarrow>
        ended (\<lambda>out. csig ?s' c \<or> \<not> interrupted out) (creq ?s' c) (t_u (the_trans (drv ?s') t'))"
    using inv(6) [of c t'] ended_mono [OF reply [of c]] by (auto split: if_splits)
  show "spc ?s' r1 = S_write f1 t' n1 \<Longrightarrow> 16 \<le> n1"
    "spc ?s' r1 = S_write f1 t' n1 \<Longrightarrow> spc ?s' r2 = S_write f2 t' n2 \<Longrightarrow> r1 = r2"
    using inv(7,10) by (auto split: if_splits)
  show "draining (cpc ?s' c) \<Longrightarrow> csig ?s' c" using inv(11) by simp
  have only: "t' \<noteq> t" if "spc ?s' r1 = S_write f1 t' n1"
    using that inv(10) [OF pc, of r1 f1 n1] by (auto split: if_splits)
  show "spc ?s' r1 = S_write f1 t' n1 \<Longrightarrow> \<not> t_answered (the_trans (drv ?s') t')"
    using only inv(8) [of r1 f1 t' n1] by (auto split: if_splits)
  show "spc ?s' r1 = S_write f1 t' n1 \<Longrightarrow> live (drv ?s') t' \<Longrightarrow>
        asks (csig ?s' (owner ?s' t')) (creq ?s' (owner ?s' t')) (t_u (the_trans (drv ?s') t'))"
    using only inv(9) [of r1 f1 t' n1] by (auto split: if_splits)
qed

lemma conduit_inv_lookup:
  assumes ci: "conduit_inv s" and n: "16 \<le> k"
    and qi: "queue_inv (s\<lparr>drv := snd (uvfsd_write_lookup n (drv s)),
                     spc := (spc s)(r := write_pc f k (fst (uvfsd_write_lookup n (drv s))))\<rparr>)" (is "queue_inv ?s'")
  shows "conduit_inv ?s'"
proof (rule conduit_invI [OF qi])
  note inv = conduit_invD [OF ci]
  have li: "list_inv s" using inv(1) by (simp add: queue_inv_def)
  have hit: "t \<in> listed (drv s)" if "fst (uvfsd_write_lookup n (drv s)) = Some t" for t
    using that by (cases rule: write_lookup_cases [of n "drv s"]) (auto simp: listed_def)
  have fresh: "spc s r' \<noteq> S_write f' t n'" if "fst (uvfsd_write_lookup n (drv s)) = Some t" for t r' f' n'
    using hit [OF that] list_invD(9) [OF li] by blast
  have wr: "r1 = r \<and> fst (uvfsd_write_lookup n (drv s)) = Some t \<and> n1 = k \<or> r1 \<noteq> r \<and> spc s r1 = S_write f1 t n1"
    if "spc ?s' r1 = S_write f1 t n1" for r1 f1 t n1
    using that by (cases "fst (uvfsd_write_lookup n (drv s))") (auto split: if_splits)
  fix c t r1 r2 f1 f2 n1 n2
  show "ctid (cpc ?s' c) = Some t \<Longrightarrow> cpc ?s' c \<noteq> C_new t \<Longrightarrow> length (creq ?s' c) = sizeof_u"
    "cpc ?s' c = C_built t \<Longrightarrow> t_u (the_trans (drv ?s') t) = creq ?s' c"
    "pending (cpc ?s' c) = Some t \<Longrightarrow> \<not> t_answered (the_trans (drv ?s') t) \<Longrightarrow> t_u (the_trans (drv ?s') t) = creq ?s' c"
    "pending (cpc ?s' c) = Some t \<Longrightarrow> t_answered (the_trans (drv ?s') t) \<Longrightarrow>
        ended (\<lambda>out. \<not> interrupted out) (creq ?s' c) (t_u (the_trans (drv ?s') t))"
    "cpc ?s' c = C_done t \<Longrightarrow>
        ended (\<lambda>out. csig ?s' c \<or> \<not> interrupted out) (creq ?s' c) (t_u (the_trans (drv ?s') t))"
    using inv(2-6) [of c t] by simp_all
  show "spc ?s' r1 = S_write f1 t n1 \<Longrightarrow> 16 \<le> n1"
    using wr inv(7) n by blast
  show "draining (cpc ?s' c) \<Longrightarrow> csig ?s' c" using inv(11) by simp
  show "spc ?s' r1 = S_write f1 t n1 \<Longrightarrow> spc ?s' r2 = S_write f2 t n2 \<Longrightarrow> r1 = r2"
    using wr [of r1 f1 t n1] wr [of r2 f2 t n2] fresh [of t] inv(10) by blast
  show "spc ?s' r1 = S_write f1 t n1 \<Longrightarrow> \<not> t_answered (the_trans (drv ?s') t)"
    using wr [of r1 f1 t n1] inv(8) [of r1 f1 t n1] list_invD(4) [OF li hit] by auto
  show "spc ?s' r1 = S_write f1 t n1 \<Longrightarrow> live (drv ?s') t \<Longrightarrow>
        asks (csig ?s' (owner ?s' t)) (creq ?s' (owner ?s' t)) (t_u (the_trans (drv ?s') t))"
    using wr [of r1 f1 t n1] inv(9) [of r1 f1 t n1] inv(4) [of "owner s t" t] list_invD(4,5) [OF li hit] by auto
qed

lemma ended_check:
  assumes ci: "conduit_inv s" and pend: "pending (cpc s c) = Some t"
  shows "ended (\<lambda>out. True) (creq s c) (set_error (-ERESTARTSYS) (t_u (the_trans (drv s) t)))"
proof (rule ended_cancel)
  show "length (creq s c) = sizeof_u"
    by (rule conduit_invD(2) [OF ci pending_ctid [OF pend]]) (use pend in auto)
  show "t_u (the_trans (drv s) t) = creq s c \<or> ended (\<lambda>out. \<not> interrupted out) (creq s c) (t_u (the_trans (drv s) t))"
    using conduit_invD(4,5) [OF ci pend] by blast
qed

lemma writing_request:
  assumes ci: "conduit_inv s" and wr: "spc s r = S_write f t n" and pend: "pending (cpc s c) = Some t"
  shows "t_u (the_trans (drv s) t) = creq s c"
  using conduit_invD(4) [OF ci pend] conduit_invD(8) [OF ci wr] by blast

lemma kfree_contents: "t_u (the_trans (kfree_trans t d) t') = (if t' = t then [] else t_u (the_trans d t'))"
  by (simp add: kfree_trans_def the_trans_def)

lemma other_thread:
  assumes "queue_inv s" and "ctid (cpc s c) = Some t" and "c' \<noteq> c"
  shows "cpc s c' \<noteq> C_built t" "pending (cpc s c') \<noteq> Some t" "cpc s c' \<noteq> C_done t"
proof -
  have "ctid (cpc s c') \<noteq> Some t"
    using owner_live(2) [OF assms(1)] assms(2,3) by blast
  then show "cpc s c' \<noteq> C_built t" "pending (cpc s c') \<noteq> Some t" "cpc s c' \<noteq> C_done t"
    using pending_ctid by auto
qed

lemma conduit_inv_new:
  assumes ci: "conduit_inv s" and pc: "cpc s c = C_idle"
    and qi: "queue_inv (s\<lparr>drv := snd (uvfs_new_transaction junk (drv s)), cpc := (cpc s)(c := C_new (next_tid (drv s))),
         owner := (owner s)(next_tid (drv s) := c)\<rparr>)" (is "queue_inv ?s'")
  shows "conduit_inv ?s'"
proof -
  note inv = conduit_invD [OF ci]
  have fresh: "\<not> live (drv s) (next_tid (drv s))"
    using own_invD(3) [of s "next_tid (drv s)"] inv(1) by (auto simp: queue_inv_def)
  have nt: "ctid (cpc s c') \<noteq> Some (next_tid (drv s))" for c'
    using owner_live(1) [OF inv(1), of c'] fresh by blast
  have "pending (cpc s c') \<noteq> Some (next_tid (drv s))" "cpc s c' \<noteq> C_built (next_tid (drv s))"
    "cpc s c' \<noteq> C_done (next_tid (drv s))" for c'
    using nt [of c'] pending_ctid [of "cpc s c'"] by auto
  moreover have "spc s r \<noteq> S_write f (next_tid (drv s)) n" for r f n
    using srv_invD(1) [of s r "next_tid (drv s)"] inv(1) by (auto simp: queue_inv_def)
  ultimately show ?thesis
    using pc qi inv by (intro conduit_invI) (auto split: if_splits)
qed

lemma conduit_inv_fill:
  assumes ci: "conduit_inv s" and pc: "cpc s c = C_new t" and len: "length u = sizeof_u"
    and qi: "queue_inv (s\<lparr>drv := upd_trans t (\<lambda>tr. tr\<lparr>t_u := u\<rparr>) (drv s), cpc := (cpc s)(c := C_built t),
         creq := (creq s)(c := u)\<rparr>)" (is "queue_inv ?s'")
  shows "conduit_inv ?s'"
proof -
  note inv = conduit_invD [OF ci]
  have own: "owner s t = c" "live (drv s) t" using owner_live [OF inv(1), of c t] pc by simp_all
  note others = other_thread [OF inv(1), of c t]
  have nw: "spc s r \<noteq> S_write f t n" for r f n
    using srv_invD(2) [of s r t] inv(1) pc own by (auto simp: queue_inv_def)
  have "owner s t' \<noteq> c" if "live (drv s) t'" "t' \<noteq> t" for t'
    using own_invD(4) [of s t'] inv(1) that pc by (auto simp: queue_inv_def)
  then show ?thesis
    using qi inv len own nw others pc
    by (intro conduit_invI) (auto simp: trans_upd_trans split: if_splits)
qed

lemma conduit_inv_submit:
  assumes ci: "conduit_inv s" and pc: "cpc s c = C_built t"
    and qi: "queue_inv (s\<lparr>drv := snd (make_request_submit t (drv s)),
         cpc := (cpc s)(c := if fst (make_request_submit t (drv s)) then C_waiting t else C_done t)\<rparr>)" (is "queue_inv ?s'")
  shows "conduit_inv ?s'"
proof -
  note inv = conduit_invD [OF ci]
  have na: "\<not> t_answered (the_trans (drv s) t)"
    using list_invD(8) [of s c t] inv(1) pc by (simp add: queue_inv_def)
  have nw: "spc s r \<noteq> S_write f t n" for r f n
    using srv_invD(3) [of s r t] inv(1) pc owner_live(2) [OF inv(1), of c t]
    by (auto simp: queue_inv_def)
  have eio: "ended (\<lambda>out. csig s c \<or> \<not> interrupted out) (creq s c) (set_error (-EIO) (creq s c))"
    by (rule ended_mono [OF ended_eio]) simp
  show ?thesis
  proof (cases "uvfs_use_count (drv s) = 0")
    case True
    with ci pc qi na nw eio inv(3) [OF pc] owner_live(1) [OF inv(1), of c t] show ?thesis
      by - (rule conduit_inv_client [where s = s and c = c and t = t and pc = "C_done t"], auto)
  next
    case False
    with ci pc qi na nw show ?thesis
      by - (rule conduit_inv_client [where s = s and c = c and t = t and pc = "C_waiting t"], auto)
  qed
qed

lemma conduit_inv_signal:
  assumes ci: "conduit_inv s" and qi: "queue_inv (s\<lparr>csig := (csig s)(c := True)\<rparr>)"
  shows "conduit_inv (s\<lparr>csig := (csig s)(c := True)\<rparr>)"
proof -
  note inv = conduit_invD [OF ci]
  have "ended (\<lambda>out. True) (creq s c') (t_u (the_trans (drv s) t))" if "cpc s c' = C_done t" for c' t
    by (rule ended_mono [OF inv(6) [OF that]]) simp
  moreover have "asks True (creq s (owner s t)) (t_u (the_trans (drv s) t))"
    if "spc s r = S_write f t n" "live (drv s) t" for r f t n
    by (rule asks_mono [OF inv(9) [OF that]]) simp
  ultimately show ?thesis
    using qi inv by (intro conduit_invI) (auto split: if_splits)
qed

lemma conduit_inv_check:
  assumes ci: "conduit_inv s" and pc: "cpc s c = C_check t"
    and qi: "queue_inv (s\<lparr>drv := snd (make_request_check (csig s c) t (drv s)),
         cpc := (cpc s)(c := if fst (make_request_check (csig s c) t (drv s)) then C_drain t else C_done t)\<rparr>)"
      (is "queue_inv ?s'")
  shows "conduit_inv ?s'"
proof -
  note inv = conduit_invD [OF ci]
  have li: "list_inv s" using inv(1) by (simp add: queue_inv_def)
  have pend: "pending (cpc s c) = Some t" using pc by simp
  have lv: "live (drv s) t" using owner_live(1) [OF inv(1), of c t] pc by simp
  have answ: "ended (\<lambda>out. \<not> interrupted out) (creq s c) (t_u (the_trans (drv s) t))" if "\<not> csig s c"
    using inv(5) [OF pend] list_invD(6) [OF li pc that] by simp
  show ?thesis
  proof (cases "csig s c \<and> t_in_use (the_trans (drv s) t)")
    case True
    with ci pc qi lv show ?thesis
      by - (rule conduit_inv_client [where s = s and c = c and t = t and pc = "C_drain t"],
        auto simp: check_cases trans_upd_trans)
  next
    case False
    with ci pc qi answ ended_check [OF ci pend] lv writing_request [OF ci _ pend]
    show ?thesis
      by - (rule conduit_inv_client [where s = s and c = c and t = t and pc = "C_done t"], auto simp: check_cases)
  qed
qed

lemma conduit_inv_step:
  assumes "step s l s'" and "conduit_inv s" and "fits s l"
  shows "conduit_inv s'"
proof -
  have qi: "queue_inv s'"
    using assms queue_inv_step conduit_invD(1) by blast
  show ?thesis
    using assms qi
  proof (induction rule: step.induct)
    case (dev_release f s)
    then show ?case by (intro conduit_inv_release) auto
  next
    case (fs_new s c junk t)
    then show ?case using conduit_inv_new [of s c junk] by simp
  next
    case (fs_fill s c t u)
    then show ?case by (intro conduit_inv_fill) (auto simp: wf_request_def)
  next
    case (fs_submit s c t)
    then show ?case by (intro conduit_inv_submit) auto
  next
    case (fs_signal s c)
    then show ?case by (intro conduit_inv_signal) auto
  next
    case (fs_wake s c t)
    then show ?case
      by - (rule conduit_inv_client [where s = s and c = c and t = t and pc = "C_check t"], auto)
  next
    case (fs_check s c t)
    then show ?case by (intro conduit_inv_check) auto
  next
    case (fs_unused s c t)
    then show ?case using conduit_invD(11) [of s c]
      by - (rule conduit_inv_client [where s = s and c = c and t = t and pc = "C_drained t"], auto)
  next
    case (fs_cancel s c t)
    note inv = conduit_invD [OF fs_cancel.prems(1)]
    have pend: "pending (cpc s c) = Some t" using fs_cancel.hyps by simp
    have lv: "live (drv s) t" using owner_live(1) [OF inv(1), of c t] fs_cancel.hyps by simp
    show ?case
      using fs_cancel ended_check [OF fs_cancel.prems(1) pend] lv writing_request [OF fs_cancel.prems(1) _ pend]
        inv(11) [of c]
      by - (rule conduit_inv_client [where s = s and c = c and t = t and pc = "C_done t"], auto)
  next
    case (fs_free s c t u)
    note inv = conduit_invD [OF fs_free.prems(1)]
    note others = other_thread [OF inv(1), of c t]
    show ?case
      using fs_free.prems(3) inv others fs_free.hyps
      by (intro conduit_invI) (auto simp: kfree_trans_other kfree_contents split: if_splits)
  next
    case (sv_write s r f count h n)
    then show ?case by (intro conduit_inv_lookup) (auto dest: write_check_size)
  next
    case (sv_written s r f t n data)
    then show ?case by (intro conduit_inv_written) auto
  qed (erule conduit_inv_server, auto split: if_splits)+
qed


interpretation conduit: invariant_system init_sys step fits conduit_inv
  by unfold_locales (auto intro: conduit_inv_init conduit_inv_step)

section \<open>Properties\<close>


lemma answered_run_fits: "admitted fits start answered_run"
  by (simp add: answered_run_def taken_run_def run_simps layout_simps)


end
