(* ===== verification/Uvfs_Serials.thy ===== *)
theory Uvfs_Serials
  imports Uvfs_Runs
begin

text \<open>
  Serial numbers. A reply names the request it answers by the serial number the request was
  given; \<open>uvfsd_write\<close> gives it to the first pending transaction of that number. The number is
  a counter of 32 bits that \<open>uvfsd_release\<close> sets back to 0 when the last file of the device is
  closed. Shown here: when the reset is safe and how old a request may get before its number
  comes round again, and a run in which the reset makes two pending requests share a number.
\<close>

section \<open>Invariant\<close>

text \<open>The last file of the device is closed only when no transaction is allocated.\<close>

fun orderly :: "sys \<Rightarrow> label \<Rightarrow> bool" where
  "orderly s (L_release f) = (uvfs_use_count (drv s) = 1 \<longrightarrow> (\<forall>t. \<not> live (drv s) t))"
| "orderly s l = True"

text \<open>The numbers have been counted up from the transaction \<open>base\<close>.\<close>

definition counted :: "nat \<Rightarrow> driver \<Rightarrow> bool" where
  "counted base d \<longleftrightarrow> base \<le> next_tid d \<and> Serial_number d = word_of_nat (next_tid d - base)
     \<and> (\<forall>t. live d t \<longrightarrow> base \<le> t \<and> t_serial (the_trans d t) = word_of_nat (t - base))"

definition serial_inv :: "sys \<Rightarrow> bool" where
  "serial_inv s \<longleftrightarrow> queue_inv s \<and> (\<exists>base. counted base (drv s))"

lemma counted_cong:
  assumes "counted base d" and "next_tid d' = next_tid d" and "Serial_number d' = Serial_number d"
    and "\<And>t. live d' t \<Longrightarrow> live d t"
    and "\<And>t. live d' t \<Longrightarrow> t_serial (the_trans d' t) = t_serial (the_trans d t)"
  shows "counted base d'"
  using assms by (simp add: counted_def)

lemma counted_new: "counted base d \<Longrightarrow> counted base (snd (uvfs_new_transaction junk d))"
  by (auto simp: counted_def Suc_diff_le)

lemma counted_step:
  assumes "step s l s'" and "queue_inv s" and "counted base (drv s)" and "orderly s l"
  shows "\<exists>base'. counted base' (drv s')"
  using assms
proof (induction rule: step.induct)
  case (fs_new s c junk t)
  then show ?case using counted_new by auto
next
  case (dev_release f s)
  show ?case
  proof (cases "uvfs_use_count (drv s) = 1")
    case True
    with dev_release show ?thesis by (intro exI [of _ "next_tid (drv s)"]) (simp add: counted_def)
  next
    case False
    with dev_release show ?thesis
      using release_serial [OF queue_distinct] by (intro exI [of _ base]) (auto elim: counted_cong)
  qed
qed (rule exI [of _ base], erule counted_cong; auto simp: check_cases trans_upd_trans split: if_splits)+

interpretation serials: invariant_system init_sys step orderly serial_inv
proof unfold_locales
  show "serial_inv s" if "init_sys s" for s
    using that queue_inv_init [OF that]
    by (auto simp: serial_inv_def counted_def init_sys_def init_driver_def live_def)
  show "serial_inv s'" if "serial_inv s" "step s l s'" "orderly s l" for s l s'
    using that queue_inv_step counted_step unfolding serial_inv_def by blast
qed

text \<open>Numbers that are less than a turn of the counter apart are different.\<close>

lemma word_of_nat_near:
  assumes "(word_of_nat a :: u32) = word_of_nat b" and "a < b + 2 ^ 32" and "b < a + 2 ^ 32"
  shows "a = b"
proof -
  have eq: "a mod 2 ^ 32 = b mod 2 ^ 32"
    using assms(1) by (simp add: word_of_nat_eq_iff take_bit_eq_mod)
  show ?thesis
  proof (cases a b rule: le_cases)
    case le
    then have "b mod 2 ^ 32 = a mod 2 ^ 32 \<longleftrightarrow> 2 ^ 32 dvd b - a" by (rule mod_eq_dvd_iff_nat)
    with eq assms(3) le show ?thesis by (auto dest: dvd_imp_le)
  next
    case ge
    then have "a mod 2 ^ 32 = b mod 2 ^ 32 \<longleftrightarrow> 2 ^ 32 dvd a - b" by (rule mod_eq_dvd_iff_nat)
    with eq assms(2) ge show ?thesis by (auto dest: dvd_imp_le)
  qed
qed

text \<open>No allocated transaction is more than a turn of the counter old.\<close>

definition recent :: "driver \<Rightarrow> bool" where
  "recent d \<longleftrightarrow> (\<forall>t. live d t \<longrightarrow> next_tid d \<le> t + 2 ^ 32)"

lemma serial_unique:
  assumes "serial_inv s" and "recent (drv s)" and "live (drv s) t" and "live (drv s) t'"
    and "t_serial (the_trans (drv s) t) = t_serial (the_trans (drv s) t')"
  shows "t = t'"
proof -
  have oi: "own_inv s" using assms(1) by (simp add: serial_inv_def queue_inv_def)
  obtain base where "counted base (drv s)" using assms(1) by (auto simp: serial_inv_def)
  then have base: "base \<le> t" "base \<le> t'" "(word_of_nat (t - base) :: u32) = word_of_nat (t' - base)"
    using assms(3-5) by (auto simp: counted_def)
  have "t < next_tid (drv s)" "t' < next_tid (drv s)" "next_tid (drv s) \<le> t + 2 ^ 32" "next_tid (drv s) \<le> t' + 2 ^ 32"
    using own_invD(3) [OF oi] assms(2-4) by (auto simp: recent_def)
  then have "t - base = t' - base" using base by (intro word_of_nat_near) linarith+
  with base show ?thesis by simp
qed

section \<open>Runs\<close>

text \<open>Two transactions are allocated; the first is submitted and taken.\<close>

definition two_run :: "label list" where
  "two_run = [L_open 0, L_new 0 (replicate sizeof_u 0), L_new 1 (replicate sizeof_u 0),
     L_fill 0 demo_request, L_submit 0, L_read 0 0]"

lemma two_run_ok: "admitted orderly start two_run"
  by (simp add: two_run_def run_simps)

lemma two_run_end:
  "Uvfs_replies (drv (foldl exec start two_run)) = [0]"
  "t_serial (the_trans (drv (foldl exec start two_run)) 0) = 0"
  "next_tid (drv (foldl exec start two_run)) = 2"
  by (simp_all add: two_run_def run_simps)

text \<open>
  Thread 0 allocates a transaction; before it submits, the server closes the device and opens
  it again; thread 1 allocates. Both requests are then submitted, and taken.
\<close>

definition reset_run :: "label list" where
  "reset_run = [L_open 0, L_new 0 (replicate sizeof_u 0), L_release 0, L_open 0, L_new 1 (replicate sizeof_u 0),
     L_fill 0 demo_request, L_submit 0, L_fill 1 demo_request, L_submit 1, L_read 0 0, L_read 1 0]"

lemma reset_run_ok: "admitted anything start reset_run"
  by (simp add: reset_run_def run_simps drain_empty)

lemma reset_run_end:
  "Uvfs_replies (drv (foldl exec start reset_run)) = [0, 1]"
  "t_serial (the_trans (drv (foldl exec start reset_run)) 0) = 0"
  "t_serial (the_trans (drv (foldl exec start reset_run)) 1) = 0"
  "fst (uvfsd_write_lookup 0 (drv (foldl exec start reset_run))) = Some 0"
  by (simp_all add: reset_run_def run_simps drain_empty)

section \<open>Properties\<close>



text \<open>
  C39. Setting \<open>Serial_number\<close> back to 0 while a thread holds a transaction it has not yet
  submitted lets two pending requests share a serial number; a reply to the second is then
  copied into the first.
\<close>

theorem duplicate_serials:
  "\<exists>s. reachable anything s \<and> Uvfs_replies (drv s) = [0, 1]
     \<and> t_serial (the_trans (drv s) 0) = t_serial (the_trans (drv s) 1)
     \<and> fst (uvfsd_write_lookup (t_serial (the_trans (drv s) 1)) (drv s)) = Some 0"
  using start_reachable [OF reset_run_ok] reset_run_end by (intro exI [of _ "foldl exec start reset_run"]) simp

end
