(* ===== verification/Uvfs_Handlers.thy ===== *)
theory Uvfs_Handlers
  imports Uvfs_Conduit Uvfs_Serials
begin

text \<open>
  The read and write handlers of the device from entry to return, for a thread that is not
  interleaved with others: the critical sections of \<open>Uvfs_Driver\<close> put together with the return
  codes of \<open>src/driver.c\<close>, and one whole exchange through them. Then, for the interleaved
  driver: what lies in the two queues are well-formed requests, so that the server reads what
  was submitted and the status report never leaves the table of operation names.
\<close>

section \<open>Whole handlers\<close>

datatype read_result =
    Asleep              \<comment> \<open>the thread waits for a request\<close>
  | Read_returned int buf  \<comment> \<open>return code, and the bytes copied to the user\<close>

text \<open>\<open>copied\<close>: whether \<open>copy_to_user\<close> succeeds; \<open>stack\<close>: the unset serial number of the shutdown report.\<close>

definition uvfsd_read :: "sid \<Rightarrow> u64 \<Rightarrow> bool \<Rightarrow> u32 \<Rightarrow> driver \<Rightarrow> read_result \<times> driver" where
  "uvfsd_read r count copied stack d =
     (if \<not> uvfsd_read_count_ok count then (Read_returned (-EIO) [], d)
      else case uvfsd_read_loop r d of
          (Read_shutdown, d) \<Rightarrow>
            (if copied then Read_returned (int (sizeof uvfs_shutdown_req_s)) (shutdown_message stack)
             else Read_returned (-EIO) [], uvfsd_read_shutdown d)
        | (Read_sleep, d) \<Rightarrow> (Asleep, d)
        | (Read_take t, d) \<Rightarrow>
            (let out = delivered (t_u (the_trans d t));
                 d = uvfsd_read_done t d;
                 n = request_size (t_u (the_trans d t));
                 d = touch t d
             in (if copied then Read_returned (int n) out else Read_returned (-EIO) [], d)))"

text \<open>
  \<open>hdr\<close>: the header, \<open>None\<close> when the first \<open>copy_from_user\<close> fails; \<open>copied\<close>: whether the second
  succeeds; \<open>data\<close>: what it leaves in the union.
\<close>

definition uvfsd_write :: "u64 \<Rightarrow> buf option \<Rightarrow> bool \<Rightarrow> buf \<Rightarrow> driver \<Rightarrow> int \<times> driver" where
  "uvfsd_write count hdr copied data d =
     (case uvfsd_write_check count hdr of
        Inl e \<Rightarrow> (e, d)
      | Inr h \<Rightarrow>
          (case uvfsd_write_lookup (get32 (offsetof uvfs_generic_rep_s ''serial'') h) d of
             (None, d) \<Rightarrow> (-EINVAL, d)
           | (Some t, d) \<Rightarrow>
               (if copied then sint (get32 (offsetof uvfs_generic_rep_s ''size'') h) else -EIO,
                uvfsd_write_done t data d)))"

section \<open>Branches\<close>

text \<open>The comparison of the 32-bit size of a reply with the 64-bit size of the write.\<close>

lemma scast_u32: "(scast (w :: u32) :: u64) = v \<longleftrightarrow> sint w = sint v"
proof -
  have "signed_take_bit 63 (sint w) = sint w"
    using sint_ge [of w] sint_lt [of w] by (intro signed_take_bit_int_eq_self) simp_all
  then have "sint (scast w :: u64) = sint w" by (simp add: signed_scast_eq)
  then show ?thesis by (metis signed_word_eqI)
qed

lemma read_take:
  fixes r :: sid and copied :: bool and stack :: u32
  assumes "uvfsd_read_count_ok count" and "\<not> ShuttingDown d" and "Uvfs_requests d = t # ts" and "live d t"
  defines "d' \<equiv> snd (uvfsd_read r count copied stack d)"
  shows "fst (uvfsd_read r count copied stack d) =
      (if copied then Read_returned (int (request_size (t_u (the_trans d t)))) (delivered (t_u (the_trans d t)))
       else Read_returned (-EIO) [])"
    and "Uvfs_requests d' = ts" "Uvfs_replies d' = Uvfs_replies d @ [t]" "fault d' = fault d"
    and "live d' t' = live d t'" "t_u (the_trans d' t') = t_u (the_trans d t')"
    and "t_serial (the_trans d' t') = t_serial (the_trans d t')" "\<not> t_in_use (the_trans d' t)"
proof -
  define d1 where "d1 = snd (uvfsd_read_loop r d)"
  have loop: "uvfsd_read_loop r d = (Read_take t, d1)" "Uvfs_requests d1 = ts"
    "Uvfs_replies d1 = Uvfs_replies d @ [t]" "fault d1 = fault d"
    using assms(1-4) unfolding d1_def by (cases rule: read_loop_cases [of d r]; simp)+
  have frame: "live d1 t' = live d t'" "t_u (the_trans d1 t') = t_u (the_trans d t')"
    "t_serial (the_trans d1 t') = t_serial (the_trans d t')" for t'
    unfolding d1_def by simp_all
  have d': "d' = touch t (uvfsd_read_done t d1)"
    using assms(1) by (simp add: d'_def uvfsd_read_def loop Let_def)
  have "live d1 t" using frame(1) assms(4) by simp
  then have off: "\<not> t_in_use (the_trans (uvfsd_read_done t d1) t)"
    by (simp add: uvfsd_read_done_def trans_upd_trans)
  show "fst (uvfsd_read r count copied stack d) =
      (if copied then Read_returned (int (request_size (t_u (the_trans d t)))) (delivered (t_u (the_trans d t)))
       else Read_returned (-EIO) [])"
    using assms(1) by (simp add: uvfsd_read_def loop frame Let_def)
  show "Uvfs_requests d' = ts" "Uvfs_replies d' = Uvfs_replies d @ [t]" "fault d' = fault d"
    "live d' t' = live d t'" "t_u (the_trans d' t') = t_u (the_trans d t')"
    "t_serial (the_trans d' t') = t_serial (the_trans d t')" "\<not> t_in_use (the_trans d' t)"
    using assms(4) off by (simp_all add: d' loop frame)
qed

lemma write_found:
  fixes copied :: bool and data :: buf
  assumes "uvfsd_write_check count (Some h) = Inr h" and "t \<in> set (Uvfs_replies d)"
    and "\<forall>t' \<in> set (Uvfs_replies d). live d t' \<and>
      (t_serial (the_trans d t') = get32 (offsetof uvfs_generic_rep_s ''serial'') h \<longleftrightarrow> t' = t)"
  defines "d' \<equiv> snd (uvfsd_write count (Some h) copied data d)"
  shows "fst (uvfsd_write count (Some h) copied data d) = (if copied then sint count else -EIO)"
    and "Uvfs_requests d' = Uvfs_requests d" "Uvfs_replies d' = remove1 t (Uvfs_replies d)"
    and "fault d' = (fault d \<or> sizeof_u < length data)" "live d' t' = live d t'"
    and "t_u (the_trans d' t) = overlay data (t_u (the_trans d t))" "t_answered (the_trans d' t)"
proof -
  define n where "n = get32 (offsetof uvfs_generic_rep_s ''serial'') h"
  define d1 where "d1 = snd (uvfsd_write_lookup n d)"
  have hit: "uvfsd_write_lookup n d = (Some t, d1)" "Uvfs_requests d1 = Uvfs_requests d"
    "Uvfs_replies d1 = remove1 t (Uvfs_replies d)" "fault d1 = fault d"
    using assms(2,3) unfolding d1_def n_def [symmetric] by (cases rule: write_lookup_cases [of n d]; force)+
  have frame: "live d1 t' = live d t'" "t_u (the_trans d1 t') = t_u (the_trans d t')" for t'
    unfolding d1_def by simp_all
  have lv: "live d t" using assms(2,3) by blast
  have size: "sint (get32 (offsetof uvfs_generic_rep_s ''size'') h) = sint count"
    using assms(1) scast_u32 [of _ count] by (auto simp: uvfsd_write_check_def split: if_splits)
  show "fst (uvfsd_write count (Some h) copied data d) = (if copied then sint count else -EIO)"
    by (simp add: uvfsd_write_def assms(1) n_def [symmetric] hit size)
  have d': "d' = uvfsd_write_done t data d1"
    by (simp add: d'_def uvfsd_write_def assms(1) n_def [symmetric] hit)
  show "Uvfs_requests d' = Uvfs_requests d" "Uvfs_replies d' = remove1 t (Uvfs_replies d)"
    "fault d' = (fault d \<or> sizeof_u < length data)" "live d' t' = live d t'"
    "t_u (the_trans d' t) = overlay data (t_u (the_trans d t))" "t_answered (the_trans d' t)"
    using lv by (simp_all add: d' hit frame)
qed

text \<open>A reply whose header gives its serial number and size passes the checks.\<close>

lemma write_check_reply:
  assumes "16 \<le> length data" and "length data \<le> sizeof_u"
    and "get32 (offsetof uvfs_generic_rep_s ''size'') data = word_of_nat (length data)"
  shows "uvfsd_write_check (word_of_nat (length data)) (Some (take 16 data)) = Inr (take 16 data)"
    and "sint (word_of_nat (length data) :: u64) = int (length data)"
proof -
  have small: "length data < 2 ^ 31" using assms(2) by (simp add: layout_simps)
  then have u32: "sint (word_of_nat (length data) :: u32) = int (length data)"
    by (simp add: signed_of_nat signed_take_bit_int_eq_self)
  have "get32 (offsetof uvfs_generic_rep_s ''size'') (take 16 data) = word_of_nat (length data)"
    using assms(3) by (simp add: get32_def bytes_at_take layout_simps)
  moreover have "(scast (word_of_nat (length data) :: u32) :: u64) = word_of_nat (length data)"
    by (simp add: scast_eq u32)
  ultimately show "uvfsd_write_check (word_of_nat (length data)) (Some (take 16 data)) = Inr (take 16 data)"
    using assms(1) small by (simp add: uvfsd_write_check_def layout_simps unat_of_nat take_bit_nat_eq_self)
  show "sint (word_of_nat (length data) :: u64) = int (length data)"
    using small by (simp add: signed_of_nat signed_take_bit_int_eq_self)
qed

text \<open>
  While a thread waits, every signal but \<open>SIGKILL\<close> (bit 8) is blocked, and \<open>SIGKILL\<close> only if it
  was blocked before: the signals of the step relation are kills.
\<close>

lemma wait_mask_blocks: "bit (wait_mask oldset) n \<longleftrightarrow> n < 64 \<and> (n = 8 \<longrightarrow> bit oldset 8)"
proof -
  have "bit SIGKILL_mask n \<longleftrightarrow> n = 8"
    unfolding SIGKILL_mask_def bit_push_bit_iff by (auto simp: bit_1_iff)
  moreover have "bit oldset n \<Longrightarrow> n < 64" using bit_imp_le_length [of oldset n] by simp
  ultimately show ?thesis by (auto simp: wait_mask_def bit_or_iff bit_not_iff)
qed

section \<open>Requests in the queues\<close>

text \<open>Every submitted request is one that \<open>uvfs_make_request\<close> accepts, under its serial number.\<close>

definition request_inv :: "sys \<Rightarrow> bool" where
  "request_inv s \<longleftrightarrow> conduit_inv s \<and>
     (\<forall>c t. cpc s c = C_built t \<or> pending (cpc s c) = Some t \<longrightarrow> wf_request (t_serial (the_trans (drv s) t)) (creq s c))"

lemma request_invD:
  assumes "request_inv s"
  shows "conduit_inv s" "queue_inv s"
    and "cpc s c = C_built t \<Longrightarrow> wf_request (t_serial (the_trans (drv s) t)) (creq s c)"
    and "pending (cpc s c) = Some t \<Longrightarrow> wf_request (t_serial (the_trans (drv s) t)) (creq s c)"
  using assms conduit_invD(1) by (auto simp: request_inv_def)

lemma request_inv_same:
  assumes "request_inv s" and "conduit_inv s'" and "creq s' = creq s"
    and "\<And>t. live (drv s) t \<Longrightarrow> live (drv s') t \<Longrightarrow> t_serial (the_trans (drv s') t) = t_serial (the_trans (drv s) t)"
    and "\<And>c t. cpc s' c = C_built t \<or> pending (cpc s' c) = Some t \<Longrightarrow> cpc s c = C_built t \<or> pending (cpc s c) = Some t"
  shows "request_inv s'"
  unfolding request_inv_def
proof (intro conjI allI impI)
  fix c t assume pc: "cpc s' c = C_built t \<or> pending (cpc s' c) = Some t"
  then have "ctid (cpc s' c) = Some t" using pending_ctid by auto
  then have "live (drv s') t" using owner_live(1) [OF conduit_invD(1) [OF assms(2)]] by blast
  moreover from pc have *: "cpc s c = C_built t \<or> pending (cpc s c) = Some t" by (rule assms(5))
  then have "ctid (cpc s c) = Some t" using pending_ctid by auto
  then have "live (drv s) t" using owner_live(1) [OF request_invD(2) [OF assms(1)]] by blast
  ultimately have "t_serial (the_trans (drv s') t) = t_serial (the_trans (drv s) t)" using assms(4) by blast
  with * assms(1,3) show "wf_request (t_serial (the_trans (drv s') t)) (creq s' c)"
    using request_invD(3,4) by auto
qed (rule assms(2))

lemma request_inv_step:
  assumes "step s l s'" and "request_inv s" and "fits s l"
  shows "request_inv s'"
proof -
  have "conduit_inv s'" using assms conduit_inv_step request_invD(1) by blast
  with assms show ?thesis
  proof (induction rule: step.induct)
    case (dev_release f s)
    then show ?case
      using release_serial [OF queue_distinct [OF request_invD(2)]] by - (rule request_inv_same [of s], auto)
  next
    case (fs_new s c junk t)
    have "\<not> live (drv s) (next_tid (drv s))"
      using request_invD(2) [OF fs_new.prems(1)] own_invD(3) by (auto simp: queue_inv_def)
    with fs_new show ?case by - (rule request_inv_same [of s], auto split: if_splits)
  next
    case (fs_fill s c t u)
    note inv = request_invD [OF fs_fill.prems(1)]
    have lv: "live (drv s) t" using owner_live(1) [OF inv(2), of c t] fs_fill.hyps by simp
    have "t_serial (the_trans (upd_trans t (\<lambda>tr. tr\<lparr>t_u := u\<rparr>) (drv s)) t') = t_serial (the_trans (drv s) t')" for t'
      by (simp add: trans_upd_trans)
    with fs_fill inv show ?case by (auto simp: request_inv_def split: if_splits)
  qed (rule request_inv_same, auto simp: check_cases trans_upd_trans split: if_splits)+
qed

lemma request_inv_init: "init_sys s \<Longrightarrow> request_inv s"
  using conduit_inv_init by (auto simp: request_inv_def init_sys_def)

interpretation requests: invariant_system init_sys step fits request_inv
  by unfold_locales (auto intro: request_inv_init request_inv_step)

text \<open>What a queued transaction holds.\<close>

lemma queued_request:
  assumes "request_inv s" and "t \<in> listed (drv s)"
  shows "t_u (the_trans (drv s) t) = creq s (owner s t)"
    and "wf_request (t_serial (the_trans (drv s) t)) (creq s (owner s t))"
proof -
  have li: "list_inv s" using request_invD(2) [OF assms(1)] by (simp add: queue_inv_def)
  have p: "pending (cpc s (owner s t)) = Some t" "\<not> t_answered (the_trans (drv s) t)"
    using list_invD(4,5) [OF li assms(2)] by simp_all
  show "t_u (the_trans (drv s) t) = creq s (owner s t)"
    using conduit_invD(4) [OF request_invD(1) [OF assms(1)] p] .
  show "wf_request (t_serial (the_trans (drv s) t)) (creq s (owner s t))"
    using request_invD(4) [OF assms(1) p(1)] .
qed

lemma wf_request_type:
  assumes "wf_request n u"
  shows "sint (get32 (offsetof uvfs_generic_req_s ''type'') u) = int (unat (get32 (offsetof uvfs_generic_req_s ''type'') u))"
    and "unat (get32 (offsetof uvfs_generic_req_s ''type'') u) \<le> 15"
proof -
  define w where "w = get32 (offsetof uvfs_generic_req_s ''type'') u"
  have "w \<le> 15" using assms by (auto simp: wf_request_def w_def UVFS_READLINK_def)
  then have u: "unat w \<le> 15" by (simp add: word_le_nat_alt)
  have "uint w = int (unat w)" by simp
  with u have "uint w \<le> 15" by linarith
  moreover have "- (2 ^ 31) \<le> uint w" by (rule order_trans [OF _ uint_ge_0]) simp
  ultimately have "sint w = uint w"
    by (subst sint_uint, intro signed_take_bit_int_eq_self) simp_all
  with u show "sint (get32 (offsetof uvfs_generic_req_s ''type'') u) = int (unat (get32 (offsetof uvfs_generic_req_s ''type'') u))"
    "unat (get32 (offsetof uvfs_generic_req_s ''type'') u) \<le> 15" by (simp_all add: w_def [symmetric])
qed

section \<open>Properties\<close>

text \<open>
  C13. One whole exchange: a thread submits a well-formed request while a server is connected and
  idle; a server thread reads it and writes a reply with its serial number; the thread looks at
  the result. The read returns the size of the request and delivers that many bytes of it, the
  write returns the size of the reply, the thread finds the reply in the union over its request
  and does not wait, both queues are as they were, and no memory fault occurs.
\<close>

theorem exchange_correct:
  assumes server: "uvfs_use_count d \<noteq> 0" "\<not> ShuttingDown d" "Uvfs_requests d = []"
    and request: "live d t" "wf_request (t_serial (the_trans d t)) (t_u (the_trans d t))"
    and others: "\<forall>t' \<in> set (Uvfs_replies d). live d t' \<and> t_serial (the_trans d t') \<noteq> t_serial (the_trans d t)"
    and buffer: "sizeof_union uvfs_request_u \<le> unat count"
    and reply: "16 \<le> length data" "length data \<le> sizeof_u"
      "get32 (offsetof uvfs_generic_rep_s ''size'') data = word_of_nat (length data)"
      "get32 (offsetof uvfs_generic_rep_s ''serial'') data = t_serial (the_trans d t)"
  shows "\<exists>d1 d2 d3. make_request_submit t d = (True, d1)
    \<and> uvfsd_read r count True stack d1 =
        (Read_returned (int (request_size (t_u (the_trans d t)))) (delivered (t_u (the_trans d t))), d2)
    \<and> uvfsd_write (word_of_nat (length data)) (Some (take 16 data)) True data d2 = (int (length data), d3)
    \<and> make_request_check False t d3 = (False, d3) \<and> t_answered (the_trans d3 t)
    \<and> t_u (the_trans d3 t) = overlay data (t_u (the_trans d t))
    \<and> Uvfs_requests d3 = [] \<and> Uvfs_replies d3 = Uvfs_replies d \<and> fault d3 = fault d"
proof -
  define d1 where "d1 = snd (make_request_submit t d)"
  have submit: "make_request_submit t d = (True, d1)"
    using server(1) by (simp add: d1_def prod_eq_iff)
  have d1: "Uvfs_requests d1 = [t]" "Uvfs_replies d1 = Uvfs_replies d" "fault d1 = fault d" "\<not> ShuttingDown d1"
    "live d1 t' = live d t'" "the_trans d1 t' = the_trans d t'" for t'
    using server request(1) by (simp_all add: d1_def)
  define d2 where "d2 = snd (uvfsd_read r count True stack d1)"
  have ok: "uvfsd_read_count_ok count" using buffer by (simp add: uvfsd_read_count_ok_def)
  have lv: "live d1 t" using d1 request(1) by simp
  note rd = read_take [OF ok d1(4) d1(1) lv, of r True stack, folded d2_def, unfolded d1]
  have serial: "get32 (offsetof uvfs_generic_rep_s ''serial'') (take 16 data) = t_serial (the_trans d t)"
    using reply(4) by (simp add: get32_def bytes_at_take layout_simps)
  have fresh: "t \<notin> set (Uvfs_replies d)" using others by blast
  define d3 where "d3 = snd (uvfsd_write (word_of_nat (length data)) (Some (take 16 data)) True data d2)"
  have "\<forall>t' \<in> set (Uvfs_replies d2). live d2 t' \<and>
      (t_serial (the_trans d2 t') = get32 (offsetof uvfs_generic_rep_s ''serial'') (take 16 data) \<longleftrightarrow> t' = t)"
    using others request(1) by (auto simp: rd serial)
  note wr = write_found [OF write_check_reply(1) [OF reply(1-3)] _ this, of True data, folded d3_def]
  have read: "uvfsd_read r count True stack d1 =
      (Read_returned (int (request_size (t_u (the_trans d t)))) (delivered (t_u (the_trans d t))), d2)"
    using rd(1) by (simp add: d2_def prod_eq_iff)
  have wrote: "uvfsd_write (word_of_nat (length data)) (Some (take 16 data)) True data d2 = (int (length data), d3)"
    using wr(1) write_check_reply(2) [OF reply(1-3)] by (simp add: rd d3_def prod_eq_iff)
  show ?thesis
    using submit read wrote wr(2-7) fresh reply(2)
    by (auto simp: make_request_check_def rd remove1_append)
qed

text \<open>A driver with one open file and one transaction that holds a request.\<close>

definition ready_run :: "label list" where
  "ready_run = [L_open 0, L_new 0 (replicate sizeof_u 0), L_fill 0 demo_request]"

lemma ready_run_end:
  "uvfs_use_count (drv (foldl exec start ready_run)) \<noteq> 0" "\<not> ShuttingDown (drv (foldl exec start ready_run))"
  "Uvfs_requests (drv (foldl exec start ready_run)) = []" "Uvfs_replies (drv (foldl exec start ready_run)) = []"
  "live (drv (foldl exec start ready_run)) 0" "t_serial (the_trans (drv (foldl exec start ready_run)) 0) = 0"
  "t_u (the_trans (drv (foldl exec start ready_run)) 0) = demo_request" "\<not> fault (drv (foldl exec start ready_run))"
  by (simp_all add: ready_run_def run_simps)

lemma demo_reply_fields:
  "get32 (offsetof uvfs_generic_rep_s ''size'') demo_reply = 16"
  "get32 (offsetof uvfs_generic_rep_s ''serial'') demo_reply = 0" "take 16 demo_reply = demo_reply"
  by (simp_all add: demo_reply_def layout_simps buffer_simps)

theorem exchange_correct_witness:
  "\<exists>d1 d2 d3. make_request_submit 0 (drv (foldl exec start ready_run)) = (True, d1)
    \<and> uvfsd_read 0 8192 True 0 d1 = (Read_returned 44 (delivered demo_request), d2)
    \<and> uvfsd_write 16 (Some demo_reply) True demo_reply d2 = (16, d3)
    \<and> t_u (the_trans d3 0) = overlay demo_reply demo_request \<and> \<not> fault d3"
  using exchange_correct [OF ready_run_end(1,2,3,5), of 8192 demo_reply 0 0]
    demo_reply_fields(1)
  by (auto simp: ready_run_end demo_reply_fields layout_simps)

text \<open>
  C36. Replies that are refused leave the driver as it was: one shorter than a reply header
  (\<open>EIO\<close>), one that cannot be read (\<open>EFAULT\<close>), one whose size field differs from the size of the
  write (\<open>EINVAL\<close>), and one whose serial number no pending transaction has (\<open>EINVAL\<close>).
\<close>

theorem reply_refused:
  defines "size_of \<equiv> get32 (offsetof uvfs_generic_rep_s ''size'')"
    and "serial_of \<equiv> get32 (offsetof uvfs_generic_rep_s ''serial'')"
  shows "(unat count < 16 \<longrightarrow> uvfsd_write count hdr copied data d = (-EIO, d))
   \<and> (16 \<le> unat count \<longrightarrow> uvfsd_write count None copied data d = (-EFAULT, d))
   \<and> (16 \<le> unat count \<and> sint (size_of h) \<noteq> sint count \<longrightarrow>
       uvfsd_write count (Some h) copied data d = (-EINVAL, d))
   \<and> (16 \<le> unat count \<and> sint (size_of h) = sint count
       \<and> (\<forall>t \<in> set (Uvfs_replies d). live d t \<and> t_serial (the_trans d t) \<noteq> serial_of h) \<longrightarrow>
       uvfsd_write count (Some h) copied data d = (-EINVAL, d))"
proof (intro conjI impI)
  assume *: "16 \<le> unat count \<and> sint (size_of h) = sint count
       \<and> (\<forall>t \<in> set (Uvfs_replies d). live d t \<and> t_serial (the_trans d t) \<noteq> serial_of h)"
  obtain res d1 where find: "find_reply d (Uvfs_replies d) (serial_of h) = (res, d1)" by fastforce
  from * find_reply_Some [of d "Uvfs_replies d" "serial_of h"] find have "res = None" by (cases res) auto
  moreover have "d1 = d\<lparr>fault := fault d1\<rparr>" "fault d1 = fault d" using find_reply_frame [OF find] * by auto
  then have "d1 = d" by simp
  ultimately show "uvfsd_write count (Some h) copied data d = (-EINVAL, d)"
    using * find unfolding serial_of_def
    by (simp add: uvfsd_write_def uvfsd_write_check_def uvfsd_write_lookup_def scast_u32 size_of_def layout_simps)
qed (simp_all add: uvfsd_write_def uvfsd_write_check_def scast_u32 size_of_def layout_simps)

theorem reply_refused_witness:
  "uvfsd_write 8 None True [] init_driver = (-EIO, init_driver)
   \<and> uvfsd_write 16 None True [] init_driver = (-EFAULT, init_driver)
   \<and> uvfsd_write 20 (Some demo_reply) True demo_reply init_driver = (-EINVAL, init_driver)
   \<and> uvfsd_write 16 (Some demo_reply) True demo_reply init_driver = (-EINVAL, init_driver)"
  using reply_refused [of 8 None True "[]" init_driver] reply_refused [of 16 None True "[]" init_driver]
    reply_refused [of 20 None True demo_reply init_driver demo_reply]
    reply_refused [of 16 None True demo_reply init_driver demo_reply]
  by (simp add: demo_reply_fields init_driver_def)


lemma taken_run_fits: "admitted fits start taken_run"
  by (simp add: taken_run_def run_simps)


end
