(* ===== verification/Uvfs_Module.thy ===== *)
theory Uvfs_Module
  imports Uvfs_Handlers
begin

text \<open>
  Loading and unloading the module (\<open>uvfs_init\<close> and \<open>uvfs_cleanup\<close> of \<open>src/driver.c\<close>, the slab
  cache of inodes of \<open>src/super.c\<close>) and the command line tool \<open>src/uvfs_signal.cc\<close>, which talks to the
  device through the same handlers as a server.
\<close>

section \<open>What the module registers with the kernel\<close>

text \<open>\<open>inode_cachep\<close>: the objects handed out by the slab cache, \<open>None\<close> when there is no cache.\<close>

record module =
  uvfs_proc_file :: bool
  fs_registered :: bool
  inode_cachep :: "nat set option"

definition unloaded :: module where
  "unloaded = \<lparr>uvfs_proc_file = False, fs_registered = False, inode_cachep = None\<rparr>"

text \<open>\<open>created\<close>: whether \<open>kmem_cache_create\<close> succeeds.\<close>

definition uvfs_init_inodecache :: "bool \<Rightarrow> module \<Rightarrow> int \<times> module" where
  "uvfs_init_inodecache created m =
     (let m = m\<lparr>inode_cachep := (if created then Some {} else None)\<rparr> in
      if inode_cachep m = None then (- ENOMEM, m) else (0, m))"

text \<open>\<open>kmem_cache_destroy\<close> keeps a cache that still has objects.\<close>

definition uvfs_destroy_inodecache :: "module \<Rightarrow> module" where
  "uvfs_destroy_inodecache m = (if inode_cachep m = Some {} then m\<lparr>inode_cachep := None\<rparr> else m)"

text \<open>\<open>obj\<close>: what \<open>kmem_cache_alloc\<close> returns.\<close>

definition uvfs_alloc_inode :: "nat option \<Rightarrow> module \<Rightarrow> nat option \<times> module" where
  "uvfs_alloc_inode obj m = (case obj of
       None \<Rightarrow> (None, m)
     | Some a \<Rightarrow> (Some a, m\<lparr>inode_cachep := map_option (insert a) (inode_cachep m)\<rparr>))"

definition uvfs_destroy_inode :: "nat \<Rightarrow> module \<Rightarrow> module" where
  "uvfs_destroy_inode a m = m\<lparr>inode_cachep := map_option (\<lambda>objs. objs - {a}) (inode_cachep m)\<rparr>"

text \<open>
  \<open>entry\<close>: whether \<open>create_proc_entry\<close> succeeds; \<open>result\<close>: what \<open>register_filesystem\<close> returns, which
  registers the file system exactly when that is 0.
\<close>

definition uvfs_init :: "bool \<Rightarrow> int \<Rightarrow> bool \<Rightarrow> module \<Rightarrow> int \<times> module" where
  "uvfs_init entry result created m =
     (if \<not> entry then (- EIO, m)
      else
        let m = m\<lparr>uvfs_proc_file := True\<rparr>;
            m = (if result = 0 then m\<lparr>fs_registered := True\<rparr> else m)
        in if result < 0 then (result, m\<lparr>uvfs_proc_file := False\<rparr>)
           else
             let (failed, m) = uvfs_init_inodecache created m
             in if failed \<noteq> 0 then (- ENOMEM, m) else (0, m))"

definition uvfs_cleanup :: "module \<Rightarrow> module" where
  "uvfs_cleanup m =
     (let m = m\<lparr>fs_registered := False\<rparr>;
          m = m\<lparr>uvfs_proc_file := False\<rparr>
      in uvfs_destroy_inodecache m)"

section \<open>The command line tool\<close>

text \<open>What \<open>main\<close> prints.\<close>

datatype message = Usage | Unrecognized string | No_device | Ioctl_failed | Opens int

definition signal_command :: "string \<Rightarrow> u32 option" where
  "signal_command arg =
     (if arg = ''shutdown'' then Some UVFS_IOCTL_SHUTDOWN
      else if arg = ''status'' then Some UVFS_IOCTL_STATUS
      else if arg = ''count'' then Some UVFS_IOCTL_USE_COUNT
      else None)"

text \<open>
  \<open>openable\<close>: whether \<open>open\<close> finds the device and may open it, which then runs \<open>uvfsd_open\<close>; \<open>close\<close>
  runs \<open>uvfsd_release\<close>.
\<close>

definition signal_main :: "string list \<Rightarrow> bool \<Rightarrow> bool \<Rightarrow> driver \<Rightarrow> int \<times> message list \<times> driver" where
  "signal_main argv openable mounted d =
     (if length argv < 3 then (1, [Usage], d)
      else case signal_command (argv ! 2) of
          None \<Rightarrow> (1, [Unrecognized (argv ! 2)], d)
        | Some cmd \<Rightarrow>
            if \<not> openable then (1, [No_device], d)
            else
              let (_, d) = uvfsd_open d;
                  (result, _, d) = uvfsd_ioctl cmd mounted d
              in if result < 0
                 then (let (_, d) = uvfsd_release d in (1, [Ioctl_failed], d))
                 else
                   let out = (if cmd = UVFS_IOCTL_USE_COUNT then [Opens result] else []);
                       (_, d) = uvfsd_release d
                   in (0, out, d))"

section \<open>Lemmas\<close>

lemma allocate_all:
  "inode_cachep m = Some objs \<Longrightarrow>
   foldl (\<lambda>m a. snd (uvfs_alloc_inode (Some a) m)) m as = m\<lparr>inode_cachep := Some (objs \<union> set as)\<rparr>"
  by (induction as arbitrary: m objs) (simp_all add: uvfs_alloc_inode_def)

lemma give_back_all:
  "inode_cachep m = Some objs \<Longrightarrow>
   foldl (\<lambda>m a. uvfs_destroy_inode a m) m as = m\<lparr>inode_cachep := Some (objs - set as)\<rparr>"
  by (induction as arbitrary: m objs) (simp_all add: uvfs_destroy_inode_def Diff_insert2 [symmetric])

text \<open>Opening the device, a command, closing it again.\<close>

lemma release_others: "uvfs_use_count d \<noteq> 1 \<Longrightarrow> uvfsd_release d = (0, d\<lparr>uvfs_use_count := uvfs_use_count d - 1\<rparr>)"
  by (simp add: uvfsd_release_def Let_def)

lemma release_last_idle:
  "uvfs_use_count d = 1 \<Longrightarrow> Uvfs_requests d = [] \<Longrightarrow> Uvfs_replies d = [] \<Longrightarrow>
   uvfsd_release d = (0, d\<lparr>uvfs_use_count := 0, ShuttingDown := False, Serial_number := 0\<rparr>)"
  by (simp add: uvfsd_release_def Let_def drain_empty)

lemmas signal_simps = signal_main_def signal_command_def uvfsd_open_def uvfsd_ioctl_def Let_def
  wake_up_interruptible_def layout_simps

section \<open>Properties\<close>

text \<open>
  C37. Loading and unloading: if \<open>uvfs_init\<close> returns 0, the device, the file system and the cache
  are all there, and once every inode has been given back \<open>uvfs_cleanup\<close> leaves nothing behind. If the
  device or the file system cannot be registered, nothing is left behind either. But if only the cache
  cannot be created, \<open>uvfs_init\<close> fails with \<open>-ENOMEM\<close> and leaves both the device and the file system
  registered.
\<close>

theorem module_lifecycle:
  fixes entry created :: bool
  assumes "result \<le> 0"
  defines "loaded \<equiv> snd (uvfs_init entry result created unloaded)"
  shows "(fst (uvfs_init entry result created unloaded) = 0 \<longrightarrow>
      uvfs_proc_file loaded \<and> fs_registered loaded \<and> inode_cachep loaded = Some {}
      \<and> uvfs_cleanup (foldl (\<lambda>m a. uvfs_destroy_inode a m)
          (foldl (\<lambda>m a. snd (uvfs_alloc_inode (Some a) m)) loaded inodes) inodes) = unloaded)
   \<and> (\<not> entry \<or> result < 0 \<longrightarrow> fst (uvfs_init entry result created unloaded) \<noteq> 0 \<and> loaded = unloaded)
   \<and> (entry \<and> result = 0 \<and> \<not> created \<longrightarrow> uvfs_init entry result created unloaded = (- ENOMEM, loaded)
      \<and> uvfs_proc_file loaded \<and> fs_registered loaded)"
proof (intro conjI)
  show "fst (uvfs_init entry result created unloaded) = 0 \<longrightarrow>
      uvfs_proc_file loaded \<and> fs_registered loaded \<and> inode_cachep loaded = Some {}
      \<and> uvfs_cleanup (foldl (\<lambda>m a. uvfs_destroy_inode a m)
          (foldl (\<lambda>m a. snd (uvfs_alloc_inode (Some a) m)) loaded inodes) inodes) = unloaded"
  proof
    assume "fst (uvfs_init entry result created unloaded) = 0"
    with assms have up: "loaded = \<lparr>uvfs_proc_file = True, fs_registered = True, inode_cachep = Some {}\<rparr>"
      by (auto simp: uvfs_init_def uvfs_init_inodecache_def unloaded_def Let_def split: if_splits)
    then show "uvfs_proc_file loaded \<and> fs_registered loaded \<and> inode_cachep loaded = Some {}
      \<and> uvfs_cleanup (foldl (\<lambda>m a. uvfs_destroy_inode a m)
          (foldl (\<lambda>m a. snd (uvfs_alloc_inode (Some a) m)) loaded inodes) inodes) = unloaded"
      using allocate_all [of loaded "{}" inodes] give_back_all [of "loaded\<lparr>inode_cachep := Some (set inodes)\<rparr>" "set inodes" inodes]
      by (simp add: uvfs_cleanup_def uvfs_destroy_inodecache_def unloaded_def)
  qed
qed (auto simp: loaded_def uvfs_init_def uvfs_init_inodecache_def unloaded_def)

theorem module_lifecycle_witness:
  "uvfs_cleanup (snd (uvfs_init True 0 True unloaded)) = unloaded
   \<and> uvfs_proc_file (snd (uvfs_init True 0 False unloaded))"
  using module_lifecycle [of 0 True True "[]"] module_lifecycle [of 0 True False "[]"]
  by (simp add: uvfs_init_def uvfs_init_inodecache_def unloaded_def)

text \<open>
  \<open>uvfs_signal\<close>: with a server connected, \<open>shutdown\<close> starts the shutdown and wakes a server
  thread and changes nothing else, \<open>status\<close> changes nothing, and \<open>count\<close> prints the number of
  opens, its own included. Without a server the tool is itself the last to close the device: the
  shutdown it asked for is forgotten and the serial numbers start again. A missing or unknown
  command or a device that cannot be opened gives exit status 1 and changes nothing.
\<close>

theorem signal_correct:
  "(0 < uvfs_use_count d \<longrightarrow>
      signal_main [prog, dev, ''shutdown''] True m d =
        (0, [], d\<lparr>ShuttingDown := True, Uvfs_driver_queue := wake_first (Uvfs_driver_queue d)\<rparr>)
      \<and> signal_main [prog, dev, ''status''] True m d = (0, [], d)
      \<and> signal_main [prog, dev, ''count''] True m d = (0, [Opens (uvfs_use_count d + 1)], d))
   \<and> (uvfs_use_count d = 0 \<and> Uvfs_requests d = [] \<and> Uvfs_replies d = [] \<and> Uvfs_driver_queue d = [] \<longrightarrow>
      signal_main [prog, dev, ''shutdown''] True m d = (0, [], d\<lparr>ShuttingDown := False, Serial_number := 0\<rparr>))
   \<and> (length argv < 3 \<or> signal_command (argv ! 2) = None \<or> \<not> openable \<longrightarrow>
      (\<exists>msg. signal_main argv openable m d = (1, [msg], d)))"
proof (intro conjI)
  show "0 < uvfs_use_count d \<longrightarrow>
      signal_main [prog, dev, ''shutdown''] True m d =
        (0, [], d\<lparr>ShuttingDown := True, Uvfs_driver_queue := wake_first (Uvfs_driver_queue d)\<rparr>)
      \<and> signal_main [prog, dev, ''status''] True m d = (0, [], d)
      \<and> signal_main [prog, dev, ''count''] True m d = (0, [Opens (uvfs_use_count d + 1)], d)"
    by (simp add: signal_simps release_others)
  show "uvfs_use_count d = 0 \<and> Uvfs_requests d = [] \<and> Uvfs_replies d = [] \<and> Uvfs_driver_queue d = [] \<longrightarrow>
      signal_main [prog, dev, ''shutdown''] True m d = (0, [], d\<lparr>ShuttingDown := False, Serial_number := 0\<rparr>)"
    by (simp add: signal_simps release_last_idle)
  show "length argv < 3 \<or> signal_command (argv ! 2) = None \<or> \<not> openable \<longrightarrow>
      (\<exists>msg. signal_main argv openable m d = (1, [msg], d))"
    by (auto simp: signal_main_def split: option.split)
qed

theorem signal_correct_witness:
  "signal_main [''uvfs_signal'', ''/proc/fs/pmfs'', ''count''] True False (init_driver\<lparr>uvfs_use_count := 2\<rparr>) =
     (0, [Opens 3], init_driver\<lparr>uvfs_use_count := 2\<rparr>)
   \<and> signal_main [''uvfs_signal'', ''/proc/fs/pmfs'', ''shutdown''] True False init_driver =
     (0, [], init_driver\<lparr>ShuttingDown := False, Serial_number := 0\<rparr>)
   \<and> (\<exists>msg. signal_main [''uvfs_signal''] True False init_driver = (1, [msg], init_driver))"
  using signal_correct [of "init_driver\<lparr>uvfs_use_count := 2\<rparr>" "''uvfs_signal''" "''/proc/fs/pmfs''" False]
    signal_correct [of init_driver "''uvfs_signal''" "''/proc/fs/pmfs''" False "[''uvfs_signal'']" True]
  by (simp add: init_driver_def)

end
