(* ===== verification/Uvfs_Operations.thy ===== *)
theory Uvfs_Operations
  imports Uvfs_Readdir Uvfs_Permission Uvfs_File Uvfs_Symlink Uvfs_Super Uvfs_Export Uvfs_Module
begin

text \<open>
  The operation tables of \<open>src/operations.c\<close> and the calls of the kernel through them. A table
  is a record of optional functions, as the structures of the source are structures of function
  pointers; the kernel finds the table through the inode, as \<open>uvfs_iget\<close> set it. Functions of the
  kernel that the operations take as arguments are collected in \<open>kfuncs\<close>.

  On top of the tables: any sequence of calls, by any threads, keeps what each operation promises
  (the interface \<open>vfs_operation\<close>).
\<close>

section \<open>Tables\<close>

record inode_operations =
  io_create :: "(kernel \<Rightarrow> task \<Rightarrow> iid \<Rightarrow> dentry \<Rightarrow> u32 \<Rightarrow> vfs \<Rightarrow> int \<times> vfs) option"
  io_lookup :: "(kernel \<Rightarrow> task \<Rightarrow> (iid option \<Rightarrow> nat \<Rightarrow> kptr) \<Rightarrow> iid \<Rightarrow> dentry \<Rightarrow> vfs \<Rightarrow> kptr \<times> vfs) option"
  io_unlink :: "(task \<Rightarrow> iid \<Rightarrow> dentry \<Rightarrow> vfs \<Rightarrow> int \<times> vfs) option"
  io_symlink :: "(kernel \<Rightarrow> task \<Rightarrow> iid \<Rightarrow> dentry \<Rightarrow> buf \<Rightarrow> vfs \<Rightarrow> int \<times> vfs) option"
  io_mkdir :: "(kernel \<Rightarrow> task \<Rightarrow> iid \<Rightarrow> dentry \<Rightarrow> u32 \<Rightarrow> vfs \<Rightarrow> int \<times> vfs) option"
  io_rmdir :: "(task \<Rightarrow> iid \<Rightarrow> dentry \<Rightarrow> vfs \<Rightarrow> int \<times> vfs) option"
  io_rename :: "(task \<Rightarrow> iid \<Rightarrow> dentry \<Rightarrow> iid \<Rightarrow> dentry \<Rightarrow> vfs \<Rightarrow> int \<times> vfs) option"
  io_readlink :: "((dentry \<Rightarrow> u32 \<Rightarrow> buf \<Rightarrow> buf \<Rightarrow> int \<times> buf) \<Rightarrow> task \<Rightarrow> dentry \<Rightarrow> u32 \<Rightarrow> buf \<Rightarrow> vfs
                    \<Rightarrow> (int \<times> buf) option \<times> vfs) option"
  io_follow_link :: "((buf \<Rightarrow> buf \<Rightarrow> int \<times> buf) \<Rightarrow> task \<Rightarrow> dentry \<Rightarrow> buf \<Rightarrow> vfs \<Rightarrow> (int \<times> buf) option \<times> vfs) option"
  io_permission :: "(task \<Rightarrow> bool \<Rightarrow> iid \<Rightarrow> u32 \<Rightarrow> vfs \<Rightarrow> int \<times> vfs) option"
  io_setattr :: "(task \<Rightarrow> (uvfs_inode_info \<Rightarrow> iattr \<Rightarrow> int) \<Rightarrow> (iattr \<Rightarrow> uvfs_inode_info \<Rightarrow> int \<times> uvfs_inode_info)
                    \<Rightarrow> iid \<Rightarrow> iattr \<Rightarrow> vfs \<Rightarrow> int \<times> iattr \<times> vfs) option"
  io_getattr :: "(kernel \<Rightarrow> task \<Rightarrow> (uvfs_inode_info \<Rightarrow> uvfs_inode_info) \<Rightarrow> iid \<Rightarrow> vfs \<Rightarrow> int \<times> uvfs_inode_info \<times> vfs) option"

text \<open>Slots a structure does not mention are null pointers.\<close>

definition no_inode_operations :: inode_operations where
  "no_inode_operations =
     \<lparr>io_create = None, io_lookup = None, io_unlink = None, io_symlink = None, io_mkdir = None,
      io_rmdir = None, io_rename = None, io_readlink = None, io_follow_link = None,
      io_permission = None, io_setattr = None, io_getattr = None\<rparr>"

definition Uvfs_file_inode_ops :: inode_operations where [simp]:
  "Uvfs_file_inode_ops = no_inode_operations
     \<lparr>io_permission := Some uvfs_permission, io_setattr := Some uvfs_setattr, io_getattr := Some uvfs_getattr\<rparr>"

definition Uvfs_dir_inode_ops :: inode_operations where [simp]:
  "Uvfs_dir_inode_ops = no_inode_operations
     \<lparr>io_create := Some uvfs_create, io_lookup := Some uvfs_lookup, io_unlink := Some uvfs_unlink,
      io_symlink := Some uvfs_symlink, io_mkdir := Some uvfs_mkdir, io_rmdir := Some uvfs_rmdir,
      io_rename := Some uvfs_rename, io_permission := Some uvfs_permission,
      io_setattr := Some uvfs_setattr, io_getattr := Some uvfs_getattr\<rparr>"

definition Uvfs_symlink_inode_ops :: inode_operations where [simp]:
  "Uvfs_symlink_inode_ops = no_inode_operations
     \<lparr>io_readlink := Some uvfs_readlink, io_follow_link := Some uvfs_follow_link,
      io_setattr := Some uvfs_setattr, io_getattr := Some uvfs_getattr\<rparr>"

text \<open>The table an inode points to.\<close>

fun inode_table :: "inode_ops \<Rightarrow> inode_operations" where
  "inode_table No_inode_operations = no_inode_operations"
| "inode_table Uvfs_file_inode_operations = Uvfs_file_inode_ops"
| "inode_table Uvfs_dir_inode_operations = Uvfs_dir_inode_ops"
| "inode_table Uvfs_symlink_inode_operations = Uvfs_symlink_inode_ops"

text \<open>
  The slots of the kernel's own functions (\<open>generic_file_open\<close>, \<open>file_fsync\<close>, \<open>generic_read_dir\<close>,
  \<open>generic_file_aio_read\<close> and \<open>generic_file_aio_write\<close>) are left out. The generic function an entry
  point ends with comes back into the module through the operations on pages, which are calls of
  their own below.
\<close>

record file_operations =
  fo_read :: "(kernel \<Rightarrow> task \<Rightarrow> (vfs \<Rightarrow> int \<times> vfs) \<Rightarrow> iid \<Rightarrow> vfs \<Rightarrow> int \<times> vfs) option"
  fo_write :: "(kernel \<Rightarrow> task \<Rightarrow> (vfs \<Rightarrow> int \<times> vfs) \<Rightarrow> iid \<Rightarrow> vfs \<Rightarrow> int \<times> vfs) option"
  fo_mmap :: "(kernel \<Rightarrow> task \<Rightarrow> (vfs \<Rightarrow> int \<times> vfs) \<Rightarrow> iid \<Rightarrow> vfs \<Rightarrow> int \<times> vfs) option"
  fo_readdir :: "(task \<Rightarrow> buf list filldir \<Rightarrow> iid \<Rightarrow> u64 \<Rightarrow> buf list \<Rightarrow> vfs \<Rightarrow> (int \<times> u64 \<times> buf list) option \<times> vfs) option"

definition Uvfs_file_file_ops :: file_operations where [simp]:
  "Uvfs_file_file_ops =
     \<lparr>fo_read = Some uvfs_file_read, fo_write = Some uvfs_file_write, fo_mmap = Some uvfs_file_mmap,
      fo_readdir = None\<rparr>"

definition Uvfs_dir_file_ops :: file_operations where [simp]:
  "Uvfs_dir_file_ops = \<lparr>fo_read = None, fo_write = None, fo_mmap = None, fo_readdir = Some uvfs_readdir\<rparr>"

fun file_table :: "file_ops \<Rightarrow> file_operations" where
  "file_table No_file_operations = \<lparr>fo_read = None, fo_write = None, fo_mmap = None, fo_readdir = None\<rparr>"
| "file_table Uvfs_file_file_operations = Uvfs_file_file_ops"
| "file_table Uvfs_dir_file_operations = Uvfs_dir_file_ops"

record address_space_operations =
  ao_writepage :: "(task \<Rightarrow> page \<Rightarrow> vfs \<Rightarrow> int \<times> page \<times> vfs) option"
  ao_readpage :: "(task \<Rightarrow> page \<Rightarrow> vfs \<Rightarrow> int \<times> page \<times> vfs) option"
  ao_write_begin :: "((u64 \<Rightarrow> page option) \<Rightarrow> u64 \<Rightarrow> u32 \<Rightarrow> int \<times> page option) option"
  ao_write_end :: "(task \<Rightarrow> u64 \<Rightarrow> u32 \<Rightarrow> u32 \<Rightarrow> page \<Rightarrow> vfs \<Rightarrow> int \<times> page \<times> vfs) option"
  ao_prepare_write :: "(page \<Rightarrow> u32 \<Rightarrow> u32 \<Rightarrow> int) option"
  ao_commit_write :: "(task \<Rightarrow> page \<Rightarrow> u32 \<Rightarrow> u32 \<Rightarrow> vfs \<Rightarrow> int \<times> page \<times> vfs) option"

definition Uvfs_file_address_ops :: "nat \<Rightarrow> address_space_operations" where [simp]:
  "Uvfs_file_address_ops version =
     (if version \<ge> KERNEL_VERSION 2 6 32
      then \<lparr>ao_writepage = Some uvfs_writepage, ao_readpage = Some uvfs_readpage,
            ao_write_begin = Some uvfs_write_begin, ao_write_end = Some uvfs_write_end,
            ao_prepare_write = None, ao_commit_write = None\<rparr>
      else \<lparr>ao_writepage = Some uvfs_writepage, ao_readpage = Some uvfs_readpage,
            ao_write_begin = None, ao_write_end = None,
            ao_prepare_write = Some uvfs_prepare_write, ao_commit_write = Some uvfs_commit_write\<rparr>)"

fun aops_table :: "nat \<Rightarrow> address_space_ops \<Rightarrow> address_space_operations" where
  "aops_table version No_aops =
     \<lparr>ao_writepage = None, ao_readpage = None, ao_write_begin = None, ao_write_end = None,
      ao_prepare_write = None, ao_commit_write = None\<rparr>"
| "aops_table version Uvfs_file_aops = Uvfs_file_address_ops version"

record dentry_operations =
  do_revalidate :: "(task \<Rightarrow> bool \<Rightarrow> dentry \<Rightarrow> vfs \<Rightarrow> int \<times> vfs) option"

definition Uvfs_dentry_ops :: dentry_operations where [simp]:
  "Uvfs_dentry_ops = \<lparr>do_revalidate = Some uvfs_dentry_revalidate\<rparr>"

record super_operations =
  so_alloc_inode :: "(nat option \<Rightarrow> module \<Rightarrow> nat option \<times> module) option"
  so_destroy_inode :: "(nat \<Rightarrow> module \<Rightarrow> module) option"
  so_statfs :: "(iid \<Rightarrow> kstatfs \<Rightarrow> vfs \<Rightarrow> int \<times> kstatfs \<times> vfs) option"

definition Uvfs_super_ops :: super_operations where [simp]:
  "Uvfs_super_ops = \<lparr>so_alloc_inode = Some uvfs_alloc_inode, so_destroy_inode = Some uvfs_destroy_inode,
      so_statfs = Some uvfs_statfs\<rparr>"

record export_operations =
  eo_encode_fh :: "(dentry \<Rightarrow> u32 list \<Rightarrow> int \<Rightarrow> bool \<Rightarrow> vfs \<Rightarrow> int \<times> int \<times> u32 list) option"
  eo_get_parent :: "(kernel \<Rightarrow> task \<Rightarrow> dcache_ops \<Rightarrow> dentry \<Rightarrow> vfs \<Rightarrow> kptr \<times> vfs) option"
  eo_fh_to_dentry :: "(kernel \<Rightarrow> task \<Rightarrow> dcache_ops \<Rightarrow> sbid \<Rightarrow> u32 list \<Rightarrow> int \<Rightarrow> int \<Rightarrow> vfs \<Rightarrow> kptr \<times> vfs) option"
  eo_fh_to_parent :: "(kernel \<Rightarrow> task \<Rightarrow> dcache_ops \<Rightarrow> sbid \<Rightarrow> u32 list \<Rightarrow> int \<Rightarrow> int \<Rightarrow> vfs \<Rightarrow> kptr \<times> vfs) option"
  eo_decode_fh :: "((uvfs_fhandle_s \<Rightarrow> uvfs_fhandle_s option \<Rightarrow> kptr) \<Rightarrow> u32 list \<Rightarrow> int \<Rightarrow> int \<Rightarrow> kptr option) option"
  eo_get_dentry :: "(kernel \<Rightarrow> task \<Rightarrow> dcache_ops \<Rightarrow> sbid \<Rightarrow> uvfs_fhandle_s \<Rightarrow> vfs \<Rightarrow> kptr \<times> vfs) option"

definition Uvfs_export_ops :: "nat \<Rightarrow> export_operations" where
  "Uvfs_export_ops version =
     (if version \<ge> KERNEL_VERSION 2 6 32
      then \<lparr>eo_encode_fh = Some uvfs_encode_fh, eo_get_parent = Some uvfs_get_parent,
            eo_fh_to_dentry = Some uvfs_fh_to_dentry, eo_fh_to_parent = Some uvfs_fh_to_parent,
            eo_decode_fh = None, eo_get_dentry = None\<rparr>
      else \<lparr>eo_encode_fh = Some uvfs_encode_fh, eo_get_parent = Some uvfs_get_parent,
            eo_fh_to_dentry = None, eo_fh_to_parent = None,
            eo_decode_fh = Some uvfs_decode_fh, eo_get_dentry = Some uvfs_get_dentry\<rparr>)"

section \<open>Calls\<close>

record kfuncs =
  kf_kernel :: kernel
  kf_splice_alias :: "iid option \<Rightarrow> nat \<Rightarrow> kptr"
  kf_readlink :: "dentry \<Rightarrow> u32 \<Rightarrow> buf \<Rightarrow> buf \<Rightarrow> int \<times> buf"
  kf_follow_link :: "buf \<Rightarrow> buf \<Rightarrow> int \<times> buf"
  kf_change_ok :: "uvfs_inode_info \<Rightarrow> iattr \<Rightarrow> int"
  kf_setattr :: "iattr \<Rightarrow> uvfs_inode_info \<Rightarrow> int \<times> uvfs_inode_info"
  kf_fillattr :: "uvfs_inode_info \<Rightarrow> uvfs_inode_info"
  kf_filldir :: "buf list filldir"
  kf_alloc_root :: "iid \<Rightarrow> nat option"
  kf_dcache :: dcache_ops

datatype call =
    Call_create iid dentry u32 | Call_lookup iid dentry | Call_unlink iid dentry
  | Call_symlink iid dentry buf | Call_mkdir iid dentry u32 | Call_rmdir iid dentry
  | Call_rename iid dentry iid dentry | Call_readlink dentry u32 buf | Call_follow_link dentry buf
  | Call_permission bool iid u32 | Call_setattr iid iattr | Call_getattr iid
  | Call_read iid | Call_write iid | Call_mmap iid | Call_readdir iid u64 "buf list"
  | Call_writepage page | Call_readpage page | Call_write_end u64 u32 u32 page
  | Call_commit_write page u32 u32
  | Call_d_revalidate bool dentry | Call_statfs iid kstatfs
  | Call_read_super sbid "buf option" super_block
  | Call_fh_to_dentry sbid "u32 list" int int | Call_fh_to_parent sbid "u32 list" int int
  | Call_get_dentry sbid uvfs_fhandle_s | Call_get_parent dentry

text \<open>The state after a call through a slot; a null slot is not called.\<close>

definition through :: "'f option \<Rightarrow> ('f \<Rightarrow> vfs option) \<Rightarrow> vfs \<Rightarrow> vfs option" where
  "through slot f s = (case slot of None \<Rightarrow> Some s | Some h \<Rightarrow> f h)"

text \<open>\<open>None\<close> when an operation that returns \<open>None\<close> has read outside the union.\<close>

definition unless_wild :: "'r option \<times> vfs \<Rightarrow> vfs option" where
  "unless_wild r = (case r of (None, _) \<Rightarrow> None | (Some _, s) \<Rightarrow> Some s)"

fun vfs_call :: "kfuncs \<Rightarrow> task \<Rightarrow> call \<Rightarrow> vfs \<Rightarrow> vfs option" where
  "vfs_call e cur (Call_create dir entry mode) s =
     through (io_create (inode_table (i_op (the_inode dir s))))
       (\<lambda>f. Some (snd (f (kf_kernel e) cur dir entry mode s))) s"
| "vfs_call e cur (Call_lookup dir entry) s =
     through (io_lookup (inode_table (i_op (the_inode dir s))))
       (\<lambda>f. Some (snd (f (kf_kernel e) cur (kf_splice_alias e) dir entry s))) s"
| "vfs_call e cur (Call_unlink dir entry) s =
     through (io_unlink (inode_table (i_op (the_inode dir s)))) (\<lambda>f. Some (snd (f cur dir entry s))) s"
| "vfs_call e cur (Call_symlink dir entry path) s =
     through (io_symlink (inode_table (i_op (the_inode dir s))))
       (\<lambda>f. Some (snd (f (kf_kernel e) cur dir entry path s))) s"
| "vfs_call e cur (Call_mkdir dir entry mode) s =
     through (io_mkdir (inode_table (i_op (the_inode dir s))))
       (\<lambda>f. Some (snd (f (kf_kernel e) cur dir entry mode s))) s"
| "vfs_call e cur (Call_rmdir dir entry) s =
     through (io_rmdir (inode_table (i_op (the_inode dir s)))) (\<lambda>f. Some (snd (f cur dir entry s))) s"
| "vfs_call e cur (Call_rename dir entry dir' entry') s =
     through (io_rename (inode_table (i_op (the_inode dir s))))
       (\<lambda>f. Some (snd (f cur dir entry dir' entry' s))) s"
| "vfs_call e cur (Call_readlink entry n mem) s =
     through (io_readlink (inode_table (i_op (the_inode (the (d_inode entry)) s))))
       (\<lambda>f. unless_wild (f (kf_readlink e) cur entry n mem s)) s"
| "vfs_call e cur (Call_follow_link entry nd) s =
     through (io_follow_link (inode_table (i_op (the_inode (the (d_inode entry)) s))))
       (\<lambda>f. unless_wild (f (kf_follow_link e) cur entry nd s)) s"
| "vfs_call e cur (Call_permission rdonly i msk) s =
     through (io_permission (inode_table (i_op (the_inode i s)))) (\<lambda>f. Some (snd (f cur rdonly i msk s))) s"
| "vfs_call e cur (Call_setattr i attr) s =
     through (io_setattr (inode_table (i_op (the_inode i s))))
       (\<lambda>f. Some (snd (snd (f cur (kf_change_ok e) (kf_setattr e) i attr s)))) s"
| "vfs_call e cur (Call_getattr i) s =
     through (io_getattr (inode_table (i_op (the_inode i s))))
       (\<lambda>f. Some (snd (snd (f (kf_kernel e) cur (kf_fillattr e) i s)))) s"
| "vfs_call e cur (Call_read i) s =
     through (fo_read (file_table (i_fop (the_inode i s))))
       (\<lambda>f. Some (snd (f (kf_kernel e) cur (Pair 0) i s))) s"
| "vfs_call e cur (Call_write i) s =
     through (fo_write (file_table (i_fop (the_inode i s))))
       (\<lambda>f. Some (snd (f (kf_kernel e) cur (Pair 0) i s))) s"
| "vfs_call e cur (Call_mmap i) s =
     through (fo_mmap (file_table (i_fop (the_inode i s))))
       (\<lambda>f. Some (snd (f (kf_kernel e) cur (Pair 0) i s))) s"
| "vfs_call e cur (Call_readdir i f_pos d) s =
     through (fo_readdir (file_table (i_fop (the_inode i s))))
       (\<lambda>f. unless_wild (f cur (kf_filldir e) i f_pos d s)) s"
| "vfs_call e cur (Call_writepage pg) s =
     through (ao_writepage (aops_table (LINUX_VERSION_CODE (kf_kernel e)) (i_aops (the_inode (pg_host pg) s))))
       (\<lambda>f. Some (snd (snd (f cur pg s)))) s"
| "vfs_call e cur (Call_readpage pg) s =
     through (ao_readpage (aops_table (LINUX_VERSION_CODE (kf_kernel e)) (i_aops (the_inode (pg_host pg) s))))
       (\<lambda>f. Some (snd (snd (f cur pg s)))) s"
| "vfs_call e cur (Call_write_end pos len copied pg) s =
     through (ao_write_end (aops_table (LINUX_VERSION_CODE (kf_kernel e)) (i_aops (the_inode (pg_host pg) s))))
       (\<lambda>f. Some (snd (snd (f cur pos len copied pg s)))) s"
| "vfs_call e cur (Call_commit_write pg offset to) s =
     through (ao_commit_write (aops_table (LINUX_VERSION_CODE (kf_kernel e)) (i_aops (the_inode (pg_host pg) s))))
       (\<lambda>f. Some (snd (snd (f cur pg offset to s)))) s"
| "vfs_call e cur (Call_d_revalidate submounts entry) s =
     through (do_revalidate Uvfs_dentry_ops) (\<lambda>f. Some (snd (f cur submounts entry s))) s"
| "vfs_call e cur (Call_statfs i st) s =
     through (so_statfs Uvfs_super_ops) (\<lambda>f. Some (snd (snd (f i st s)))) s"
| "vfs_call e cur (Call_read_super sb data sblk) s =
     Some (snd (snd (uvfs_read_super (kf_kernel e) cur (kf_alloc_root e) sb data sblk s)))"
| "vfs_call e cur (Call_fh_to_dentry sb raw len type) s =
     through (eo_fh_to_dentry (Uvfs_export_ops (LINUX_VERSION_CODE (kf_kernel e))))
       (\<lambda>f. Some (snd (f (kf_kernel e) cur (kf_dcache e) sb raw len type s))) s"
| "vfs_call e cur (Call_fh_to_parent sb raw len type) s =
     through (eo_fh_to_parent (Uvfs_export_ops (LINUX_VERSION_CODE (kf_kernel e))))
       (\<lambda>f. Some (snd (f (kf_kernel e) cur (kf_dcache e) sb raw len type s))) s"
| "vfs_call e cur (Call_get_dentry sb fh) s =
     through (eo_get_dentry (Uvfs_export_ops (LINUX_VERSION_CODE (kf_kernel e))))
       (\<lambda>f. Some (snd (f (kf_kernel e) cur (kf_dcache e) sb fh s))) s"
| "vfs_call e cur (Call_get_parent child) s =
     through (eo_get_parent (Uvfs_export_ops (LINUX_VERSION_CODE (kf_kernel e))))
       (\<lambda>f. Some (snd (f (kf_kernel e) cur (kf_dcache e) child s))) s"

fun vfs_calls :: "kfuncs \<Rightarrow> (task \<times> call) list \<Rightarrow> vfs \<Rightarrow> vfs option" where
  "vfs_calls e [] s = Some s"
| "vfs_calls e ((cur, c) # cs) s = (case vfs_call e cur c s of None \<Rightarrow> None | Some s' \<Rightarrow> vfs_calls e cs s')"

section \<open>Transactions of the operations on files\<close>

lemma write_runs:
  assumes "length (take (unat count) buff) \<le> PAGE_CACHE_SIZE"
  shows "runs Idle Idle s (snd (uvfs_write cur i buff off count s))"
  unfolding uvfs_write_def Let_def
  using build_wf [of _ "Write (fsuid cur) (fsgid cur) fh off (take (unat count) buff)" for fh] assms
  by (intro runs_transaction) (auto intro!: runs_intros)

lemma writepage_runs:
  assumes "length (pg_data pg) \<le> PAGE_CACHE_SIZE"
  shows "runs Idle Idle s (snd (snd (uvfs_writepage cur pg s)))"
  using assms by (auto simp: uvfs_writepage_def Let_def split_beta intro!: write_runs)

text \<open>One transaction, for operations that return a third value.\<close>

lemma runs_transaction_triple:
  assumes "\<And>s n junk. length junk = sizeof_u \<Longrightarrow> wf_request n (req s n junk)"
    and "\<And>u s. runs Sent Idle s (snd (snd (body u s)))"
  shows "runs Idle Idle s (snd (snd (case vfs_new_transaction s of
       (None, s) \<Rightarrow> (e, x, s)
     | (Some tr, s) \<Rightarrow> (case vfs_make_request (req s) tr s of (u, s) \<Rightarrow> body u s))))"
proof -
  have "runs Idle Idle s (snd (case vfs_new_transaction s of
       (None, s) \<Rightarrow> ((e, x), s)
     | (Some tr, s) \<Rightarrow> (case vfs_make_request (req s) tr s of (u, s) \<Rightarrow>
         (case body u s of (r, y, s) \<Rightarrow> ((r, y), s)))))"
    using assms by (intro runs_transaction) (auto simp: split_beta)
  then show ?thesis by (auto simp: split_beta split: option.split_asm)
qed

lemma readpage_runs: "runs Idle Idle s (snd (snd (uvfs_readpage cur pg s)))"
  unfolding uvfs_readpage_def Let_def
  using build_wf [of _ "Read (fsuid cur) (fsgid cur) fh cnt off" for fh cnt off]
  by (intro runs_transaction_triple) (auto intro!: runs_intros)

lemma commit_write_runs:
  assumes "length (pg_data pg) \<le> PAGE_CACHE_SIZE"
  shows "runs Idle Idle s (snd (snd (uvfs_commit_write cur pg offset to s)))"
proof -
  have "keeps_identity (\<lambda>n. n\<lparr>i_size := pos\<rparr>)" for pos by (simp add: keeps_identity_def)
  with assms show ?thesis
    by (auto simp: uvfs_commit_write_def Let_def split_beta intro!: runs_intros write_runs)
qed

lemma write_end_runs:
  assumes "length (pg_data pg) = PAGE_CACHE_SIZE" and "copied \<le> len"
    and "unat pos mod 4096 + unat len \<le> PAGE_CACHE_SIZE"
  shows "runs Idle Idle s (snd (snd (uvfs_write_end cur pos len copied pg s)))"
proof -
  have "unat (len - copied) = unat len - unat copied" "unat copied \<le> unat len"
    using assms(2) by (simp_all add: unat_sub word_le_nat_alt)
  then show ?thesis
    using assms by (auto simp: uvfs_write_end_def Let_def split_beta unat_page_rest put_bytes_def intro!: commit_write_runs)
qed

text \<open>Replacing an inode by a changed copy of itself.\<close>

lemma runs_upd_self:
  assumes "keeps_identity f"
  shows "runs a a s (upd_inode i (\<lambda>_. f (the_inode i s)) s)"
proof (rule runs_quiet)
  assume ok: "icache_ok (icache s)"
  have "n = the_inode i s" if "(i, n) \<in> set (icache s)" for n
    using that icache_okD(1) [OF ok] by (simp add: the_inode_def)
  then have "upd_cache i (\<lambda>_. f (the_inode i s)) (icache s) = upd_cache i f (icache s)"
    by (auto simp: upd_cache_def)
  then show "icache_ok (icache (upd_inode i (\<lambda>_. f (the_inode i s)) s))"
    using icache_ok_upd [OF ok assms] by simp
qed simp

lemma setattr_runs:
  assumes "\<And>a. keeps_identity (\<lambda>n. snd (setattr a n))"
  shows "runs Idle Idle s (snd (snd (uvfs_setattr cur change_ok setattr i attr s)))"
proof -
  have send: "runs Idle Idle s (snd (snd (case vfs_new_transaction s of
        (None, s) \<Rightarrow> (- ENOMEM, attr, s)
      | (Some tr, s) \<Rightarrow> (case vfs_make_request (\<lambda>n. setattr_request n (fsuid cur) (fsgid cur)
            (i_fh (the_inode i s)) (setattr_args_of attr)) tr s of (u, s) \<Rightarrow> (reply_error u, attr, kfree s)))))" for s attr
    using build_wf [of _ "Setattr (fsuid cur) (fsgid cur) fh (setattr_args_of attr)" for fh]
    by (intro runs_transaction_triple) (auto intro!: runs_intros)
  define a where "a = attr\<lparr>ia_valid := ia_valid attr AND NOT (ATTR_ATIME OR ATTR_MTIME OR ATTR_CTIME)\<rparr>"
  obtain failed n where n: "setattr a (the_inode i s) = (failed, n)" by fastforce
  have "runs Idle Idle s (upd_inode i (\<lambda>_. n) s)"
    using runs_upd_self [OF assms [of a], of Idle s i] n by simp
  then show ?thesis
    using send runs_trans [of Idle Idle s "upd_inode i (\<lambda>_. n) s" Idle]
    unfolding uvfs_setattr_def Let_def a_def [symmetric] n prod.case by simp
qed

section \<open>Sequences of calls\<close>

text \<open>What the kernel's functions and the caller owe: the contract of the inode cache, \<open>inode_setattr\<close> that changes attributes only, pages of the size of a page.\<close>

definition kfuncs_ok :: "kfuncs \<Rightarrow> bool" where
  "kfuncs_ok e \<longleftrightarrow> good_kernel (kf_kernel e) \<and> (\<forall>a. keeps_identity (\<lambda>n. snd (kf_setattr e a n)))"

fun call_ok :: "call \<Rightarrow> bool" where
  "call_ok (Call_writepage pg) = (length (pg_data pg) = PAGE_CACHE_SIZE)"
| "call_ok (Call_commit_write pg offset to) = (length (pg_data pg) = PAGE_CACHE_SIZE)"
| "call_ok (Call_write_end pos len copied pg) =
     (length (pg_data pg) = PAGE_CACHE_SIZE \<and> copied \<le> len \<and> unat pos mod 4096 + unat len \<le> PAGE_CACHE_SIZE)"
| "call_ok _ = True"

text \<open>The operations that walk through a reply with lengths the server wrote.\<close>

fun walks_reply :: "call \<Rightarrow> bool" where
  "walks_reply (Call_readlink entry n mem) = True"
| "walks_reply (Call_follow_link entry nd) = True"
| "walks_reply (Call_readdir i f_pos d) = True"
| "walks_reply _ = False"

lemma through_Some: "through slot f s = Some s' \<Longrightarrow> (\<And>h. slot = Some h \<Longrightarrow> f h = Some s' \<Longrightarrow> runs a a s s') \<Longrightarrow> runs a a s s'"
  by (cases slot) (auto simp: through_def)

lemma unless_wild_Some: "unless_wild r = Some s' \<Longrightarrow> fst r \<noteq> None \<and> s' = snd r"
  by (cases r; cases "fst r") (auto simp: unless_wild_def)

lemma table_simps:
  "io_create (inode_table ops) = Some f \<Longrightarrow> f = uvfs_create"
  "io_lookup (inode_table ops) = Some f1 \<Longrightarrow> f1 = uvfs_lookup"
  "io_unlink (inode_table ops) = Some f2 \<Longrightarrow> f2 = uvfs_unlink"
  "io_symlink (inode_table ops) = Some f3 \<Longrightarrow> f3 = uvfs_symlink"
  "io_mkdir (inode_table ops) = Some f4 \<Longrightarrow> f4 = uvfs_mkdir"
  "io_rmdir (inode_table ops) = Some f5 \<Longrightarrow> f5 = uvfs_rmdir"
  "io_rename (inode_table ops) = Some f6 \<Longrightarrow> f6 = uvfs_rename"
  "io_readlink (inode_table ops) = Some f7 \<Longrightarrow> f7 = uvfs_readlink"
  "io_follow_link (inode_table ops) = Some f8 \<Longrightarrow> f8 = uvfs_follow_link"
  "io_permission (inode_table ops) = Some f9 \<Longrightarrow> f9 = uvfs_permission"
  "io_setattr (inode_table ops) = Some f10 \<Longrightarrow> f10 = uvfs_setattr"
  "io_getattr (inode_table ops) = Some f11 \<Longrightarrow> f11 = uvfs_getattr"
  "fo_read (file_table fops) = Some g1 \<Longrightarrow> g1 = uvfs_file_read"
  "fo_write (file_table fops) = Some g2 \<Longrightarrow> g2 = uvfs_file_write"
  "fo_mmap (file_table fops) = Some g3 \<Longrightarrow> g3 = uvfs_file_mmap"
  "fo_readdir (file_table fops) = Some g4 \<Longrightarrow> g4 = uvfs_readdir"
  "ao_writepage (aops_table v aops) = Some h1 \<Longrightarrow> h1 = uvfs_writepage"
  "ao_readpage (aops_table v aops) = Some h2 \<Longrightarrow> h2 = uvfs_readpage"
  "ao_write_end (aops_table v aops) = Some h3 \<Longrightarrow> h3 = uvfs_write_end"
  "ao_commit_write (aops_table v aops) = Some h4 \<Longrightarrow> h4 = uvfs_commit_write"
  "eo_fh_to_dentry (Uvfs_export_ops v) = Some h5 \<Longrightarrow> h5 = uvfs_fh_to_dentry"
  "eo_fh_to_parent (Uvfs_export_ops v) = Some h6 \<Longrightarrow> h6 = uvfs_fh_to_parent"
  "eo_get_dentry (Uvfs_export_ops v) = Some h7 \<Longrightarrow> h7 = uvfs_get_dentry"
  "eo_get_parent (Uvfs_export_ops v) = Some h8 \<Longrightarrow> h8 = uvfs_get_parent"
  by (simp add: Uvfs_export_ops_def split: if_splits; fail | cases ops; simp add: no_inode_operations_def; fail | cases fops; simp; fail | cases aops; simp split: if_splits; fail)+

lemma getattr_runs: "good_kernel k \<Longrightarrow> runs Idle Idle s (snd (snd (uvfs_getattr k cur fillattr i s)))"
  using revalidate.op_runs [of k s cur i] by (simp add: uvfs_getattr_def split_beta)

lemma entry_runs:
  assumes "good_kernel k"
  shows "runs Idle Idle s (snd (uvfs_file_read k cur (Pair 0) i s))"
    "runs Idle Idle s (snd (uvfs_file_write k cur (Pair 0) i s))"
    "runs Idle Idle s (snd (uvfs_file_mmap k cur (Pair 0) i s))"
  using revalidate.op_runs [OF assms, of s cur i]
  by (simp_all add: uvfs_file_read_def uvfs_file_write_def uvfs_file_mmap_def split_beta)

lemma statfs_runs: "runs Idle Idle s (snd (snd (uvfs_statfs i st s)))"
  using statfs.op_runs [OF plain_good, of s i st] by (simp add: split_beta)

lemmas operation_runs =
  create.op_runs lookup.op_runs unlink.op_runs symlink.op_runs mkdir.op_runs rmdir.op_runs rename.op_runs
  permission.op_runs dentry_revalidate.op_runs fh_to_dentry.op_runs fh_to_parent.op_runs get_dentry.op_runs get_parent.op_runs
  readlink_runs follow_link_runs readdir_runs getattr_runs entry_runs statfs_runs read_super_runs
  writepage_runs readpage_runs commit_write_runs write_end_runs setattr_runs

lemma call_runs:
  assumes "kfuncs_ok e" and "call_ok c" and "vfs_call e cur c s = Some s'"
  shows "runs Idle Idle s s'"
proof -
  have k: "good_kernel (kf_kernel e)" and a: "\<And>a. keeps_identity (\<lambda>n. snd (kf_setattr e a n))"
    using assms(1) by (simp_all add: kfuncs_ok_def)
  show ?thesis
    using assms(2,3)
    by (cases c) (auto elim!: through_Some dest!: table_simps unless_wild_Some intro!: operation_runs k a)
qed

lemma calls_runs:
  assumes "kfuncs_ok e" and "\<forall>(cur, c) \<in> set cs. call_ok c" and "vfs_calls e cs s = Some s'"
  shows "runs Idle Idle s s'"
  using assms(2,3)
proof (induction cs arbitrary: s)
  case (Cons x cs)
  obtain cur c where x: "x = (cur, c)" by fastforce
  with Cons.prems obtain s1 where "vfs_call e cur c s = Some s1" "vfs_calls e cs s1 = Some s'"
    by (auto split: option.splits)
  with Cons x show ?case by (auto intro: runs_trans [of Idle Idle s s1] call_runs [OF assms(1)])
qed simp

lemma call_returns: "\<not> walks_reply c \<Longrightarrow> vfs_call e cur c s \<noteq> None"
  by (cases c) (simp_all add: through_def split: option.split)

lemma calls_return: "\<forall>(cur, c) \<in> set cs. \<not> walks_reply c \<Longrightarrow> vfs_calls e cs s \<noteq> None"
proof (induction cs arbitrary: s)
  case (Cons x cs)
  obtain cur c where x: "x = (cur, c)" by fastforce
  with Cons.prems obtain s1 where "vfs_call e cur c s = Some s1" using call_returns [of c e cur s] by auto
  with Cons x show ?case by auto
qed simp

section \<open>Dispatch by file type\<close>

lemma iget_new_inode:
  assumes "good_kernel k" and "uvfs_iget k cur sb fh a s = (Some i, s')" and "\<not> in_cache i s"
  obtains n where "the_inode i s' = set_operations (set_attributes (LINUX_VERSION_CODE k) cur a n)"
proof -
  let ?test = "\<lambda>n. uvfs_compare_inode n fh"
  obtain r C where get: "iget5_locked k sb (sfuid_hash fh) ?test (uvfs_init_inode fh) (icache s) = (r, C)"
    by fastforce
  have con: "iget5_allowed sb (sfuid_hash fh) ?test (uvfs_init_inode fh) (icache s) (r, C)"
    using assms(1) unfolding good_kernel_def iget5_contract_def get [symmetric] by blast
  note iget = uvfs_iget_def sfuid_hash_def [symmetric] get Let_def
  consider "r = None" | j where "r = Some (j, False)" | j where "r = Some (j, True)"
    by (cases r) auto
  then show thesis
  proof cases
    case (2 j)
    with con assms(2,3) show ?thesis
      by (auto simp: iget cached_def in_cache_def dest!: map_of_cached)
  next
    case (3 j)
    define s1 where "s1 = s\<lparr>icache := C\<rparr>"
    from 3 con have "in_cache j s1" by (auto simp: s1_def in_cache_def)
    then have "the_inode i s' = set_operations (set_attributes (LINUX_VERSION_CODE k) cur a
        ((the_inode i s1)\<lparr>i_ino := sfuid_hash fh, i_flags := i_flags (the_inode i s1) OR S_NOATIME OR S_NOCMTIME\<rparr>))"
      using 3 assms(2) by (auto simp: iget s1_def [symmetric] the_inode_upd)
    then show ?thesis by (rule that)
  qed (use assms(2) in \<open>simp add: iget\<close>)
qed

lemma mode_set_attributes [simp]: "i_mode (set_attributes v cur a n) = ucast (a_mode a)"
  by (simp add: set_attributes_def Let_def)

lemma type_distinct: "S_ISREG m \<Longrightarrow> \<not> S_ISDIR m" "S_ISREG m \<Longrightarrow> \<not> S_ISLNK m" "S_ISDIR m \<Longrightarrow> \<not> S_ISLNK m"
  by (auto simp: S_ISREG_def S_ISDIR_def S_ISLNK_def S_IFREG_def S_IFDIR_def S_IFLNK_def)

section \<open>Properties\<close>



text \<open>
  The tables of an inode are chosen once: when the server later reports another file type,
  the inode shows the new mode and keeps the operations of the old one. An inode that became a
  directory still offers the operations of a file.
\<close>

theorem refresh_keeps_operations:
  assumes "in_cache i s"
  shows "i_op (the_inode j (uvfs_refresh_inode k cur i a s)) = i_op (the_inode j s)
    \<and> i_fop (the_inode j (uvfs_refresh_inode k cur i a s)) = i_fop (the_inode j s)
    \<and> i_aops (the_inode j (uvfs_refresh_inode k cur i a s)) = i_aops (the_inode j s)
    \<and> i_mode (the_inode i (uvfs_refresh_inode k cur i a s)) = ucast (a_mode a)"
  using assms by (simp add: refresh_inode set_attributes_def Let_def)

theorem refresh_keeps_operations_witness:
  "i_op (the_inode 7 (uvfs_refresh_inode plain_kernel root_task 7 ((dec_attr [])\<lparr>a_mode := 0x41ED\<rparr>) (one_inode [])))
     = No_inode_operations"
  using refresh_keeps_operations [of 7 "one_inode []" 7 plain_kernel root_task "(dec_attr [])\<lparr>a_mode := 0x41ED\<rparr>"]
  by (simp add: blank_inode_def)

end
