(* ===== verification/Uvfs_Wakeup.thy ===== *)
theory Uvfs_Wakeup
  imports Uvfs_Runs
begin

text \<open>
  Whether a request can go unnoticed. Server threads sleep in \<open>uvfsd_read\<close> on an exclusive wait
  queue: a wake-up reaches one of them. A comment in \<open>uvfsd_read\<close> doubts that every request is
  answered. Shown here: as long as no sleeping server thread is interrupted, a request (or a
  shutdown) that waits while threads sleep has a thread on its way to it; and an interrupt at
  the wrong moment loses the wake-up.
\<close>

section \<open>Invariant\<close>

fun patient :: "sys \<Rightarrow> label \<Rightarrow> bool" where
  "patient s (L_interrupt r) = False"
| "patient s l = True"

definition sleeping :: "sys \<Rightarrow> sid \<Rightarrow> bool" where
  "sleeping s r \<longleftrightarrow> (\<exists>f. spc s r = S_sleep f)"

definition reporting :: "sys \<Rightarrow> bool" where
  "reporting s \<longleftrightarrow> (\<exists>r f. spc s r = S_shut f)"

definition woken :: "(sid \<times> bool) list \<Rightarrow> bool" where
  "woken q \<longleftrightarrow> (\<exists>r. (r, True) \<in> set q)"

definition wake_inv :: "sys \<Rightarrow> bool" where
  "wake_inv s \<longleftrightarrow> file_inv s
   \<and> distinct (map fst (Uvfs_driver_queue (drv s)))
   \<and> (\<forall>r. r \<in> fst ` set (Uvfs_driver_queue (drv s)) \<longleftrightarrow> sleeping s r)
   \<and> (reporting s \<longrightarrow> ShuttingDown (drv s))
   \<and> (Uvfs_requests (drv s) \<noteq> [] \<or> ShuttingDown (drv s) \<longrightarrow> Uvfs_driver_queue (drv s) \<noteq> [] \<longrightarrow>
        woken (Uvfs_driver_queue (drv s)) \<or> reporting s)"

lemma reporting_upd:
  assumes "\<And>f. spc s r \<noteq> S_shut f"
  shows "reporting (s\<lparr>drv := d, spc := (spc s)(r := pc)\<rparr>) \<longleftrightarrow> (\<exists>f. pc = S_shut f) \<or> reporting s"
  unfolding reporting_def using assms by (auto, metis)

lemma sleeping_upd:
  "sleeping (s\<lparr>drv := d, spc := (spc s)(r := pc)\<rparr>) r' \<longleftrightarrow>
   (if r' = r then \<exists>f. pc = S_sleep f else sleeping s r')"
  by (simp add: sleeping_def)

lemma woken_wake_first [simp]: "q \<noteq> [] \<Longrightarrow> woken (wake_first q)"
  unfolding woken_def by (induction q rule: wake_first.induct) auto

lemma wake_first_Nil [simp]: "wake_first q = [] \<longleftrightarrow> q = []"
  by (cases q rule: wake_first.cases) auto

lemma wake_invD:
  assumes "wake_inv s"
  shows "file_inv s" "distinct (map fst (Uvfs_driver_queue (drv s)))"
    and "r \<in> fst ` set (Uvfs_driver_queue (drv s)) \<longleftrightarrow> sleeping s r"
    and "reporting s \<Longrightarrow> ShuttingDown (drv s)"
    and "Uvfs_requests (drv s) \<noteq> [] \<or> ShuttingDown (drv s) \<Longrightarrow> Uvfs_driver_queue (drv s) \<noteq> [] \<Longrightarrow>
      woken (Uvfs_driver_queue (drv s)) \<or> reporting s"
  using assms by (auto simp: wake_inv_def)

lemma wake_inv_init: "init_sys s \<Longrightarrow> wake_inv s"
  using file_inv_init by (auto simp: wake_inv_def init_sys_def init_driver_def sleeping_def reporting_def)

text \<open>Steps that keep every server thread where it is with respect to the wait queue.\<close>

lemma wake_inv_same:
  assumes "wake_inv s" and "file_inv s'" and "Uvfs_driver_queue (drv s') = Uvfs_driver_queue (drv s)"
    and "ShuttingDown (drv s') = ShuttingDown (drv s)"
    and "Uvfs_requests (drv s') \<noteq> [] \<Longrightarrow> Uvfs_requests (drv s) \<noteq> []"
    and "\<And>r. sleeping s' r = sleeping s r" and "reporting s' = reporting s"
  shows "wake_inv s'"
  using assms unfolding wake_inv_def by auto

lemma wake_inv_woken:
  assumes "wake_inv s" and "file_inv s'" and "Uvfs_driver_queue (drv s') = wake_first (Uvfs_driver_queue (drv s))"
    and "\<And>r. sleeping s' r = sleeping s r" and "reporting s' \<Longrightarrow> ShuttingDown (drv s')"
  shows "wake_inv s'"
  using wake_invD [OF assms(1)] assms(2-5) unfolding wake_inv_def by auto

text \<open>One pass through the loop of \<open>uvfsd_read\<close>; the thread is not in the queue of \<open>d\<close>.\<close>

lemma wake_inv_loop:
  assumes wi: "wake_inv s" and fi: "file_inv (s\<lparr>drv := snd (uvfsd_read_loop r d), spc := (spc s)(r := read_pc f (fst (uvfsd_read_loop r d)))\<rparr>)"
      (is "file_inv ?s'")
    and d: "Uvfs_driver_queue d = filter (\<lambda>(r', _). r' \<noteq> r) (Uvfs_driver_queue (drv s))"
      "ShuttingDown d = ShuttingDown (drv s)" and r: "\<And>g. spc s r \<noteq> S_shut g"
  shows "wake_inv ?s'"
proof -
  note inv = wake_invD [OF wi]
  have dist: "distinct (map fst (Uvfs_driver_queue d))"
    using inv(2) unfolding d(1) by (rule distinct_map_filter)
  have others: "r' \<in> fst ` set (Uvfs_driver_queue d) \<longleftrightarrow> r' \<noteq> r \<and> sleeping s r'" for r'
    unfolding inv(3) [symmetric] d(1) by force
  show ?thesis
  proof (cases rule: read_loop_cases [of d r])
    case shutdown
    then show ?thesis unfolding wake_inv_def using fi dist others d by (auto simp: sleeping_upd reporting_upd r)
  next
    case sleep
    then show ?thesis unfolding wake_inv_def using fi dist others d inv(4) by (auto simp: sleeping_upd reporting_upd r)
  next
    case (take t ts d')
    have "ShuttingDown d' = ShuttingDown d" using take read_loop_frame(3) [of r d] by simp
    with take show ?thesis unfolding wake_inv_def using fi dist others d inv(4) by (auto simp: sleeping_upd reporting_upd r)
  qed
qed

lemma write_pc_cases: "write_pc f n found \<noteq> S_sleep g" "write_pc f n found \<noteq> S_shut g"
  by (cases found; simp)+

lemma not_queued: "wake_inv s \<Longrightarrow> spc s r = S_user \<Longrightarrow>
    filter (\<lambda>(r', _). r' \<noteq> r) (Uvfs_driver_queue (drv s)) = Uvfs_driver_queue (drv s)"
  using wake_invD(3) [of s r] by (force simp: filter_id_conv sleeping_def)

lemma wake_inv_release:
  assumes "step s (L_release f) s'" and "wake_inv s" and "file_inv s'"
  shows "wake_inv s'"
  using assms(1)
proof (rule step_releaseE)
  assume s': "s' = s\<lparr>drv := snd (uvfsd_release (drv s)), open_files := open_files s - {f}\<rparr>"
    and f: "f \<in> open_files s" "\<And>r. sfile (spc s r) \<noteq> Some f"
  note inv = wake_invD [OF assms(2)]
  have idle: "\<not> sleeping s r" "\<not> reporting s" if "uvfs_use_count (drv s) = 1" for r
    using last_close_idle [OF inv(1) f that] by (auto simp: sleeping_def reporting_def)
  show ?thesis
  proof (cases "uvfs_use_count (drv s) = 1")
    case True
    then have "Uvfs_driver_queue (drv s) = []"
      using inv(3) idle(1) by (metis image_is_empty set_empty ex_in_conv)
    with True assms(3) idle show ?thesis
      by (auto simp: s' wake_inv_def sleeping_def reporting_def)
  next
    case False
    with assms(2,3) show ?thesis
      unfolding s' by - (rule wake_inv_same [of s], auto simp: sleeping_def reporting_def)
  qed
qed

text \<open>The steps that wake one sleeper: a request, the shutdown and its report.\<close>

lemma wake_inv_waking:
  assumes "wake_inv s" and "file_inv s'"
  shows "step s (L_submit c) s' \<Longrightarrow> wake_inv s'" and "step s L_shutdown s' \<Longrightarrow> wake_inv s'"
    and "step s (L_shut r) s' \<Longrightarrow> wake_inv s'"
proof -
  note inv = wake_invD(4) [OF assms(1)]
  show "step s (L_submit c) s' \<Longrightarrow> wake_inv s'"
    using assms inv by (elim step_submitE, cases "uvfs_use_count (drv s) = 0")
      (rule wake_inv_same [of s] wake_inv_woken [of s], auto simp: sleeping_def reporting_def)+
  show "step s L_shutdown s' \<Longrightarrow> wake_inv s'"
    using assms by (elim step_shutdownE) (rule wake_inv_woken [of s], auto simp: sleeping_def)
  show "step s (L_shut r) s' \<Longrightarrow> wake_inv s'"
    using assms inv by (elim step_shutE)
      (rule wake_inv_woken [of s], auto simp: sleeping_def reporting_def split: if_splits)
qed

lemma wake_inv_reading:
  assumes "wake_inv s" and "file_inv s'"
  shows "step s (L_read r f) s' \<Longrightarrow> wake_inv s'" and "step s (L_resume r) s' \<Longrightarrow> wake_inv s'"
  using assms not_queued [OF assms(1), of r]
  by (auto elim!: step_readE step_resumeE intro!: wake_inv_loop simp: uvfsd_read_woken_def)

text \<open>The others leave the wait queue alone.\<close>

lemma wake_inv_client:
  assumes "wake_inv s" and "file_inv s'"
  shows "step s (L_new c u) s' \<Longrightarrow> wake_inv s'" and "step s (L_fill c u) s' \<Longrightarrow> wake_inv s'"
    and "step s (L_signal c) s' \<Longrightarrow> wake_inv s'" and "step s (L_wake c) s' \<Longrightarrow> wake_inv s'"
    and "step s (L_check c) s' \<Longrightarrow> wake_inv s'" and "step s (L_unused c) s' \<Longrightarrow> wake_inv s'"
    and "step s (L_cancel c) s' \<Longrightarrow> wake_inv s'" and "step s (L_free c u) s' \<Longrightarrow> wake_inv s'"
    and "step s (L_open f) s' \<Longrightarrow> wake_inv s'"
  using assms
  by (elim step_newE step_fillE step_signalE step_wakeE step_checkE step_unusedE step_cancelE step_freeE step_openE,
      intro wake_inv_same [OF assms]; auto simp: sleeping_def reporting_def check_cases split: if_splits)+

lemma wake_inv_server:
  assumes "wake_inv s" and "file_inv s'"
  shows "step s (L_write r f count h) s' \<Longrightarrow> wake_inv s'" and "step s (L_written r data) s' \<Longrightarrow> wake_inv s'"
    and "step s (L_copied r data) s' \<Longrightarrow> wake_inv s'" and "step s (L_return r n) s' \<Longrightarrow> wake_inv s'"
  using assms
  by (elim step_writeE step_writtenE step_copiedE step_returnE, intro wake_inv_same [OF assms];
      auto simp: sleeping_def reporting_upd write_pc_cases split: if_splits)+

lemmas wake_inv_steps = wake_inv_release wake_inv_waking wake_inv_reading wake_inv_client wake_inv_server

lemma wake_inv_step:
  assumes "step s l s'" and "wake_inv s" and "patient s l"
  shows "wake_inv s'"
proof -
  have "file_inv s'" using assms file_inv_step wake_invD(1) by blast
  with assms show ?thesis by (cases l) (auto intro: wake_inv_steps)
qed

interpretation wakeups: invariant_system init_sys step patient wake_inv
  by unfold_locales (auto intro: wake_inv_init wake_inv_step)

lemma woken_sleeps:
  assumes "wake_inv s" and "woken (Uvfs_driver_queue (drv s))"
  obtains r f where "spc s r = S_sleep f" and "(r, True) \<in> set (Uvfs_driver_queue (drv s))"
proof -
  from assms(2) obtain r where r: "(r, True) \<in> set (Uvfs_driver_queue (drv s))" by (auto simp: woken_def)
  then have "r \<in> fst ` set (Uvfs_driver_queue (drv s))" by force
  then obtain f where "spc s r = S_sleep f" using wake_invD(3) [OF assms(1)] by (auto simp: sleeping_def)
  with r that show ?thesis by blast
qed

text \<open>What a woken thread does when it runs.\<close>

lemma resume_outcome:
  assumes "spc s r = S_sleep f"
  shows "ShuttingDown (drv s) \<Longrightarrow> spc (exec s (L_resume r)) r = S_shut f"
    and "\<not> ShuttingDown (drv s) \<Longrightarrow> Uvfs_requests (drv s) \<noteq> [] \<Longrightarrow>
      spc (exec s (L_resume r)) r = S_read f (hd (Uvfs_requests (drv s)))"
  using assms by (simp_all add: the_defs uvfsd_read_woken_def uvfsd_read_loop_def Let_def split: list.splits)

section \<open>Runs\<close>

text \<open>Two server threads sleep; a request arrives and wakes the first of them.\<close>

definition asleep_run :: "label list" where
  "asleep_run = [L_open 0, L_read 0 0, L_read 1 0, L_new 0 (replicate sizeof_u 0), L_fill 0 demo_request,
     L_submit 0]"

text \<open>The thread that was woken is interrupted and returns \<open>ERESTARTSYS\<close>.\<close>

definition lost_run :: "label list" where
  "lost_run = asleep_run @ [L_interrupt 0]"

lemma asleep_run_ok: "admitted patient start asleep_run"
  by (simp add: asleep_run_def run_simps)

lemma asleep_run_end:
  "Uvfs_requests (drv (foldl exec start asleep_run)) = [0]"
  "\<not> ShuttingDown (drv (foldl exec start asleep_run))"
  "sleeping (foldl exec start asleep_run) 1"
  by (simp_all add: asleep_run_def run_simps sleeping_def)

lemma lost_run_ok: "admitted anything start lost_run"
  by (simp add: lost_run_def asleep_run_def run_simps)

lemma lost_run_end:
  "Uvfs_requests (drv (foldl exec start lost_run)) = [0]"
  "\<not> ShuttingDown (drv (foldl exec start lost_run))"
  "sleeping (foldl exec start lost_run) 1"
  "\<not> enabled (foldl exec start lost_run) (L_resume r)"
  "\<not> enabled (foldl exec start lost_run) (L_shut r)"
  "\<not> enabled (foldl exec start lost_run) (L_copied r bs)"
  "\<not> enabled (foldl exec start lost_run) (L_return r n)"
  by (simp_all add: lost_run_def asleep_run_def run_simps sleeping_def)

section \<open>Properties\<close>

text \<open>
  C8. No wake-up is lost as long as no sleeping server thread is interrupted: in every
  reachable state in which a server thread sleeps, if a request waits, then some sleeping thread
  has been woken and, when it runs next, takes the oldest request; if the driver is shutting
  down, then some thread has been woken and goes on to report the shutdown, or is reporting it
  already (and wakes the next one when it has).
\<close>

theorem no_lost_request:
  assumes "reachable patient s" and "sleeping s r"
  shows "(Uvfs_requests (drv s) \<noteq> [] \<and> \<not> ShuttingDown (drv s) \<longrightarrow>
      (\<exists>r' f. enabled s (L_resume r') \<and> spc (exec s (L_resume r')) r' = S_read f (hd (Uvfs_requests (drv s)))))
    \<and> (ShuttingDown (drv s) \<longrightarrow> (\<exists>r' f. enabled s (L_resume r') \<and> spc (exec s (L_resume r')) r' = S_shut f)
      \<or> (\<exists>r'. enabled s (L_shut r')))"
proof -
  have wi: "wake_inv s" using assms(1) by (rule wakeups.inv_reach)
  have queued: "Uvfs_driver_queue (drv s) \<noteq> []" using assms(2) wake_invD(3) [OF wi, of r] by auto
  have woken: "woken (Uvfs_driver_queue (drv s)) \<or> reporting s"
    if "Uvfs_requests (drv s) \<noteq> [] \<or> ShuttingDown (drv s)" using wake_invD(5) [OF wi that queued] .
  show ?thesis
  proof (intro conjI impI)
    assume busy: "Uvfs_requests (drv s) \<noteq> [] \<and> \<not> ShuttingDown (drv s)"
    then have "woken (Uvfs_driver_queue (drv s))" using woken wake_invD(4) [OF wi] by blast
    then obtain r' f where "spc s r' = S_sleep f" "(r', True) \<in> set (Uvfs_driver_queue (drv s))"
      using woken_sleeps [OF wi] by blast
    with busy show "\<exists>r' f. enabled s (L_resume r') \<and> spc (exec s (L_resume r')) r' = S_read f (hd (Uvfs_requests (drv s)))"
      using resume_outcome(2) by (intro exI [of _ r'] exI [of _ f]) (simp del: exec.simps)
  next
    assume down: "ShuttingDown (drv s)"
    show "(\<exists>r' f. enabled s (L_resume r') \<and> spc (exec s (L_resume r')) r' = S_shut f) \<or> (\<exists>r'. enabled s (L_shut r'))"
    proof (cases "reporting s")
      case True
      then obtain r' f where "spc s r' = S_shut f" by (auto simp: reporting_def)
      then have "enabled s (L_shut r')" by simp
      then show ?thesis by blast
    next
      case False
      with down woken obtain r' f where "spc s r' = S_sleep f" "(r', True) \<in> set (Uvfs_driver_queue (drv s))"
        using woken_sleeps [OF wi] by blast
      with down have "enabled s (L_resume r') \<and> spc (exec s (L_resume r')) r' = S_shut f"
        using resume_outcome(1) by (simp del: exec.simps)
      then show ?thesis by blast
    qed
  qed
qed

theorem no_lost_request_witness:
  "\<exists>r' f. enabled (foldl exec start asleep_run) (L_resume r')
     \<and> spc (exec (foldl exec start asleep_run) (L_resume r')) r' = S_read f 0"
  using no_lost_request [OF start_reachable [OF asleep_run_ok] asleep_run_end(3)] asleep_run_end(1,2)
  by (simp del: exec.simps enabled.simps)

text \<open>
  C40. An interrupt loses the wake-up it meets: with two threads asleep, a request wakes the
  first of them, and if that one has a signal pending it returns \<open>ERESTARTSYS\<close> without waking
  another. The request then waits, the second thread sleeps, and no server thread in the driver
  can take a step.
\<close>

theorem lost_wakeup:
  "\<exists>s. reachable anything s \<and> Uvfs_requests (drv s) = [0] \<and> \<not> ShuttingDown (drv s) \<and> sleeping s 1
     \<and> (\<forall>r bs n. \<not> enabled s (L_resume r) \<and> \<not> enabled s (L_shut r) \<and> \<not> enabled s (L_copied r bs)
          \<and> \<not> enabled s (L_return r n))"
  using lost_run_end start_reachable [OF lost_run_ok] by blast

end
