(* ===== verification/Uvfs_Mailbox.thy ===== *)
theory Uvfs_Mailbox
  imports Uvfs_Runs "HOL-Library.Sublist"
begin

text \<open>
  The driver as a mailbox. What the two lists of the driver promise its clients, stated without
  threads, locks or memory: requests are posted, taken in turn, answered once, withdrawn, or all
  thrown out when the last server leaves. The interleaved driver is shown to refine this
  mailbox step by step, and the order in which requests reach the servers follows from it.
\<close>

section \<open>Mailbox\<close>

record 'a mailbox =
  waiting :: "'a list"   \<comment> \<open>posted, not yet taken\<close>
  handed :: "'a set"     \<comment> \<open>taken, not yet answered\<close>

datatype 'a mail_op = Post 'a | Take 'a | Answer 'a | Withdraw 'a | Flush | Skip

fun mail :: "'a mail_op \<Rightarrow> 'a mailbox \<Rightarrow> 'a mailbox option" where
  "mail (Post t) b = (if t \<in> set (waiting b) \<union> handed b then None else Some (b\<lparr>waiting := waiting b @ [t]\<rparr>))"
| "mail (Take t) b = (case waiting b of [] \<Rightarrow> None
     | t' # ts \<Rightarrow> if t = t' then Some (b\<lparr>waiting := ts, handed := insert t (handed b)\<rparr>) else None)"
| "mail (Answer t) b = (if t \<in> handed b then Some (b\<lparr>handed := handed b - {t}\<rparr>) else None)"
| "mail (Withdraw t) b = Some (b\<lparr>waiting := removeAll t (waiting b), handed := handed b - {t}\<rparr>)"
| "mail Flush b = Some (b\<lparr>waiting := [], handed := {}\<rparr>)"
| "mail Skip b = Some b"

definition empty_mailbox :: "'a mailbox" where
  "empty_mailbox = \<lparr>waiting = [], handed = {}\<rparr>"

fun posts :: "'a mail_op list \<Rightarrow> 'a list" where
  "posts [] = []"
| "posts (Post t # os) = t # posts os"
| "posts (_ # os) = posts os"

fun takes :: "'a mail_op list \<Rightarrow> 'a list" where
  "takes [] = []"
| "takes (Take t # os) = t # takes os"
| "takes (_ # os) = takes os"

fun answers :: "'a mail_op list \<Rightarrow> 'a list" where
  "answers [] = []"
| "answers (Answer t # os) = t # answers os"
| "answers (_ # os) = answers os"

lemma posts_append [simp]: "posts (os @ os') = posts os @ posts os'"
  by (induction os rule: posts.induct) auto

lemma subseq_distinct: "subseq xs ys \<Longrightarrow> distinct ys \<Longrightarrow> distinct xs"
  by (induction rule: list_emb.induct) (auto dest: list_emb_set)

text \<open>Requests are taken in the order they were posted.\<close>

lemma replay_order: "replay mail os b = Some b' \<Longrightarrow> subseq (takes os @ waiting b') (waiting b @ posts os)"
proof (induction os arbitrary: b)
  case (Cons x os)
  then obtain b1 where b1: "mail x b = Some b1" "subseq (takes os @ waiting b') (waiting b1 @ posts os)"
    by (auto split: option.splits)
  show ?case
  proof (cases x)
    case (Withdraw t)
    have "subseq (removeAll t (waiting b) @ posts os) (waiting b @ posts os)"
      by (simp add: subseq_append removeAll_filter_not_eq)
    from subseq_order.trans [OF _ this] b1 Withdraw show ?thesis by fastforce
  next
    case Flush
    with b1 show ?thesis by (auto intro: list_emb_append2)
  qed (use b1 in \<open>auto split: if_splits list.splits\<close>)
qed simp

text \<open>Only a withdrawal or a flush takes a request out of the order.\<close>

lemma replay_exact:
  assumes "replay mail os b = Some b'" and "Flush \<notin> set os" and "\<And>t. P t \<Longrightarrow> Withdraw t \<notin> set os"
  shows "filter P (takes os @ waiting b') = filter P (waiting b @ posts os)"
  using assms
proof (induction os arbitrary: b)
  case (Cons x os)
  then obtain b1 where b1: "mail x b = Some b1" "filter P (takes os @ waiting b') = filter P (waiting b1 @ posts os)"
    by (auto split: option.splits)
  show ?case
  proof (cases x)
    case (Withdraw t)
    with Cons.prems have "filter P (removeAll t (waiting b)) = filter P (waiting b)"
      by (auto simp: removeAll_filter_not_eq intro!: filter_cong)
    with b1 Withdraw show ?thesis by auto
  qed (use b1 Cons.prems in \<open>auto split: if_splits list.splits\<close>)
qed simp

text \<open>A request is answered at most once, and only after it was taken.\<close>

lemma replay_answers:
  assumes "replay mail os b = Some b'" and "distinct (waiting b @ posts os)"
    and "handed b \<inter> set (waiting b @ posts os) = {}"
  shows "distinct (answers os) \<and> set (answers os) \<subseteq> handed b \<union> set (takes os)"
  using assms
proof (induction os arbitrary: b)
  case (Cons x os)
  then obtain b1 where b1: "mail x b = Some b1" and rest: "replay mail os b1 = Some b'"
    by (auto split: option.splits)
  note fresh = Cons.prems(2,3)
  from b1 fresh have "distinct (waiting b1 @ posts os)"
    by (cases x) (auto simp: removeAll_filter_not_eq split: if_splits list.splits)
  moreover from b1 fresh have "handed b1 \<inter> set (waiting b1 @ posts os) = {}"
    by (cases x) (auto split: if_splits list.splits)
  ultimately have ih: "distinct (answers os)" "set (answers os) \<subseteq> handed b1 \<union> set (takes os)"
    using Cons.IH [OF rest] by blast+
  have "set (takes os) \<subseteq> set (waiting b1 @ posts os)"
    using replay_order [OF rest] by (auto dest: list_emb_set)
  moreover have "x = Answer t \<Longrightarrow> waiting b1 = waiting b" for t
    using b1 by (auto split: if_splits)
  ultimately have "t \<in> handed b \<Longrightarrow> x = Answer t \<Longrightarrow> t \<notin> set (takes os)" for t
    using fresh(2) by (force simp: disjoint_iff)
  with ih b1 show ?case
    by (cases x) (auto split: if_splits list.splits)
qed simp

section \<open>The driver as a mailbox\<close>

definition mbox :: "sys \<Rightarrow> tid mailbox" where
  "mbox s = \<lparr>waiting = Uvfs_requests (drv s), handed = set (Uvfs_replies (drv s))\<rparr>"

fun read_op :: "read_next \<Rightarrow> tid mail_op" where
  "read_op (Read_take t) = Take t"
| "read_op _ = Skip"

fun write_op :: "tid option \<Rightarrow> tid mail_op" where
  "write_op (Some t) = Answer t"
| "write_op None = Skip"

text \<open>The operation of the mailbox that a step of the driver performs.\<close>

fun mail_of :: "sys \<Rightarrow> label \<Rightarrow> tid mail_op" where
  "mail_of s (L_submit c) = (if uvfs_use_count (drv s) = 0 then Skip else Post (the_tid s c))"
| "mail_of s (L_release f) = (if uvfs_use_count (drv s) = 1 then Flush else Skip)"
| "mail_of s (L_check c) =
     (if csig s c \<and> \<not> t_in_use (the_trans (drv s) (the_tid s c)) then Withdraw (the_tid s c) else Skip)"
| "mail_of s (L_cancel c) = Withdraw (the_tid s c)"
| "mail_of s (L_read r f) = read_op (fst (uvfsd_read_loop r (drv s)))"
| "mail_of s (L_resume r) = read_op (fst (uvfsd_read_loop r (uvfsd_read_woken r (drv s))))"
| "mail_of s (L_write r f count h) =
     write_op (fst (uvfsd_write_lookup (get32 (offsetof uvfs_generic_rep_s ''serial'') h) (drv s)))"
| "mail_of s l = Skip"

lemma mail_read:
  assumes "Uvfs_requests d = Uvfs_requests (drv s)" "Uvfs_replies d = Uvfs_replies (drv s)"
  shows "mail (read_op (fst (uvfsd_read_loop r d))) (mbox s) =
    Some (mbox (s\<lparr>drv := snd (uvfsd_read_loop r d), spc := pcs\<rparr>))"
  by (cases rule: read_loop_cases [of d r]) (use assms in \<open>auto simp: mbox_def\<close>)

lemma mail_write:
  assumes "queue_inv s"
  shows "mail (write_op (fst (uvfsd_write_lookup n (drv s)))) (mbox s) =
    Some (mbox (s\<lparr>drv := snd (uvfsd_write_lookup n (drv s)), spc := pcs\<rparr>))"
  using queue_distinct [OF assms]
  by (cases rule: write_lookup_cases [of n "drv s"]) (auto simp: mbox_def)

lemma mail_cancel:
  assumes "queue_inv s"
  shows "mail (Withdraw t) (mbox s) = Some (mbox (s\<lparr>drv := make_request_cancel t (drv s), cpc := pcs\<rparr>))"
  using queue_distinct [OF assms] by (simp add: mbox_def distinct_remove1_removeAll)

lemma mail_submit:
  assumes "queue_inv s" and "cpc s c = C_built t"
  shows "mail (if uvfs_use_count (drv s) = 0 then Skip else Post t) (mbox s) =
    Some (mbox (s\<lparr>drv := snd (make_request_submit t (drv s)), cpc := pcs\<rparr>))"
  using not_listed [OF assms(1), of c t] assms(2) by (simp add: mbox_def listed_def)

lemma mail_step: "step s l s' \<Longrightarrow> queue_inv s \<Longrightarrow> mail (mail_of s l) (mbox s) = Some (mbox s')"
proof (induction rule: step.induct)
  case (fs_submit s c t)
  then show ?case using mail_submit [OF fs_submit.prems fs_submit.hyps] by (simp add: the_defs)
next
  case (fs_check s c t)
  then show ?case using mail_cancel [of s t] by (simp add: the_defs check_cases) (simp add: mbox_def)
next
  case (fs_cancel s c t)
  then show ?case using mail_cancel [of s t] by (simp add: the_defs)
next
  case (sv_read s r f)
  then show ?case by (simp add: mail_read)
next
  case (sv_resume s r f d)
  then show ?case by (simp add: mail_read)
next
  case (sv_write s r f count h n)
  then show ?case by (simp add: mail_write)
qed (simp_all add: mbox_def)

interpretation box: refinement init_sys step ok queue_inv mbox mail_of mail empty_mailbox for ok
  by unfold_locales
    (auto simp: mail_step, simp add: mbox_def empty_mailbox_def init_sys_def init_driver_def)

text \<open>A transaction is posted once: a thread that has submitted it never does so again.\<close>

definition spent :: "sys \<Rightarrow> tid \<Rightarrow> bool" where
  "spent s t \<longleftrightarrow> t < next_tid (drv s) \<and> cpc s (owner s t) \<noteq> C_new t \<and> cpc s (owner s t) \<noteq> C_built t"

lemma spent_step: "step s l s' \<Longrightarrow> own_inv s \<Longrightarrow> spent s t \<Longrightarrow> spent s' t"
proof (induction rule: step.induct)
  case (fs_fill s c t' u)
  then have "owner s t' = c" using own_invD(1) by simp
  with fs_fill show ?case by (auto simp: spent_def)
qed (auto simp: spent_def split: if_splits)

lemma posts_one:
  assumes "step s l s'" and "queue_inv s"
  shows "posts [mail_of s l] = [] \<or> (\<exists>t. posts [mail_of s l] = [t] \<and> \<not> spent s t \<and> spent s' t)"
  using assms
proof (induction rule: step.induct)
  case (fs_submit s c t)
  then have "owner s t = c" "t < next_tid (drv s)"
    using own_invD(1-3) [of s] by (auto simp: queue_inv_def own_invD(2) [of s c] intro: own_invD(3) [of s])
  with fs_submit show ?case by (auto simp: spent_def the_defs)
next
  case (sv_read s r f)
  then show ?case by (cases "fst (uvfsd_read_loop r (drv s))") simp_all
next
  case (sv_resume s r f d)
  then show ?case by (cases "fst (uvfsd_read_loop r d)") simp_all
next
  case (sv_write s r f count h n)
  then show ?case by (cases "fst (uvfsd_write_lookup n (drv s))") simp_all
qed simp_all

lemma posts_spent:
  "traced init_sys step ok mail_of s os \<Longrightarrow> distinct (posts os) \<and> (\<forall>t \<in> set (posts os). spent s t)"
proof (induction rule: traced.induct)
  case (traced_step s os l s')
  have "queue_inv s" using traced_step.hyps(1) by (rule queues.inv_reach [OF traced_reach])
  moreover then have "own_inv s" by (simp add: queue_inv_def)
  ultimately show ?case
    using posts_one [OF traced_step.hyps(2)] spent_step [OF traced_step.hyps(2)] traced_step.IH by auto
qed simp

fun mail_trace :: "sys \<Rightarrow> label list \<Rightarrow> tid mail_op list" where
  "mail_trace s [] = []"
| "mail_trace s (l # ls) = mail_of s l # mail_trace (exec s l) ls"

lemma admitted_traced:
  "traced init_sys step ok mail_of s os \<Longrightarrow> admitted ok s ls \<Longrightarrow>
   traced init_sys step ok mail_of (foldl exec s ls) (os @ mail_trace s ls)"
proof (induction ls arbitrary: s os)
  case (Cons l ls)
  then have "traced init_sys step ok mail_of (exec s l) (os @ [mail_of s l])"
    by (auto intro: traced_step exec_step)
  from Cons.IH [OF this] Cons.prems show ?case by simp
qed simp

lemma answered_run_trace: "mail_trace start answered_run =
    [Skip, Skip, Skip, Post 0, Take 0, Skip, Skip, Answer 0, Skip, Skip, Skip]"
  by (simp add: answered_run_def taken_run_def run_simps layout_simps)

lemma answered_run_traced:
  "traced init_sys step disciplined mail_of (foldl exec start answered_run) (mail_trace start answered_run)"
  using admitted_traced [OF traced_init [of init_sys, OF start_init] answered_run_ok] by simp

section \<open>Properties\<close>

text \<open>
  C2. The driver refines a mailbox: whatever the threads, the server and the signals do, each
  step of the driver performs one operation of the mailbox, and replaying these operations from
  the empty mailbox succeeds and yields the lists of the driver. The mailbox takes requests
  from the front, answers only requests that were taken, and loses none but by a withdrawal or
  by the last close of the device.
\<close>

theorem mailbox_refinement:
  "traced init_sys step ok mail_of s os \<Longrightarrow> replay mail os empty_mailbox = Some (mbox s)"
  by (rule box.traced_replay)

theorem mailbox_refinement_witness:
  "replay mail (mail_trace start answered_run) empty_mailbox = Some (mbox (foldl exec start answered_run))"
  using mailbox_refinement [OF answered_run_traced] .

text \<open>
  C3. Over any run of the driver: requests reach the server in the order in which they were
  submitted, each at most once; a reply is accepted at most once per request, and only for a
  request that was taken; and if the device stays open, the submitted requests that no
  interrupted thread withdraws are, in order, exactly those taken and those still waiting.
\<close>

theorem requests_in_order:
  assumes "traced init_sys step ok mail_of s os"
  shows "subseq (takes os @ Uvfs_requests (drv s)) (posts os) \<and> distinct (takes os @ Uvfs_requests (drv s))
    \<and> distinct (answers os) \<and> set (answers os) \<subseteq> set (takes os)
    \<and> (Flush \<notin> set os \<longrightarrow> filter (\<lambda>t. Withdraw t \<notin> set os) (takes os @ Uvfs_requests (drv s))
         = filter (\<lambda>t. Withdraw t \<notin> set os) (posts os))"
proof -
  have run: "replay mail os empty_mailbox = Some (mbox s)" using assms by (rule box.traced_replay)
  have once: "distinct (posts os)" using posts_spent [OF assms] by blast
  have order: "subseq (takes os @ Uvfs_requests (drv s)) (posts os)"
    using replay_order [OF run] by (simp add: mbox_def empty_mailbox_def)
  have "distinct (takes os @ Uvfs_requests (drv s))" using subseq_distinct [OF order once] .
  moreover have "distinct (answers os) \<and> set (answers os) \<subseteq> set (takes os)"
    using replay_answers [OF run] once by (simp add: empty_mailbox_def)
  moreover have "Flush \<notin> set os \<longrightarrow> filter (\<lambda>t. Withdraw t \<notin> set os) (takes os @ Uvfs_requests (drv s))
         = filter (\<lambda>t. Withdraw t \<notin> set os) (posts os)"
    using replay_exact [OF run, of "\<lambda>t. Withdraw t \<notin> set os"] by (simp add: mbox_def empty_mailbox_def)
  ultimately show ?thesis using order by blast
qed

theorem requests_in_order_witness:
  "posts (mail_trace start answered_run) = [0] \<and> takes (mail_trace start answered_run) = [0]
   \<and> set (answers (mail_trace start answered_run)) \<subseteq> set (takes (mail_trace start answered_run))"
  using requests_in_order [OF answered_run_traced] by (simp add: answered_run_trace)

end
