(* ===== verification/Uvfs_Progress.thy ===== *)
theory Uvfs_Progress
  imports Uvfs_Runs
begin

text \<open>
  Nobody waits for nothing: as long as a file system thread waits, its request is in a queue, or a
  server thread is copying the reply in, or the answer is there and the thread can go on. When the
  last server has left, all waiting threads have their answer.
\<close>

section \<open>Invariant\<close>

definition writing :: "sys \<Rightarrow> tid \<Rightarrow> bool" where
  "writing s t \<longleftrightarrow> (\<exists>r f n. spc s r = S_write f t n)"

definition accounted :: "sys \<Rightarrow> tid \<Rightarrow> bool" where
  "accounted s t \<longleftrightarrow> t_answered (the_trans (drv s) t) \<or> t \<in> listed (drv s) \<or> writing s t"

definition progress_inv :: "sys \<Rightarrow> bool" where
  "progress_inv s \<longleftrightarrow> queue_inv s
   \<and> (\<forall>c t. pending (cpc s c) = Some t \<longrightarrow> accounted s t)
   \<and> (uvfs_use_count (drv s) = 0 \<longrightarrow> listed (drv s) = {})"

lemma progress_invD:
  assumes "progress_inv s"
  shows "queue_inv s" and "pending (cpc s c) = Some t \<Longrightarrow> accounted s t"
    and "uvfs_use_count (drv s) = 0 \<Longrightarrow> listed (drv s) = {}"
  using assms by (auto simp: progress_inv_def)

lemma writing_upd:
  assumes "\<And>f t n. spc s r \<noteq> S_write f t n"
  shows "writing (s\<lparr>drv := d, spc := (spc s)(r := pc)\<rparr>) t \<longleftrightarrow> (\<exists>f n. pc = S_write f t n) \<or> writing s t"
  unfolding writing_def using assms by (auto, metis)

lemma use_count_bounds:
  assumes "queue_inv s"
  shows "0 \<le> uvfs_use_count (drv s)" and "f \<in> open_files s \<Longrightarrow> uvfs_use_count (drv s) \<noteq> 0"
  using assms by (auto simp: queue_inv_def file_inv_def)

lemma progress_inv_init: "init_sys s \<Longrightarrow> progress_inv s"
  using queue_inv_init by (auto simp: progress_inv_def init_sys_def init_driver_def listed_def)

text \<open>A step that submits nothing and loses nothing.\<close>

lemma progress_inv_keep:
  assumes "progress_inv s" and "queue_inv s'"
    and "\<And>c t. pending (cpc s' c) = Some t \<Longrightarrow> pending (cpc s c) = Some t"
    and "\<And>c t. pending (cpc s' c) = Some t \<Longrightarrow> accounted s t \<Longrightarrow> accounted s' t"
    and "uvfs_use_count (drv s') = 0 \<Longrightarrow> listed (drv s') = {}"
  shows "progress_inv s'"
  using assms unfolding progress_inv_def by blast

lemma progress_inv_same:
  assumes "progress_inv s" and "queue_inv s'"
    and "\<And>c t. pending (cpc s' c) = Some t \<Longrightarrow> pending (cpc s c) = Some t"
    and "\<And>t. t_answered (the_trans (drv s') t) = t_answered (the_trans (drv s) t)"
    and "listed (drv s') = listed (drv s)" and "\<And>t. writing s' t = writing s t"
    and "uvfs_use_count (drv s') = uvfs_use_count (drv s)"
  shows "progress_inv s'"
  using assms progress_invD(3) [OF assms(1)] by (intro progress_inv_keep [OF assms(1)]) (auto simp: accounted_def)

text \<open>A thread takes its own transaction out of the queues.\<close>

lemma progress_inv_cancel:
  assumes "progress_inv s" and "queue_inv (s\<lparr>drv := make_request_cancel t (drv s), cpc := (cpc s)(c := C_done t)\<rparr>)"
    and "ctid (cpc s c) = Some t"
  shows "progress_inv (s\<lparr>drv := make_request_cancel t (drv s), cpc := (cpc s)(c := C_done t)\<rparr>)"
proof -
  note inv = progress_invD [OF assms(1)]
  have "t' \<noteq> t" if "pending (cpc s c') = Some t'" "c' \<noteq> c" for c' t'
    using owner_live(2) [OF inv(1)] assms(3) that pending_ctid by blast
  moreover have "listed (make_request_cancel t (drv s)) = listed (drv s) - {t}"
    using queue_distinct [OF inv(1)] by (simp add: listed_cancel)
  ultimately show ?thesis
    using inv(3) by (intro progress_inv_keep [OF assms(1,2)]) (auto simp: accounted_def writing_def split: if_splits)
qed

text \<open>One pass through the loop of \<open>uvfsd_read\<close>.\<close>

lemma progress_inv_read:
  assumes "progress_inv s" and "queue_inv (s\<lparr>drv := snd (uvfsd_read_loop r d), spc := (spc s)(r := read_pc f (fst (uvfsd_read_loop r d)))\<rparr>)"
    and "\<And>f t n. spc s r \<noteq> S_write f t n" and "listed d = listed (drv s)" and "f' \<in> open_files s"
    and "\<And>t. t_answered (the_trans d t) = t_answered (the_trans (drv s) t)" and "uvfs_use_count d = uvfs_use_count (drv s)"
    and "distinct (Uvfs_requests d @ Uvfs_replies d)"
  shows "progress_inv (s\<lparr>drv := snd (uvfsd_read_loop r d), spc := (spc s)(r := read_pc f (fst (uvfsd_read_loop r d)))\<rparr>)"
  using assms(2-) use_count_bounds(2) [OF progress_invD(1) [OF assms(1)] assms(5)]
  by (intro progress_inv_keep [OF assms(1)]) (auto simp: accounted_def writing_upd read_loop_lists(2))

text \<open>The steps that change what a waiting thread waits for.\<close>

lemma progress_inv_release:
  assumes "step s (L_release f) s'" and "progress_inv s" and "queue_inv s'"
  shows "progress_inv s'"
  using assms(1)
proof (rule step_releaseE)
  assume s': "s' = s\<lparr>drv := snd (uvfsd_release (drv s)), open_files := open_files s - {f}\<rparr>"
    and f: "f \<in> open_files s" "\<And>r. sfile (spc s r) \<noteq> Some f"
  note qs = progress_invD(1) [OF assms(2)]
  have idle: "\<not> writing s t" if "uvfs_use_count (drv s) = 1" for t
    using last_close_idle [OF _ f that] qs by (simp add: queue_inv_def writing_def)
  show ?thesis
    by (rule progress_inv_keep [OF assms(2,3)])
      (use idle qs queue_listed_live [OF qs] in \<open>auto simp: s' accounted_def release_trans [OF queue_distinct [OF qs]]
        eio_answer_def listed_def writing_def\<close>)
qed

lemma progress_inv_submit:
  assumes "step s (L_submit c) s'" and "progress_inv s" and "queue_inv s'"
  shows "progress_inv s'"
proof (cases "uvfs_use_count (drv s) = 0")
  case True
  with assms progress_invD(3) [OF assms(2)] show ?thesis
    by (intro progress_inv_keep [OF assms(2,3)])
      (auto elim!: step_submitE simp: accounted_def listed_def writing_def split: if_splits)
next
  case False
  have "accounted s' t'" if "accounted s t'" for t'
    using assms(1) False that by (auto elim!: step_submitE simp: accounted_def listed_def writing_def)
  moreover have "accounted s' t'" if "pending (cpc s' c) = Some t'" for t'
    using assms(1) False that by (auto elim!: step_submitE simp: accounted_def listed_def)
  moreover have "cpc s' c' = cpc s c'" if "c' \<noteq> c" for c'
    using assms(1) that by (auto elim!: step_submitE)
  moreover have "uvfs_use_count (drv s') \<noteq> 0"
    using assms(1) False by (auto elim!: step_submitE)
  ultimately show ?thesis
    using assms(2,3) unfolding progress_inv_def by metis
qed

lemma progress_inv_taken:
  assumes "progress_inv s" and "queue_inv s'"
  shows "step s (L_read r f) s' \<Longrightarrow> progress_inv s'" and "step s (L_resume r) s' \<Longrightarrow> progress_inv s'"
proof -
  note qs = progress_invD(1) [OF assms(1)]
  have "spc s r = S_sleep g \<Longrightarrow> g \<in> open_files s" for g
    using qs file_invD [of s r g] by (simp add: queue_inv_def)
  then show "step s (L_read r f) s' \<Longrightarrow> progress_inv s'" and "step s (L_resume r) s' \<Longrightarrow> progress_inv s'"
    using assms queue_distinct [OF qs]
    by (auto elim!: step_readE step_resumeE intro!: progress_inv_read)
qed

lemma progress_inv_write:
  assumes "step s (L_write r f count h) s'" and "progress_inv s" and "queue_inv s'"
  shows "progress_inv s'"
proof -
  note qs = progress_invD(1) [OF assms(2)]
  show ?thesis
    using assms use_count_bounds(2) [OF qs] write_lookup_lists(2) [OF queue_distinct [OF qs]]
    by (intro progress_inv_keep [OF assms(2,3)]) (auto elim!: step_writeE simp: accounted_def writing_upd)
qed

lemma progress_inv_written:
  assumes "step s (L_written r data) s'" and "progress_inv s" and "queue_inv s'"
  shows "progress_inv s'"
proof -
  note inv = progress_invD [OF assms(2)]
  obtain f t where pc: "spc s r = S_write f t (length data)"
    and s': "s' = s\<lparr>drv := uvfsd_write_done t data (drv s), spc := (spc s)(r := S_user)\<rparr>"
    using assms(1) by (auto elim: step_writtenE)
  have "writing s t' \<Longrightarrow> t' \<noteq> t \<Longrightarrow> writing s' t'" for t'
    using pc unfolding writing_def s' by (auto, metis spc.inject(5))
  moreover have "live (drv s) t'" if "pending (cpc s c) = Some t'" for c t'
    using owner_live(1) [OF inv(1)] pending_ctid that by blast
  ultimately show ?thesis
    using inv(3) by (intro progress_inv_keep [OF assms(2,3)]) (auto simp: s' accounted_def listed_def)
qed

lemma progress_inv_check:
  assumes "step s (L_check c) s'" and "progress_inv s" and "queue_inv s'"
  shows "progress_inv s'"
proof -
  obtain t where pc: "cpc s c = C_check t"
    and s': "s' = s\<lparr>drv := snd (make_request_check (csig s c) t (drv s)),
      cpc := (cpc s)(c := if fst (make_request_check (csig s c) t (drv s)) then C_drain t else C_done t)\<rparr>"
    using assms(1) by (auto elim: step_checkE)
  show ?thesis
  proof (cases "csig s c \<and> \<not> t_in_use (the_trans (drv s) t)")
    case True
    with assms(2,3) pc show ?thesis
      unfolding s' using progress_inv_cancel [where s = s and t = t and c = c] by (simp add: check_cases)
  next
    case False
    with assms(2,3) pc show ?thesis
      by - (rule progress_inv_same [of s], auto simp: s' check_cases trans_upd_trans listed_def writing_def split: if_splits)
  qed
qed

lemma progress_inv_cancelled:
  "step s (L_cancel c) s' \<Longrightarrow> progress_inv s \<Longrightarrow> queue_inv s' \<Longrightarrow> progress_inv s'"
  by (auto elim!: step_cancelE intro: progress_inv_cancel)

lemma progress_inv_new:
  assumes "step s (L_new c junk) s'" and "progress_inv s" and "queue_inv s'"
  shows "progress_inv s'"
proof -
  note inv = progress_invD [OF assms(2)]
  have "\<not> live (drv s) (next_tid (drv s))"
    using inv(1) own_invD(3) by (auto simp: queue_inv_def)
  then have "pending (cpc s c') \<noteq> Some (next_tid (drv s))" for c'
    using owner_live(1) [OF inv(1)] pending_ctid by blast
  then show ?thesis
    using assms(1) inv(3)
    by (intro progress_inv_keep [OF assms(2,3)])
      (auto elim!: step_newE simp: accounted_def listed_def writing_def split: if_splits)
qed

lemma progress_inv_free:
  assumes "step s (L_free c u) s'" and "progress_inv s" and "queue_inv s'"
  shows "progress_inv s'"
proof -
  note inv = progress_invD [OF assms(2)]
  obtain t where pc: "cpc s c = C_done t" and s': "s' = s\<lparr>drv := kfree_trans t (drv s), cpc := (cpc s)(c := C_idle)\<rparr>"
    using assms(1) by (auto elim: step_freeE)
  have "pending (cpc s c') = Some t' \<Longrightarrow> t' \<noteq> t" for c' t'
    using owner_live(2) [OF inv(1), of c' t] owner_live(2) [OF inv(1), of c t] pc
      pending_ctid [of "cpc s c'" t'] by auto
  then show ?thesis
    using pc inv(3)
    by (intro progress_inv_keep [OF assms(2,3)])
      (auto simp: s' accounted_def kfree_trans_other listed_def writing_def split: if_splits)
qed

text \<open>The others change neither the queues nor an answer.\<close>

lemma progress_inv_open:
  assumes "step s (L_open f) s'" and "progress_inv s" and "queue_inv s'"
  shows "progress_inv s'"
  using assms(1) use_count_bounds(1) [OF progress_invD(1) [OF assms(2)]]
  by (intro progress_inv_keep [OF assms(2,3)]) (auto elim!: step_openE simp: accounted_def listed_def writing_def)

lemma progress_inv_local:
  assumes "progress_inv s" and "queue_inv s'"
  shows "step s (L_fill c u) s' \<Longrightarrow> progress_inv s'" and "step s (L_wake c) s' \<Longrightarrow> progress_inv s'"
    and "step s (L_unused c) s' \<Longrightarrow> progress_inv s'" and "step s (L_signal c) s' \<Longrightarrow> progress_inv s'"
    and "step s L_shutdown s' \<Longrightarrow> progress_inv s'"
  using assms
  by (elim step_fillE step_wakeE step_unusedE step_signalE step_shutdownE,
      intro progress_inv_same [OF assms]; auto simp: listed_def writing_def trans_upd_trans split: if_splits)+

lemma progress_inv_idle:
  assumes "progress_inv s" and "queue_inv s'"
  shows "step s (L_interrupt r) s' \<Longrightarrow> progress_inv s'" and "step s (L_shut r) s' \<Longrightarrow> progress_inv s'"
    and "step s (L_copied r bs) s' \<Longrightarrow> progress_inv s'" and "step s (L_return r n) s' \<Longrightarrow> progress_inv s'"
  using assms
  by (elim step_interruptE step_shutE step_copiedE step_returnE,
      intro progress_inv_same [OF assms]; auto simp: listed_def writing_upd)+

lemmas progress_inv_steps = progress_inv_release progress_inv_submit progress_inv_taken progress_inv_write
  progress_inv_written progress_inv_check progress_inv_cancelled progress_inv_new progress_inv_free
  progress_inv_open progress_inv_local progress_inv_idle

lemma progress_inv_step:
  assumes "step s l s'" and "progress_inv s"
  shows "progress_inv s'"
proof -
  have "queue_inv s'" using assms queue_inv_step progress_invD(1) by blast
  with assms show ?thesis by (cases l) (auto intro: progress_inv_steps)
qed

interpretation progress: invariant_system init_sys step ok progress_inv for ok
  by unfold_locales (auto intro: progress_inv_init progress_inv_step)

section \<open>Properties\<close>


text \<open>A thread submits, the server reads the request and closes the device.\<close>

definition left_run :: "label list" where
  "left_run = taken_run @ [L_copied 0 (delivered demo_request), L_return 0 44, L_release 0]"

lemma left_run_ok: "admitted anything start left_run"
  by (simp add: left_run_def taken_run_def run_simps layout_simps)

lemma left_run_end:
  "cpc (foldl exec start left_run) 0 = C_waiting 0" "uvfs_use_count (drv (foldl exec start left_run)) = 0"
  by (simp_all add: left_run_def taken_run_def run_simps layout_simps)


end
