(* ===== verification/Spec2Isabelle.thy ===== *)
theory Spec2Isabelle
  imports Uvfs_Operations Uvfs_Wakeup Uvfs_Mailbox Uvfs_Progress
begin

text \<open>
  \<^bold>\<open>What is verified.\<close>

  uvfs (loaded as \<open>pmfs\<close>) is a Linux kernel module that lets a program in user space implement a file
  system. The kernel calls the operations of the module (\<open>src/dir.c\<close>, \<open>src/file.c\<close>, \<open>src/super.c\<close>,
  \<open>src/symlink.c\<close>); each of them allocates a transaction, writes a request of \<open>src/protocol.h\<close> into
  the union the transaction contains, and sleeps in \<open>uvfs_make_request\<close>. Server threads read requests
  from a device and write replies to it (\<open>src/driver.c\<close>); a reply is copied over the request it answers,
  the sleeping thread wakes up, uses the reply, and frees the transaction. \<open>src/operations.c\<close> holds the
  tables through which the kernel reaches the operations, \<open>src/uvfs_signal.cc\<close> is a tool that sends
  control commands to the device.

  \<^bold>\<open>Theories.\<close> An arrow says what is modelled.

  \<^item> \<open>Uvfs_Prelude\<close>: bytes, little-endian words, the interfaces \<open>codec\<close>, \<open>invariant_system\<close> and
    \<open>refinement\<close>, the collections \<open>layout_simps\<close> and \<open>buffer_simps\<close>.
  \<^item> \<open>Uvfs_Protocol\<close> \<open>\<rightarrow>\<close> \<open>protocol.h\<close>: the constants, every request and reply structure with its C
    layout (offsets and sizes computed by the alignment rule), the codecs of handles, times and attributes,
    and \<open>parse_request\<close>, a server's reading of a request.
  \<^item> \<open>Uvfs_Driver\<close> \<open>\<rightarrow>\<close> \<open>driver.c\<close>: the record \<open>driver\<close> is the module's global state (the two queues,
    the wait queue of the servers, \<open>ShuttingDown\<close>, \<open>Serial_number\<close>, \<open>uvfs_use_count\<close>) and the heap of
    transactions. Every handler is split where it drops \<open>Uvfs_lock\<close>; one definition is one critical section.
  \<^item> \<open>Uvfs_Machine\<close> \<open>\<rightarrow>\<close> the interleaving of these sections: the step relation \<open>step\<close> over any number of
    file system threads (\<open>cpc\<close>) and server threads (\<open>spc\<close>), signals, opens and closes, and the invariant of
    the queues. \<open>Uvfs_Runs\<close>: the same as a function of the labels, to replay schedules.
  \<^item> \<open>Uvfs_Safety\<close>, \<open>Uvfs_Conduit\<close>, \<open>Uvfs_Mailbox\<close>, \<open>Uvfs_Serials\<close>, \<open>Uvfs_Wakeup\<close>, \<open>Uvfs_Progress\<close>:
    what the interleaved driver guarantees (below).
  \<^item> \<open>Uvfs_Handlers\<close> \<open>\<rightarrow>\<close> \<open>uvfsd_read\<close> and \<open>uvfsd_write\<close> from entry to return, with their return codes.
  \<^item> \<open>Uvfs_Requests\<close> \<open>\<rightarrow>\<close> the stores each of the fifteen operations makes into the union.
  \<^item> \<open>Uvfs_Vfs\<close> \<open>\<rightarrow>\<close> the state of the operations: \<open>uvfs_inode_info\<close>, the inode cache, the calling thread, the
    ways an exchange can end (\<open>outcome\<close>) and a record of the calls into the rest of the kernel (\<open>event\<close>).
  \<^item> \<open>Uvfs_Inode\<close>, \<open>Uvfs_Super\<close>, \<open>Uvfs_Export\<close> \<open>\<rightarrow>\<close> \<open>super.c\<close>; \<open>Uvfs_Dir\<close>, \<open>Uvfs_Readdir\<close>,
    \<open>Uvfs_Permission\<close> \<open>\<rightarrow>\<close> \<open>dir.c\<close>; \<open>Uvfs_File\<close> \<open>\<rightarrow>\<close> \<open>file.c\<close>; \<open>Uvfs_Symlink\<close> \<open>\<rightarrow>\<close> \<open>symlink.c\<close>: one
    definition per function of the source, under its name.
  \<^item> \<open>Uvfs_Operations\<close> \<open>\<rightarrow>\<close> \<open>operations.c\<close>: the tables as records of optional functions, and calls through
    them. \<open>Uvfs_Module\<close> \<open>\<rightarrow>\<close> \<open>uvfs_init\<close>, \<open>uvfs_cleanup\<close>, the slab cache, \<open>uvfs_signal.cc\<close>.

  \<^bold>\<open>Two levels.\<close> The driver is modelled as concurrent threads; an operation of the file system is modelled as
  one step, in which each exchange with the server ends in a given way (the \<open>script\<close> of \<open>vfs\<close>). The two meet in
  \<open>Uvfs_Conduit\<close> and below: the driver ends every exchange in one of the ways the operations are modelled over,
  and accepts every request an operation builds. Both conditions on the script (\<open>exchange_ok\<close>) are thereby
  results about the driver, given replies that fit the union.

  \<^bold>\<open>What is shown.\<close>

  \<^item> Of the driver, for every interleaving: the queues are well formed; each step is a step of an abstract
    mailbox, so that requests reach the server in order and are answered at most once; a waiting thread's
    request is queued, being answered, or answered; a thread gets back its own request overlaid by a complete
    reply, or an error; with serial numbers that are not reset early a reply reaches the request it names; a
    sleeping server thread is on its way to a waiting request unless one is interrupted; and with a
    disciplined server and no kills no freed transaction is touched. Where a discipline is needed, the run that
    shows why is given: a kill at the wrong moment makes the driver use a freed transaction, a reply larger than
    the union overruns it, an interrupt loses a wake-up, an early reset makes two requests share a number.
  \<^item> Of the requests: a server reads back exactly the arguments of the operation; no stale kernel memory is
    sent, except by \<open>symlink\<close> and \<open>rename\<close>.
  \<^item> Of the operations: what each does on every branch, which error it returns, what it sends and how it
    changes the inodes; every operation keeps one inode per file, leaves no transaction behind and submits
    well-formed requests (interface \<open>vfs_operation\<close>), hence so does every sequence of calls.

  \<^bold>\<open>Bounds and conventions.\<close> Machine integers are words of their width; the ABI is x86-64. Loops are recursion
  that is proved to terminate: the draining loops of \<open>uvfsd_release\<close> by the length of the list, \<open>uvfs_readdir\<close>
  by the number of exchanges in the script (a server that never ends the directory is a script that never ends it).
  No fuel is used. A read outside the union, which the code does not prevent where it follows lengths of the server, is
  the value \<open>None\<close>. \<open>fault\<close> records an access to freed memory or past the end of a transaction. Conditional
  compilation is a test of \<open>LINUX_VERSION_CODE\<close>.

  \<^bold>\<open>Parameters.\<close> Functions of the kernel whose results matter are arguments with their documented contract:
  \<open>iget5_locked\<close> and \<open>ilookup5\<close> (\<open>good_kernel\<close>), \<open>inode_change_ok\<close>, \<open>inode_setattr\<close>, \<open>generic_fillattr\<close>, \<open>filldir\<close>,
  \<open>vfs_readlink\<close>, \<open>vfs_follow_link\<close>, \<open>d_splice_alias\<close>, \<open>d_alloc_root\<close>, \<open>get_sb_nodev\<close> and the generic reads and writes.

  \<^bold>\<open>Not modelled.\<close> Debug output (\<open>dprintk\<close>, \<open>displayFhandle\<close> beyond the fact that it is called); the memory model
  below critical sections (spin locks are taken to work); scheduling and fairness; reference counts of inodes
  and dentries other than the calls recorded as events; \<open>GPL\<close>, \<open>LGPL\<close>, the build files. The server in user space is
  not part of the repository.
\<close>

section \<open>Fitting the two levels\<close>

text \<open>A transaction that has been allocated and not yet filled in is as large as the union.\<close>

definition fresh_inv :: "sys \<Rightarrow> bool" where
  "fresh_inv s \<longleftrightarrow> queue_inv s \<and> (\<forall>c t. cpc s c = C_new t \<longrightarrow> length (t_u (the_trans (drv s) t)) = sizeof_u)"

lemma fresh_inv_same:
  assumes "fresh_inv s" and "queue_inv s'"
    and "\<And>c t. cpc s' c = C_new t \<Longrightarrow> cpc s c = C_new t"
    and "\<And>c t. cpc s' c = C_new t \<Longrightarrow> cpc s c = C_new t \<Longrightarrow> t_u (the_trans (drv s') t) = t_u (the_trans (drv s) t)"
  shows "fresh_inv s'"
  using assms unfolding fresh_inv_def by metis

lemma new_other:
  "fresh_inv s \<Longrightarrow> ctid (cpc s c) = Some t \<Longrightarrow> c' \<noteq> c \<Longrightarrow> cpc s c' \<noteq> C_new t"
  using own_invD(1) [of s c' t] own_invD(1) [of s c t] by (auto simp: fresh_inv_def queue_inv_def)

lemma fresh_inv_step:
  assumes "step s l s'" and "fresh_inv s"
  shows "fresh_inv s'"
proof -
  have "queue_inv s'" using assms queue_inv_step by (auto simp: fresh_inv_def)
  with assms show ?thesis
  proof (induction rule: step.induct)
    case (dev_release f s)
    then have qi: "queue_inv s" by (simp add: fresh_inv_def)
    have "t \<notin> set (Uvfs_requests (drv s) @ Uvfs_replies (drv s))" if "cpc s c = C_new t" for c t
      using not_listed [OF qi, of c t] that by (auto simp: listed_def)
    with dev_release show ?case
      by - (rule fresh_inv_same [of s], auto simp: release_trans [OF queue_distinct [OF qi]])
  next
    case (fs_new s c junk t)
    then have "\<not> live (drv s) (next_tid (drv s))"
      using own_invD(3) by (auto simp: fresh_inv_def queue_inv_def)
    then have "cpc s c' \<noteq> C_new (next_tid (drv s))" for c'
      using fs_new.prems own_invD(2) [of s c'] by (auto simp: fresh_inv_def queue_inv_def)
    with fs_new show ?case by (auto simp: fresh_inv_def)
  next
    case (sv_written s r f t n data)
    then have "cpc s c \<noteq> C_new t" for c
      using srv_invD [of s r t] own_invD(1) [of s c t] by (auto simp: fresh_inv_def queue_inv_def)
    with sv_written show ?case by - (rule fresh_inv_same [of s], auto)
  next
    case (fs_free s c t u)
    then have "cpc s c' = C_new t' \<Longrightarrow> t' \<noteq> t" for c' t'
      using new_other [of s c t c'] by (cases "c' = c") auto
    with fs_free show ?case
      by - (rule fresh_inv_same [of s], auto simp: kfree_frame(4) split: if_splits)
  next
    case (fs_fill s c t u)
    then show ?case
      using new_other [of s c t] by - (rule fresh_inv_same [of s], auto simp: trans_upd_trans split: if_splits)
  next
    case (fs_submit s c t)
    then show ?case
      using new_other [of s c t] by - (rule fresh_inv_same [of s], auto split: if_splits)
  next
    case (fs_check s c t)
    then show ?case
      using new_other [of s c t]
      by - (rule fresh_inv_same [of s], auto simp: check_cases trans_upd_trans split: if_splits)
  next
    case (fs_cancel s c t)
    then show ?case
      using new_other [of s c t] by - (rule fresh_inv_same [of s], auto split: if_splits)
  qed (rule fresh_inv_same, auto simp: split: if_splits)+
qed

lemma fresh_inv_init: "init_sys s \<Longrightarrow> fresh_inv s"
  using queue_inv_init by (auto simp: fresh_inv_def init_sys_def)

interpretation fresh: invariant_system init_sys step ok fresh_inv for ok
  by unfold_locales (auto intro: fresh_inv_init fresh_inv_step)

text \<open>A thread has a transaction and has not filled it in.\<close>

definition new_run :: "label list" where
  "new_run = [L_open 0, L_new 3 (replicate sizeof_u 165)]"

lemma new_run_ok: "admitted ok start new_run" if "\<And>s l. l \<in> set new_run \<Longrightarrow> ok s l"
  using that by (simp add: new_run_def run_simps)

lemma new_run_end:
  "cpc (foldl exec start new_run) 3 = C_new 0" "t_serial (the_trans (drv (foldl exec start new_run)) 0) = 0"
  "t_u (the_trans (drv (foldl exec start new_run)) 0) = replicate sizeof_u 165"
  by (simp_all add: new_run_def run_simps)

section \<open>Properties\<close>




text \<open>The kernel's functions, as simple as they can be.\<close>

definition plain_kfuncs :: kfuncs where
  "plain_kfuncs = \<lparr>kf_kernel = plain_kernel, kf_splice_alias = (\<lambda>_ _. NULL), kf_readlink = (\<lambda>_ _ _ m. (0, m)),
     kf_follow_link = (\<lambda>nd _. (0, nd)), kf_change_ok = (\<lambda>_ _. 0), kf_setattr = (\<lambda>a n. (0, n\<lparr>i_mode := ia_mode a\<rparr>)),
     kf_fillattr = id, kf_filldir = (\<lambda>d name _ _ _. (False, d @ [name])), kf_alloc_root = (\<lambda>i. Some i),
     kf_dcache = \<lparr>d_obtain_alias = (\<lambda>i. Inr i), d_alloc_anon = (\<lambda>i. Some i)\<rparr>\<rparr>"

lemma plain_kfuncs_ok: "kfuncs_ok plain_kfuncs"
  by (simp add: kfuncs_ok_def plain_kfuncs_def plain_good keeps_identity_def)


end
